(* ===== verification/Go_Prelude.thy ===== *)
theory Go_Prelude
  imports Main "HOL-Library.Word" "HOL-Library.Monad_Syntax"
begin

text \<open>
  What the components share: Go's fixed-width integers as words, byte slices as lists,
  run-time panics as \<open>None\<close>, the little-endian readers of \<open>encoding/binary\<close>, the
  \<open>for\<close> loop that fills an array, and the error values of the program.

  A Go expression that may panic has type \<open>'a go\<close>, and \<open>None\<close> is the panic. A Go
  function with the result \<open>(T, error)\<close> has type \<open>(go_error + T) go\<close>: \<open>None\<close> is
  a panic, \<open>Some (Inl e)\<close> a returned error, \<open>Some (Inr v)\<close> a returned value. A slice
  is a list and its capacity is taken to be its length, so the model panics wherever the
  code can and the proofs that nothing panics carry over.
\<close>

unbundle bit_operations_syntax

type_synonym u8 = "8 word"
type_synonym u16 = "16 word"
type_synonym u32 = "32 word"
type_synonym u64 = "64 word"
type_synonym bytes = "u8 list"
type_synonym 'a go = "'a option"

named_theorems at_simps \<open>reads at a constant offset of a concatenation\<close>
named_theorems layout_defs \<open>encoders and well-formedness predicates of the layouts\<close>

section \<open>Errors\<close>

text \<open>
  The errors the program creates, one constructor per format string of \<open>fmt.Errorf\<close> (with
  the arguments), \<open>Wrapped\<close> for the \<open>%w\<close> wrappers, and \<open>SysErr\<close> for an error value the
  operating system's packages return, which only carries its message.
\<close>

datatype go_error =
    WrongLength string nat nat
  | ChecksumError string
  | NotMultiple string nat nat
  | FieldNotFound string
  | AmbiguousCylinders u8 u8
  | AmbiguousStatus u8 u8
  | ShortReply string u32
  | DriverError u8 u8
  | StatusDriverError u8
  | DescriptorTooShort u32
  | SysErr string
  | Wrapped string go_error

section \<open>Indexing and slicing\<close>

text \<open>\<open>xs[i]\<close>, \<open>xs[i] = v\<close> and \<open>xs[lo:hi]\<close>, which panic out of range.\<close>

definition index :: "'a list \<Rightarrow> nat \<Rightarrow> 'a go" where
  "index xs i = (if i < length xs then Some (xs ! i) else None)"

definition set_index :: "'a list \<Rightarrow> nat \<Rightarrow> 'a \<Rightarrow> 'a list go" where
  "set_index xs i v = (if i < length xs then Some (xs[i := v]) else None)"

definition slice :: "'a list \<Rightarrow> nat \<Rightarrow> nat \<Rightarrow> 'a list go" where
  "slice xs lo hi =
     (if lo \<le> hi \<and> hi \<le> length xs then Some (take (hi - lo) (drop lo xs)) else None)"

text \<open>
  \<open>for i := 0; i < n; i++ { arr[i] = f(i) }\<close> over an array of length \<open>n\<close>: the
  elements in order, and a panic as soon as one of them panics.
\<close>

definition fill :: "nat \<Rightarrow> (nat \<Rightarrow> 'a go) \<Rightarrow> 'a list go" where
  "fill n f = those (map f [0..<n])"

text \<open>\<open>make([]byte, n)\<close>, and \<open>copy(dst, src)\<close>, which overwrites a prefix of \<open>dst\<close>.\<close>

definition make_bytes :: "nat \<Rightarrow> bytes" where
  "make_bytes n = replicate n 0"

definition copy_bytes :: "'a list \<Rightarrow> 'a list \<Rightarrow> 'a list" where
  "copy_bytes dst src = take (length dst) src @ drop (length src) dst"

lemma index_in: "i < length xs \<Longrightarrow> index xs i = Some (xs ! i)"
  by (simp add: index_def)

lemma set_index_in: "i < length xs \<Longrightarrow> set_index xs i v = Some (xs[i := v])"
  by (simp add: set_index_def)

lemma slice_in:
  "lo \<le> hi \<Longrightarrow> hi \<le> length xs \<Longrightarrow> slice xs lo hi = Some (take (hi - lo) (drop lo xs))"
  by (simp add: slice_def)

lemma index_append [at_simps]:
  "index (xs @ ys) i = (if i < length xs then index xs i else index ys (i - length xs))"
  by (auto simp: index_def nth_append)

lemma index_Cons [at_simps]:
  "index (x # xs) i = (if i = 0 then Some x else index xs (i - 1))"
  by (auto simp: index_def nth_Cons')

lemma slice_all [at_simps]: "length xs = n \<Longrightarrow> slice (xs @ ys) 0 n = Some xs"
  by (simp add: slice_def)

lemma slice_append [at_simps]:
  "length xs \<le> lo \<Longrightarrow> lo \<le> hi \<Longrightarrow> slice (xs @ ys) lo hi = slice ys (lo - length xs) (hi - length xs)"
  by (auto simp: slice_def)

lemma slice_Cons [at_simps]:
  "0 < lo \<Longrightarrow> lo \<le> hi \<Longrightarrow> slice (x # xs) lo hi = slice xs (lo - 1) (hi - 1)"
  using slice_append [of "[x]" lo hi xs] by simp

lemma length_copy_bytes [simp]: "length (copy_bytes dst src) = length dst"
  by (auto simp: copy_bytes_def)

lemma copy_bytes_full: "length src = length dst \<Longrightarrow> copy_bytes dst src = src"
  by (simp add: copy_bytes_def)

lemma fill_0 [simp]: "fill 0 f = Some []"
  by (simp add: fill_def)

lemma fill_Suc:
  "fill (Suc n) f = do { x \<leftarrow> f 0; xs \<leftarrow> fill n (\<lambda>i. f (Suc i)); Some (x # xs) }"
proof -
  have "map f [0..<Suc n] = f 0 # map (\<lambda>i. f (Suc i)) [0..<n]"
    by (simp add: upt_conv_Cons map_Suc_upt [symmetric] del: upt_Suc)
  then show ?thesis
    by (cases "f 0"; cases "those (map (\<lambda>i. f (Suc i)) [0..<n])")
      (simp_all add: fill_def del: upt_Suc)
qed

lemma fill_Some: "(\<And>i. i < n \<Longrightarrow> f i = Some (g i)) \<Longrightarrow> fill n f = Some (map g [0..<n])"
proof (induction n arbitrary: f g)
  case (Suc n)
  then have "fill n (\<lambda>i. f (Suc i)) = Some (map (\<lambda>i. g (Suc i)) [0..<n])" by simp
  with Suc.prems show ?case
    by (simp add: fill_Suc upt_conv_Cons map_Suc_upt [symmetric] del: upt_Suc)
qed simp

lemma fill_nth:
  assumes "fill n f = Some xs"
  shows "length xs = n \<and> (\<forall>i < n. f i = Some (xs ! i))"
  using assms
proof (induction n arbitrary: f xs)
  case (Suc n)
  then obtain x ys where "f 0 = Some x" "fill n (\<lambda>i. f (Suc i)) = Some ys" "xs = x # ys"
    by (auto simp: fill_Suc split: bind_splits)
  with Suc.IH [of "\<lambda>i. f (Suc i)" ys] show ?case by (auto simp: less_Suc_eq_0_disj)
qed simp

lemma split_length:
  "length xs = m + n \<Longrightarrow> \<exists>ys zs. xs = ys @ zs \<and> length ys = m \<and> length zs = n"
  by (rule exI [of _ "take m xs"], rule exI [of _ "drop m xs"]) simp

lemma split_lengths:
  "length xs = sum_list ns \<Longrightarrow> \<exists>xss. map length xss = ns \<and> xs = concat xss"
proof (induction ns arbitrary: xs)
  case (Cons n ns)
  then obtain ys zs where "xs = ys @ zs" "length ys = n" "length zs = sum_list ns"
    using split_length [of xs n "sum_list ns"] by auto
  moreover from this Cons.IH obtain zss where "map length zss = ns" "zs = concat zss" by blast
  ultimately show ?case by (intro exI [of _ "ys # zss"]) simp
qed simp

section \<open>Little-endian integers\<close>

text \<open>
  \<open>binary.LittleEndian\<close> as the Go library writes it: the highest index is read first, so
  that a short slice panics at once, and the bytes are shifted and ORed.
\<close>

definition Uint16 :: "bytes \<Rightarrow> u16 go" where
  "Uint16 b = do {
     b1 \<leftarrow> index b 1; b0 \<leftarrow> index b 0;
     Some (ucast b0 OR push_bit 8 (ucast b1)) }"

definition Uint32 :: "bytes \<Rightarrow> u32 go" where
  "Uint32 b = do {
     b3 \<leftarrow> index b 3; b0 \<leftarrow> index b 0; b1 \<leftarrow> index b 1; b2 \<leftarrow> index b 2;
     Some (ucast b0 OR push_bit 8 (ucast b1) OR push_bit 16 (ucast b2) OR push_bit 24 (ucast b3)) }"

definition Uint64 :: "bytes \<Rightarrow> u64 go" where
  "Uint64 b = do {
     b7 \<leftarrow> index b 7; b0 \<leftarrow> index b 0; b1 \<leftarrow> index b 1; b2 \<leftarrow> index b 2; b3 \<leftarrow> index b 3;
     b4 \<leftarrow> index b 4; b5 \<leftarrow> index b 5; b6 \<leftarrow> index b 6;
     Some (ucast b0 OR push_bit 8 (ucast b1) OR push_bit 16 (ucast b2) OR push_bit 24 (ucast b3)
       OR push_bit 32 (ucast b4) OR push_bit 40 (ucast b5) OR push_bit 48 (ucast b6)
       OR push_bit 56 (ucast b7)) }"

text \<open>
  The specification of the readers: the number a byte list denotes, as a word
  (\<open>le_word\<close>) and as a natural number (\<open>le_val\<close>), and the bytes of a word.
\<close>

fun le_word :: "bytes \<Rightarrow> 'a::len word" where
  "le_word [] = 0"
| "le_word (b # bs) = ucast b OR push_bit 8 (le_word bs)"

fun le_bytes :: "nat \<Rightarrow> 'a::len word \<Rightarrow> bytes" where
  "le_bytes 0 v = []"
| "le_bytes (Suc n) v = ucast v # le_bytes n (drop_bit 8 v)"

fun le_val :: "bytes \<Rightarrow> nat" where
  "le_val [] = 0"
| "le_val (b # bs) = unat b + 256 * le_val bs"

text \<open>\<open>PutUint32\<close> stores the four bytes, and panics when the slice is shorter.\<close>

definition PutUint32 :: "bytes \<Rightarrow> nat \<Rightarrow> u32 \<Rightarrow> bytes go" where
  "PutUint32 b off v =
     (if off + 4 \<le> length b
      then Some (b[off := ucast v, off + 1 := ucast (drop_bit 8 v),
                   off + 2 := ucast (drop_bit 16 v), off + 3 := ucast (drop_bit 24 v)])
      else None)"

lemma length_le_bytes [simp]: "length (le_bytes n v) = n"
  by (induction n arbitrary: v) auto

lemma bit_le_word:
  "bit (le_word bs :: 'a::len word) n \<longleftrightarrow>
     n < LENGTH('a) \<and> n div 8 < length bs \<and> bit (bs ! (n div 8)) (n mod 8)"
proof (induction bs arbitrary: n)
  case (Cons b bs)
  show ?case
  proof (cases "n < 8")
    case False
    then obtain m where n: "n = m + 8" by (metis add.commute le_Suc_ex not_le)
    have "\<not> bit b n" using False by (auto dest: bit_imp_le_length)
    moreover have "(m + 8) div 8 = Suc (m div 8)" by simp
    ultimately show ?thesis using Cons.IH [of m]
      by (auto simp: n bit_simps dest: bit_imp_le_length)
  qed (auto simp: bit_simps)
qed simp

lemma nth_le_bytes: "i < n \<Longrightarrow> le_bytes n v ! i = ucast (drop_bit (8 * i) v)"
proof (induction n arbitrary: v i)
  case (Suc n)
  then show ?case by (cases i) (auto simp: drop_bit_drop_bit ac_simps)
qed simp

lemma le_word_le_bytes:
  assumes "LENGTH('a) \<le> 8 * n"
  shows "le_word (le_bytes n v) = (v :: 'a::len word)"
proof (rule bit_word_eqI)
  fix k assume k: "k < LENGTH('a)"
  then have "k div 8 < n" using assms by auto
  then show "bit (le_word (le_bytes n v) :: 'a word) k = bit v k"
    using k by (simp add: bit_le_word nth_le_bytes bit_simps)
qed

lemma le_bytes_le_word:
  assumes "8 * length bs \<le> LENGTH('a)"
  shows "le_bytes (length bs) (le_word bs :: 'a::len word) = bs"
proof (rule nth_equalityI)
  fix i assume "i < length (le_bytes (length bs) (le_word bs :: 'a word))"
  then have i: "i < length bs" by simp
  show "le_bytes (length bs) (le_word bs :: 'a word) ! i = bs ! i"
  proof (rule bit_word_eqI)
    fix k assume "k < LENGTH(8)"
    then have k: "k < 8" by simp
    then have "8 * i + k < LENGTH('a)" using i assms by linarith
    then show "bit (le_bytes (length bs) (le_word bs :: 'a word) ! i) k = bit (bs ! i) k"
      using i k by (simp add: nth_le_bytes bit_simps bit_le_word add.commute)
  qed
qed simp

lemma le_val_less: "le_val bs < 256 ^ length bs"
proof (induction bs)
  case (Cons b bs)
  have "unat b < 2 ^ LENGTH(8)" by (rule unsigned_less)
  then have "unat b < 256" by simp
  with Cons show ?case by simp
qed simp

lemma le_word_eq_of_nat: "le_word bs = (of_nat (le_val bs) :: 'a::len word)"
proof (induction bs)
  case (Cons b bs)
  have disj: "(ucast b :: 'a word) AND push_bit 8 (le_word bs) = 0"
    by (rule bit_word_eqI) (auto simp: bit_simps dest: bit_imp_le_length)
  have "le_word (b # bs) = (ucast b + push_bit 8 (le_word bs) :: 'a word)"
    by (simp add: disj disjunctive_add_eq_or)
  also have "\<dots> = of_nat (le_val (b # bs))"
    by (simp add: Cons push_bit_eq_mult of_nat_unat)
  finally show ?case .
qed simp

lemma unat_le_word:
  assumes "8 * length bs \<le> LENGTH('a)"
  shows "unat (le_word bs :: 'a::len word) = le_val bs"
proof -
  have "(256::nat) ^ length bs = 2 ^ (8 * length bs)" by (simp add: power_mult)
  also have "\<dots> \<le> 2 ^ LENGTH('a)" using assms by (simp add: power_increasing)
  finally have "le_val bs < 2 ^ LENGTH('a)" using le_val_less [of bs] by linarith
  then show ?thesis by (simp add: le_word_eq_of_nat unat_of_nat)
qed

lemma ucast_le_word:
  assumes "8 * length bs \<le> LENGTH('a)"
  shows "ucast (le_word bs :: 'a::len word) = (le_word bs :: 'b::len word)"
  using unat_le_word [OF assms] by (metis le_word_eq_of_nat of_nat_unat)

lemma le_word_append: "le_word (xs @ ys) = le_word xs OR push_bit (8 * length xs) (le_word ys)"
  by (induction xs) (simp_all add: push_bit_or ac_simps)

lemma Uint16_le_word: "length b = 2 \<Longrightarrow> Uint16 b = Some (le_word b)"
  by (auto simp: Uint16_def index_def numeral_eq_Suc length_Suc_conv)

lemma Uint32_le_word: "length b = 4 \<Longrightarrow> Uint32 b = Some (le_word b)"
  by (auto simp: Uint32_def index_def length_Suc_conv eval_nat_numeral push_bit_or ac_simps)

lemma Uint64_le_word: "length b = 8 \<Longrightarrow> Uint64 b = Some (le_word b)"
  by (auto simp: Uint64_def index_def length_Suc_conv eval_nat_numeral push_bit_or ac_simps)

lemma Uint_le_bytes [simp]:
  "Uint16 (le_bytes 2 a) = Some a" "Uint32 (le_bytes 4 b) = Some b"
  "Uint64 (le_bytes 8 c) = Some c"
  by (simp_all add: Uint16_le_word Uint32_le_word Uint64_le_word le_word_le_bytes)

text \<open>Every chunk of the right length is the bytes of a word: how the layouts invert a read.\<close>

lemma le_bytes_surj:
  "length b = 2 \<Longrightarrow> \<exists>v :: u16. b = le_bytes 2 v"
  "length b = 4 \<Longrightarrow> \<exists>v :: u32. b = le_bytes 4 v"
  "length b = 8 \<Longrightarrow> \<exists>v :: u64. b = le_bytes 8 v"
  using le_bytes_le_word [of b, where 'a=16] le_bytes_le_word [of b, where 'a=32]
    le_bytes_le_word [of b, where 'a=64] by auto metis+

end
