(* ===== verification/Layout.thy ===== *)
theory Layout
  imports Go_Prelude
begin

text \<open>
  The interfaces of the binary parsers. \<open>fixed_layout\<close> is the contract of one fixed-width
  record inside a buffer: what the code reads at an offset inverts an encoder, and every
  chunk of the width is the encoding of a record and of the reserved bytes the code skips.
  Inside it, the code's loops over such records are proved to invert the encoding of a
  table. \<open>response_layout\<close> is the contract of a whole response: a length check, a
  validity check, then the body; its lemmas give the round trips and the error branches
  of every parser that keeps it.
\<close>

section \<open>Records at an offset, and tables of them\<close>

text \<open>The encoding of a table: the records in order, each with its reserved bytes.\<close>

fun encode_table :: "('p \<Rightarrow> 'a \<Rightarrow> bytes) \<Rightarrow> 'p list \<Rightarrow> 'a list \<Rightarrow> bytes" where
  "encode_table enc (p # ps) (a # as) = enc p a @ encode_table enc ps as"
| "encode_table enc _ _ = []"

text \<open>A table of \<open>n\<close> well-formed records with well-formed reserved bytes.\<close>

definition table_wf :: "('p \<Rightarrow> bool) \<Rightarrow> ('a \<Rightarrow> bool) \<Rightarrow> nat \<Rightarrow> 'p list \<Rightarrow> 'a list \<Rightarrow> bool" where
  "table_wf pad_ok rec_ok n ps as \<longleftrightarrow>
     length ps = n \<and> length as = n \<and> (\<forall>p \<in> set ps. pad_ok p) \<and> (\<forall>a \<in> set as. rec_ok a)"

locale fixed_layout =
  fixes width :: nat
    and read :: "bytes \<Rightarrow> nat \<Rightarrow> 'a go"
    and enc :: "'p \<Rightarrow> 'a \<Rightarrow> bytes"
    and pad_ok :: "'p \<Rightarrow> bool"
    and rec_ok :: "'a \<Rightarrow> bool"
  assumes enc_length: "pad_ok p \<Longrightarrow> rec_ok a \<Longrightarrow> length (enc p a) = width"
    and enc_surj: "length c = width \<Longrightarrow> \<exists>p a. pad_ok p \<and> rec_ok a \<and> c = enc p a"
    and read_enc: "pad_ok p \<Longrightarrow> rec_ok a \<Longrightarrow> read (pre @ enc p a @ post) (length pre) = Some a"
begin

lemma read_in_bounds:
  assumes "off + width \<le> length data"
  shows "\<exists>p a. pad_ok p \<and> rec_ok a \<and> read data off = Some a \<and>
    data = take off data @ enc p a @ drop (off + width) data"
proof -
  have split: "data = take off data @ take width (drop off data) @ drop (off + width) data"
    by (metis add.commute append_take_drop_id drop_drop)
  moreover have "length (take width (drop off data)) = width" using assms by simp
  ultimately obtain p a where "pad_ok p" "rec_ok a"
    and eq: "data = take off data @ enc p a @ drop (off + width) data"
    using enc_surj by metis
  then have "read (take off data @ enc p a @ drop (off + width) data) (length (take off data)) = Some a"
    by (intro read_enc)
  with \<open>pad_ok p\<close> \<open>rec_ok a\<close> eq assms show ?thesis by (metis add_leD1 length_take min_absorb2)
qed

lemma length_encode_table: "table_wf pad_ok rec_ok n ps as \<Longrightarrow> length (encode_table enc ps as) = n * width"
  unfolding table_wf_def
proof (induction n arbitrary: ps as)
  case (Suc n)
  then obtain p ps' a as' where "ps = p # ps'" "as = a # as'"
    by (metis length_Suc_conv)
  with Suc show ?case by (simp add: enc_length)
qed simp

lemma table_surj:
  "length c = n * width \<Longrightarrow> \<exists>ps as. table_wf pad_ok rec_ok n ps as \<and> c = encode_table enc ps as"
proof (induction n arbitrary: c)
  case (Suc n)
  then have "length c = width + n * width" by simp
  then obtain c1 c2 where c: "c = c1 @ c2" "length c1 = width" "length c2 = n * width"
    using split_length by blast
  from c(2) obtain p a where pa: "pad_ok p" "rec_ok a" "c1 = enc p a" using enc_surj by blast
  from c(3) obtain ps as where "table_wf pad_ok rec_ok n ps as" "c2 = encode_table enc ps as"
    using Suc.IH by blast
  with c pa have "table_wf pad_ok rec_ok (Suc n) (p # ps) (a # as) \<and> c = encode_table enc (p # ps) (a # as)"
    by (simp add: table_wf_def)
  then show ?case by blast
qed (simp add: table_wf_def)

text \<open>The loop \<open>off := base + i*width\<close> over an encoded table gives the table back.\<close>

lemma fill_encode_table:
  assumes "table_wf pad_ok rec_ok n ps as" and "length pre = base"
  shows "fill n (\<lambda>i. read (pre @ encode_table enc ps as @ post) (base + i * width)) = Some as"
  using assms
proof (induction n arbitrary: ps as pre base)
  case (Suc n)
  then obtain p ps' a as' where eq: "ps = p # ps'" "as = a # as'"
    unfolding table_wf_def by (metis length_Suc_conv)
  with Suc.prems have rec_ok: "pad_ok p" "rec_ok a" "table_wf pad_ok rec_ok n ps' as'" by (simp_all add: table_wf_def)
  have first: "read (pre @ encode_table enc ps as @ post) (length pre) = Some a"
    using read_enc [OF rec_ok(1,2), of pre "encode_table enc ps' as' @ post"] eq by simp
  have "fill n (\<lambda>i. read ((pre @ enc p a) @ encode_table enc ps' as' @ post)
          ((base + width) + i * width)) = Some as'"
    by (rule Suc.IH [OF rec_ok(3)]) (simp add: Suc.prems(2) enc_length rec_ok)
  then have rest: "fill n (\<lambda>i. read (pre @ encode_table enc ps as @ post)
          (base + (width + i * width))) = Some as'"
    by (simp add: eq add.assoc)
  show ?case using first rest Suc.prems(2) eq by (simp add: fill_Suc)
qed (simp add: table_wf_def)

end

section \<open>Whole responses\<close>

text \<open>
  \<open>parse\<close> is a parser of the shape of the code's: reject a response that has not exactly
  \<open>size\<close> bytes with \<open>len_err\<close>, reject one that is not \<open>valid\<close> with \<open>val_err\<close>, then
  read the fields (\<open>body\<close>). The body inverts \<open>enc\<close>, which is onto the responses.
\<close>

locale response_layout =
  fixes size :: nat
    and valid :: "bytes \<Rightarrow> bool"
    and body :: "bytes \<Rightarrow> 'a go"
    and parse :: "bytes \<Rightarrow> (go_error + 'a) go"
    and len_err :: "nat \<Rightarrow> go_error"
    and val_err :: go_error
    and enc :: "'p \<Rightarrow> 'a \<Rightarrow> bytes"
    and pad_ok :: "'p \<Rightarrow> bool"
    and rec_ok :: "'a \<Rightarrow> bool"
  assumes parse_eq: "parse data =
      (if length data \<noteq> size then Some (Inl (len_err (length data)))
       else if \<not> valid data then Some (Inl val_err)
       else do { a \<leftarrow> body data; Some (Inr a) })"
    and enc_length: "pad_ok p \<Longrightarrow> rec_ok a \<Longrightarrow> length (enc p a) = size"
    and enc_surj: "length c = size \<Longrightarrow> \<exists>p a. pad_ok p \<and> rec_ok a \<and> c = enc p a"
    and body_enc: "pad_ok p \<Longrightarrow> rec_ok a \<Longrightarrow> body (enc p a) = Some a"
begin

lemma body_total:
  "length data = size \<Longrightarrow> \<exists>p a. pad_ok p \<and> rec_ok a \<and> data = enc p a \<and> body data = Some a"
  using enc_surj body_enc by blast

lemma parse_total: "parse data \<noteq> None"
  using body_total [of data] by (auto simp: parse_eq)

lemma parse_cases:
  "(length data \<noteq> size \<and> parse data = Some (Inl (len_err (length data)))) \<or>
   (length data = size \<and> \<not> valid data \<and> parse data = Some (Inl val_err)) \<or>
   (length data = size \<and> valid data \<and> (\<exists>a. rec_ok a \<and> parse data = Some (Inr a)))"
  using body_total [of data] by (auto simp: parse_eq)

lemma parse_ok_iff:
  "parse data = Some (Inr a) \<longleftrightarrow> rec_ok a \<and> valid data \<and> (\<exists>p. pad_ok p \<and> data = enc p a)"
proof
  assume ok: "parse data = Some (Inr a)"
  then have "length data = size" "valid data" "body data = Some a"
    by (auto simp: parse_eq split: if_splits bind_splits)
  with body_total show "rec_ok a \<and> valid data \<and> (\<exists>p. pad_ok p \<and> data = enc p a)" by fastforce
next
  assume "rec_ok a \<and> valid data \<and> (\<exists>p. pad_ok p \<and> data = enc p a)"
  then show "parse data = Some (Inr a)" by (auto simp: parse_eq enc_length body_enc)
qed

lemma parse_error_iff:
  "(\<exists>e. parse data = Some (Inl e)) \<longleftrightarrow> length data \<noteq> size \<or> \<not> valid data"
  using parse_cases [of data] by auto

end

end
