(* ===== verification/Ata_Smart.thy ===== *)
theory Ata_Smart
  imports Layout
begin

text \<open>
  \<open>internal/ata/smart.go\<close> (and the constants of \<open>ata.go\<close>): the SMART READ DATA,
  READ THRESHOLDS and READ LOG responses as records, their parsers, and the layouts they
  invert. The encoders at the end of each section are the specification of a response; the
  bytes no field covers are their first argument.
\<close>

section \<open>Constants, checksum and 16-bit reads\<close>

definition NumAttributes :: nat where
  "NumAttributes = 30"

definition SmartReadLogAddrError :: u8 where
  "SmartReadLogAddrError = 0x01"

definition SmartReadLogAddrSelfTest :: u8 where
  "SmartReadLogAddrSelfTest = 0x06"

definition SmartReadLogAddrSelective :: u8 where
  "SmartReadLogAddrSelective = 0x09"

definition AttrFlagPrefailure :: u16 where
  "AttrFlagPrefailure = 0x0001"

definition AttrFlagOnline :: u16 where
  "AttrFlagOnline = 0x0002"

definition le16 :: "bytes \<Rightarrow> nat \<Rightarrow> u16 go" where
  "le16 data off = do { b \<leftarrow> slice data off (off + 2); Uint16 b }"

definition validateChecksum :: "bytes \<Rightarrow> bool" where
  "validateChecksum data \<longleftrightarrow> fold (\<lambda>b sum. sum + b) data 0 = 0"

lemma fold_sum: "fold (\<lambda>b sum. sum + b) data s = s + sum_list (data :: 'a::comm_monoid_add list)"
  by (induction data arbitrary: s) (auto simp: ac_simps)

lemma validateChecksum_iff: "validateChecksum data \<longleftrightarrow> sum_list data = 0"
  by (simp add: validateChecksum_def fold_sum)

section \<open>One attribute entry\<close>

record Attribute =
  attr_ID :: u8
  attr_Flags :: u16
  attr_Current :: u8
  attr_Worst :: u8
  attr_Raw :: bytes

definition RawValue48 :: "Attribute \<Rightarrow> u64 go" where
  "RawValue48 a = do {
     r0 \<leftarrow> index (attr_Raw a) 0; r1 \<leftarrow> index (attr_Raw a) 1; r2 \<leftarrow> index (attr_Raw a) 2;
     r3 \<leftarrow> index (attr_Raw a) 3; r4 \<leftarrow> index (attr_Raw a) 4; r5 \<leftarrow> index (attr_Raw a) 5;
     Some (ucast r0 OR push_bit 8 (ucast r1) OR push_bit 16 (ucast r2) OR push_bit 24 (ucast r3)
       OR push_bit 32 (ucast r4) OR push_bit 40 (ucast r5)) }"

definition IsPrefailure :: "Attribute \<Rightarrow> bool" where
  "IsPrefailure a \<longleftrightarrow> attr_Flags a AND AttrFlagPrefailure \<noteq> 0"

definition IsOnline :: "Attribute \<Rightarrow> bool" where
  "IsOnline a \<longleftrightarrow> attr_Flags a AND AttrFlagOnline \<noteq> 0"

text \<open>The body of the loop of \<open>ParseSmartValues\<close>; \<open>Raw\<close> is a fresh array of six zeros.\<close>

definition read_attribute :: "bytes \<Rightarrow> nat \<Rightarrow> Attribute go" where
  "read_attribute data off = do {
     i \<leftarrow> index data off;
     flags \<leftarrow> le16 data (off + 1);
     cur \<leftarrow> index data (off + 3);
     wor \<leftarrow> index data (off + 4);
     raw \<leftarrow> slice data (off + 5) (off + 11);
     Some \<lparr>attr_ID = i, attr_Flags = flags, attr_Current = cur, attr_Worst = wor,
           attr_Raw = copy_bytes (make_bytes 6) raw\<rparr> }"

definition attribute_wf :: "Attribute \<Rightarrow> bool" where
  "attribute_wf a \<longleftrightarrow> length (attr_Raw a) = 6"

definition attribute_bytes :: "u8 \<Rightarrow> Attribute \<Rightarrow> bytes" where
  "attribute_bytes r a =
     [attr_ID a] @ le_bytes 2 (attr_Flags a) @ [attr_Current a, attr_Worst a] @ attr_Raw a @ [r]"

lemma read_attribute_bytes:
  assumes "attribute_wf a"
  shows "read_attribute (pre @ attribute_bytes r a @ post) (length pre) = Some a"
  using assms
  by (simp add: read_attribute_def attribute_bytes_def attribute_wf_def le16_def at_simps
      copy_bytes_full make_bytes_def)

lemma attribute_surj:
  assumes "length c = 12"
  shows "\<exists>r a. attribute_wf a \<and> c = attribute_bytes r a"
proof -
  obtain i f v raw r where c: "c = i @ f @ v @ raw @ r"
    and len: "length i = 1" "length f = 2" "length v = 2" "length raw = 6" "length r = 1"
    using split_lengths [of c "[1, 2, 2, 6, 1]"] assms by (auto simp: map_eq_Cons_conv)
  obtain fl where "f = le_bytes 2 (fl :: u16)" using len(2) le_bytes_surj(1) by blast
  moreover obtain i0 v0 v1 r0 where "i = [i0]" "v = [v0, v1]" "r = [r0]"
    using len by (auto simp: numeral_eq_Suc length_Suc_conv)
  ultimately have "c = attribute_bytes r0 \<lparr>attr_ID = i0, attr_Flags = fl, attr_Current = v0,
      attr_Worst = v1, attr_Raw = raw\<rparr>"
    by (simp add: c attribute_bytes_def)
  then show ?thesis using len(4) by (force simp: attribute_wf_def)
qed

interpretation attr: fixed_layout 12 read_attribute attribute_bytes "\<lambda>_. True" attribute_wf
proof unfold_locales
  show "\<exists>p a. True \<and> attribute_wf a \<and> c = attribute_bytes p a" if "length c = 12" for c
    using attribute_surj [OF that] by simp
  show "read_attribute (pre @ attribute_bytes p a @ post) (length pre) = Some a"
    if "attribute_wf a" for pre p a post
    using that by (rule read_attribute_bytes)
qed (auto simp: attribute_bytes_def attribute_wf_def)

section \<open>SMART READ DATA\<close>

record SmartValues =
  sv_RevNumber :: u16
  sv_Attributes :: "Attribute list"
  sv_OfflineDataCollectionStatus :: u8
  sv_SelfTestExecStatus :: u8
  sv_TotalTimeOfflineSeconds :: u16
  sv_OfflineDataCollectionCap :: u8
  sv_SmartCapability :: u16
  sv_ErrorlogCapability :: u8
  sv_ShortTestCompletionTime :: u8
  sv_ExtendTestCompletionTimeB :: u8
  sv_ConveyanceTestCompletionTime :: u8
  sv_ExtendTestCompletionTimeW :: u16

definition smart_values_body :: "bytes \<Rightarrow> SmartValues go" where
  "smart_values_body data = do {
     rev \<leftarrow> le16 data 0;
     attrs \<leftarrow> fill NumAttributes (\<lambda>i. read_attribute data (2 + i * 12));
     off_status \<leftarrow> index data 362;
     self_test \<leftarrow> index data 363;
     total \<leftarrow> le16 data 364;
     off_cap \<leftarrow> index data 367;
     smart_cap \<leftarrow> le16 data 368;
     el_cap \<leftarrow> index data 370;
     short \<leftarrow> index data 372;
     ext_b \<leftarrow> index data 373;
     conv \<leftarrow> index data 374;
     ext_w \<leftarrow> le16 data 375;
     Some \<lparr>sv_RevNumber = rev, sv_Attributes = attrs,
           sv_OfflineDataCollectionStatus = off_status, sv_SelfTestExecStatus = self_test,
           sv_TotalTimeOfflineSeconds = total, sv_OfflineDataCollectionCap = off_cap,
           sv_SmartCapability = smart_cap, sv_ErrorlogCapability = el_cap,
           sv_ShortTestCompletionTime = short, sv_ExtendTestCompletionTimeB = ext_b,
           sv_ConveyanceTestCompletionTime = conv, sv_ExtendTestCompletionTimeW = ext_w\<rparr> }"

definition ParseSmartValues :: "bytes \<Rightarrow> (go_error + SmartValues) go" where
  "ParseSmartValues data =
     (if length data \<noteq> 512 then Some (Inl (WrongLength ''smart values'' 512 (length data)))
      else if \<not> validateChecksum data then Some (Inl (ChecksumError ''smart values''))
      else do { sv \<leftarrow> smart_values_body data; Some (Inr sv) })"

text \<open>
  The response: \<open>ps\<close> holds the reserved byte of each attribute, \<open>r1\<close> and \<open>r2\<close> are bytes
  366 and 371, and \<open>tail\<close> is everything from byte 377 on, the checksum included.
\<close>

definition smart_values_wf :: "SmartValues \<Rightarrow> bool" where
  "smart_values_wf sv \<longleftrightarrow>
     length (sv_Attributes sv) = NumAttributes \<and> (\<forall>a \<in> set (sv_Attributes sv). attribute_wf a)"

fun smart_values_bytes :: "bytes \<times> u8 \<times> u8 \<times> bytes \<Rightarrow> SmartValues \<Rightarrow> bytes" where
  "smart_values_bytes (ps, r1, r2, tail) sv =
     le_bytes 2 (sv_RevNumber sv) @ encode_table attribute_bytes ps (sv_Attributes sv) @
     [sv_OfflineDataCollectionStatus sv, sv_SelfTestExecStatus sv] @
     le_bytes 2 (sv_TotalTimeOfflineSeconds sv) @ [r1, sv_OfflineDataCollectionCap sv] @
     le_bytes 2 (sv_SmartCapability sv) @
     [sv_ErrorlogCapability sv, r2, sv_ShortTestCompletionTime sv,
      sv_ExtendTestCompletionTimeB sv, sv_ConveyanceTestCompletionTime sv] @
     le_bytes 2 (sv_ExtendTestCompletionTimeW sv) @ tail"

fun smart_values_pads :: "bytes \<times> u8 \<times> u8 \<times> bytes \<Rightarrow> bool" where
  "smart_values_pads (ps, r1, r2, tail) \<longleftrightarrow> length ps = NumAttributes \<and> length tail = 135"

declare smart_values_bytes.simps [simp del, layout_defs]

lemma attributes_table:
  "smart_values_wf sv \<Longrightarrow> length ps = NumAttributes \<Longrightarrow>
     table_wf (\<lambda>_. True) attribute_wf 30 ps (sv_Attributes sv)"
  by (simp add: table_wf_def smart_values_wf_def NumAttributes_def)

lemma smart_values_body_bytes:
  assumes "smart_values_pads p" and "smart_values_wf sv"
  shows "smart_values_body (smart_values_bytes p sv) = Some sv"
proof -
  obtain ps r1 r2 tail where p: "p = (ps, r1, r2, tail)" by (cases p) auto
  have tab: "table_wf (\<lambda>_. True) attribute_wf 30 ps (sv_Attributes sv)"
    using assms p by (simp add: attributes_table)
  have "length (encode_table attribute_bytes ps (sv_Attributes sv)) = 360"
    using attr.length_encode_table [OF tab] by simp
  moreover note attr.fill_encode_table [OF tab, of "le_bytes 2 (sv_RevNumber sv)" 2]
  ultimately show ?thesis
    by (simp add: p layout_defs smart_values_body_def NumAttributes_def le16_def at_simps)
qed

lemma smart_values_surj:
  assumes "length c = 512"
  shows "\<exists>p sv. smart_values_pads p \<and> smart_values_wf sv \<and> c = smart_values_bytes p sv"
proof -
  obtain rv t st tt rc sc v w tail where c: "c = rv @ t @ st @ tt @ rc @ sc @ v @ w @ tail"
    and len: "length rv = 2" "length t = 30 * 12" "length st = 2" "length tt = 2"
      "length rc = 2" "length sc = 2" "length v = 5" "length w = 2" "length tail = 135"
    using split_lengths [of c "[2, 360, 2, 2, 2, 2, 5, 2, 135]"] assms
    by (auto simp: map_eq_Cons_conv)
  obtain ps as where tab: "table_wf (\<lambda>_. True) attribute_wf 30 ps as"
    and t: "t = encode_table attribute_bytes ps as"
    using attr.table_surj [OF len(2)] by blast
  obtain a b d e where w: "rv = le_bytes 2 (a :: u16)" "tt = le_bytes 2 (b :: u16)"
    "sc = le_bytes 2 (d :: u16)" "w = le_bytes 2 (e :: u16)"
    using le_bytes_surj(1) len by meson
  obtain s0 s1 r1 oc v0 r2 v1 v2 v3 where v: "st = [s0, s1]" "rc = [r1, oc]"
    "v = [v0, r2, v1, v2, v3]"
    using len(3,5,7) by (auto simp: numeral_eq_Suc length_Suc_conv)
  let ?sv = "\<lparr>sv_RevNumber = a, sv_Attributes = as, sv_OfflineDataCollectionStatus = s0,
    sv_SelfTestExecStatus = s1, sv_TotalTimeOfflineSeconds = b, sv_OfflineDataCollectionCap = oc,
    sv_SmartCapability = d, sv_ErrorlogCapability = v0, sv_ShortTestCompletionTime = v1,
    sv_ExtendTestCompletionTimeB = v2, sv_ConveyanceTestCompletionTime = v3,
    sv_ExtendTestCompletionTimeW = e\<rparr>"
  have "c = smart_values_bytes (ps, r1, r2, tail) ?sv" by (simp add: c t w v layout_defs)
  moreover have "smart_values_pads (ps, r1, r2, tail)" "smart_values_wf ?sv"
    using tab len by (simp_all add: table_wf_def smart_values_wf_def NumAttributes_def)
  ultimately show ?thesis by blast
qed

lemma length_smart_values_bytes:
  "smart_values_pads p \<Longrightarrow> smart_values_wf sv \<Longrightarrow> length (smart_values_bytes p sv) = 512"
  using attr.length_encode_table [OF attributes_table] by (cases p) (simp add: layout_defs)

interpretation smart_values: response_layout 512 validateChecksum smart_values_body
  ParseSmartValues "WrongLength ''smart values'' 512" "ChecksumError ''smart values''"
  smart_values_bytes smart_values_pads smart_values_wf
  by unfold_locales
    (fact ParseSmartValues_def length_smart_values_bytes smart_values_surj smart_values_body_bytes)+

section \<open>SMART READ THRESHOLDS\<close>

record SmartThresholds =
  st_RevNumber :: u16
  st_Thresholds :: "u8 list"

definition read_threshold :: "bytes \<Rightarrow> nat \<Rightarrow> u8 go" where
  "read_threshold data off = index data (off + 1)"

definition smart_thresholds_body :: "bytes \<Rightarrow> SmartThresholds go" where
  "smart_thresholds_body data = do {
     rev \<leftarrow> le16 data 0;
     ts \<leftarrow> fill NumAttributes (\<lambda>i. read_threshold data (2 + i * 12));
     Some \<lparr>st_RevNumber = rev, st_Thresholds = ts\<rparr> }"

definition ParseSmartThresholds :: "bytes \<Rightarrow> (go_error + SmartThresholds) go" where
  "ParseSmartThresholds data =
     (if length data \<noteq> 512 then Some (Inl (WrongLength ''smart thresholds'' 512 (length data)))
      else if \<not> validateChecksum data then Some (Inl (ChecksumError ''smart thresholds''))
      else do { st \<leftarrow> smart_thresholds_body data; Some (Inr st) })"

text \<open>An entry is the attribute's ID, its threshold, and ten bytes the code skips.\<close>

fun threshold_bytes :: "u8 \<times> bytes \<Rightarrow> u8 \<Rightarrow> bytes" where
  "threshold_bytes (i, r) t = [i, t] @ r"

fun threshold_pads :: "u8 \<times> bytes \<Rightarrow> bool" where
  "threshold_pads (i, r) \<longleftrightarrow> length r = 10"

interpretation thr: fixed_layout 12 read_threshold threshold_bytes threshold_pads "\<lambda>_. True"
proof unfold_locales
  fix c :: bytes assume "length c = 12"
  then obtain x r where "c = x @ r" "length x = 2" "length r = 10"
    using split_lengths [of c "[2, 10]"] by (auto simp: map_eq_Cons_conv)
  moreover then obtain i t where "x = [i, t]" by (auto simp: numeral_eq_Suc length_Suc_conv)
  ultimately have "threshold_pads (i, r) \<and> True \<and> c = threshold_bytes (i, r) t" by simp
  then show "\<exists>p a. threshold_pads p \<and> True \<and> c = threshold_bytes p a" by blast
qed (auto simp: read_threshold_def at_simps)

definition smart_thresholds_wf :: "SmartThresholds \<Rightarrow> bool" where
  "smart_thresholds_wf st \<longleftrightarrow> length (st_Thresholds st) = NumAttributes"

fun smart_thresholds_bytes :: "(u8 \<times> bytes) list \<times> bytes \<Rightarrow> SmartThresholds \<Rightarrow> bytes" where
  "smart_thresholds_bytes (ps, tail) st =
     le_bytes 2 (st_RevNumber st) @ encode_table threshold_bytes ps (st_Thresholds st) @ tail"

fun smart_thresholds_pads :: "(u8 \<times> bytes) list \<times> bytes \<Rightarrow> bool" where
  "smart_thresholds_pads (ps, tail) \<longleftrightarrow>
     length ps = NumAttributes \<and> (\<forall>p \<in> set ps. threshold_pads p) \<and> length tail = 150"

declare smart_thresholds_bytes.simps [simp del, layout_defs]

lemma thresholds_table:
  "smart_thresholds_pads (ps, tail) \<Longrightarrow> smart_thresholds_wf st \<Longrightarrow>
     table_wf threshold_pads (\<lambda>_. True) 30 ps (st_Thresholds st)"
  by (simp add: table_wf_def smart_thresholds_wf_def NumAttributes_def)

lemma length_smart_thresholds_bytes:
  "smart_thresholds_pads p \<Longrightarrow> smart_thresholds_wf st \<Longrightarrow> length (smart_thresholds_bytes p st) = 512"
  using thr.length_encode_table [OF thresholds_table] by (cases p) (simp add: layout_defs)

lemma smart_thresholds_body_bytes:
  assumes "smart_thresholds_pads p" and "smart_thresholds_wf st"
  shows "smart_thresholds_body (smart_thresholds_bytes p st) = Some st"
proof -
  obtain ps tail where p: "p = (ps, tail)" by (cases p)
  have tab: "table_wf threshold_pads (\<lambda>_. True) 30 ps (st_Thresholds st)"
    using assms p by (auto intro: thresholds_table)
  show ?thesis
    using thr.fill_encode_table [OF tab, of "le_bytes 2 (st_RevNumber st)" 2]
    by (simp add: p layout_defs smart_thresholds_body_def NumAttributes_def le16_def at_simps)
qed

lemma smart_thresholds_surj:
  assumes "length c = 512"
  shows "\<exists>p st. smart_thresholds_pads p \<and> smart_thresholds_wf st \<and> c = smart_thresholds_bytes p st"
proof -
  obtain rv t tail where c: "c = rv @ t @ tail"
    and len: "length rv = 2" "length t = 30 * 12" "length tail = 150"
    using split_lengths [of c "[2, 360, 150]"] assms by (auto simp: map_eq_Cons_conv)
  obtain ps ts where tab: "table_wf threshold_pads (\<lambda>_. True) 30 ps ts"
    and t: "t = encode_table threshold_bytes ps ts"
    using thr.table_surj [OF len(2)] by blast
  obtain a where a: "rv = le_bytes 2 (a :: u16)" using le_bytes_surj(1) len(1) by blast
  let ?st = "\<lparr>st_RevNumber = a, st_Thresholds = ts\<rparr>"
  have "c = smart_thresholds_bytes (ps, tail) ?st" by (simp add: c t a layout_defs)
  moreover have "smart_thresholds_pads (ps, tail)" "smart_thresholds_wf ?st"
    using tab len by (simp_all add: table_wf_def smart_thresholds_wf_def NumAttributes_def)
  ultimately show ?thesis by blast
qed

interpretation smart_thresholds: response_layout 512 validateChecksum smart_thresholds_body
  ParseSmartThresholds "WrongLength ''smart thresholds'' 512" "ChecksumError ''smart thresholds''"
  smart_thresholds_bytes smart_thresholds_pads smart_thresholds_wf
  by unfold_locales
    (fact ParseSmartThresholds_def length_smart_thresholds_bytes smart_thresholds_surj
      smart_thresholds_body_bytes)+

section \<open>Reading a response byte by byte\<close>

lemma smart_values_attribute_at:
  assumes "ParseSmartValues data = Some (Inr sv)" and "i < NumAttributes"
  shows "read_attribute data (2 + i * 12) = Some (sv_Attributes sv ! i)"
proof -
  have "fill NumAttributes (\<lambda>i. read_attribute data (2 + i * 12)) = Some (sv_Attributes sv)"
    using assms(1)
    by (auto simp: ParseSmartValues_def smart_values_body_def split: if_splits bind_splits)
  then show ?thesis using fill_nth assms(2) by blast
qed

lemma read_attribute_raw:
  "read_attribute data off = Some a \<Longrightarrow> attr_Raw a = take 6 (drop (off + 5) data)"
  by (auto simp: read_attribute_def slice_def copy_bytes_def make_bytes_def split: bind_splits if_splits)

lemma RawValue48_eq: "attribute_wf a \<Longrightarrow> RawValue48 a = Some (le_word (attr_Raw a))"
  unfolding attribute_wf_def RawValue48_def
  by (auto simp: numeral_eq_Suc length_Suc_conv index_def push_bit_or ac_simps)

lemma unat_RawValue48:
  "attribute_wf a \<Longrightarrow> map_option unat (RawValue48 a) = Some (le_val (attr_Raw a))"
  by (simp add: RawValue48_eq attribute_wf_def unat_le_word)

lemma validateChecksum_update:
  assumes "i < length data"
  shows "validateChecksum (data[i := b]) \<longleftrightarrow> sum_list data - data ! i + b = 0"
proof -
  have "sum_list data = sum_list (take i data @ [data ! i] @ drop (Suc i) data)"
    using assms by (simp add: id_take_nth_drop [symmetric])
  moreover have "sum_list (data[i := b]) = sum_list (take i data @ [b] @ drop (Suc i) data)"
    using assms by (simp add: upd_conv_take_nth_drop)
  ultimately show ?thesis by (simp add: validateChecksum_iff algebra_simps)
qed

section \<open>Properties\<close>

text \<open>
  C16. \<open>ParseSmartValues\<close> accepts exactly the 512-byte responses whose bytes sum to zero, and
  what it returns is the record those bytes encode: parsing inverts the layout and loses
  only the reserved bytes.
\<close>

theorem ParseSmartValues_codec:
  "ParseSmartValues data = Some (Inr sv) \<longleftrightarrow>
     smart_values_wf sv \<and> validateChecksum data \<and>
     (\<exists>p. smart_values_pads p \<and> data = smart_values_bytes p sv)"
  by (rule smart_values.parse_ok_iff)

text \<open>
  Every call of \<open>ParseSmartValues\<close> returns (no index is out of range), and it returns an
  error in two cases only: the length error for a wrong length, the checksum error for a
  512-byte response whose bytes do not sum to zero modulo 256.
\<close>

lemma ParseSmartValues_errors:
  "ParseSmartValues data \<noteq> None \<and>
   (ParseSmartValues data = Some (Inl e) \<longleftrightarrow>
      length data \<noteq> 512 \<and> e = WrongLength ''smart values'' 512 (length data) \<or>
      length data = 512 \<and> sum_list data \<noteq> 0 \<and> e = ChecksumError ''smart values'')"
  using smart_values.parse_cases [of data] by (auto simp: validateChecksum_iff)

text \<open>
  C17. The checksum detects any change of a single byte: altering one byte of an accepted
  response makes \<open>ParseSmartValues\<close> report a checksum error.
\<close>

theorem ParseSmartValues_detects_corruption:
  assumes "ParseSmartValues data = Some (Inr sv)" and "i < 512" and "b \<noteq> data ! i"
  shows "ParseSmartValues (data[i := b]) = Some (Inl (ChecksumError ''smart values''))"
proof -
  have len: "length data = 512" and sum: "sum_list data = 0"
    using assms(1)
    by (auto simp: ParseSmartValues_def validateChecksum_iff split: if_splits)
  have "\<not> validateChecksum (data[i := b])"
    using validateChecksum_update [of i data b] assms(2,3) len sum by simp
  then show ?thesis using len by (simp add: ParseSmartValues_def)
qed

lemma zero_response_ok: "\<exists>sv. ParseSmartValues (replicate 512 0) = Some (Inr sv)"
  using smart_values.parse_cases [of "replicate 512 0"]
  by (auto simp: validateChecksum_iff sum_list_replicate)

theorem ParseSmartValues_detects_corruption_witness:
  "ParseSmartValues ((replicate 512 0)[5 := 1]) = Some (Inl (ChecksumError ''smart values''))"
proof -
  obtain sv where "ParseSmartValues (replicate 512 0) = Some (Inr sv)"
    using zero_response_ok by blast
  then show ?thesis by (rule ParseSmartValues_detects_corruption) simp_all
qed

text \<open>
  C18. The raw value printed for attribute \<open>i\<close> of an accepted response is the 48-bit
  little-endian number in bytes \<open>2 + 12 i + 5\<close> to \<open>2 + 12 i + 10\<close> of the response, without
  loss: \<open>RawValue48\<close> never panics and stays below \<open>2^48\<close>.
\<close>

theorem RawValue48_of_response:
  assumes "ParseSmartValues data = Some (Inr sv)" and "i < NumAttributes"
  shows "map_option unat (RawValue48 (sv_Attributes sv ! i)) =
      Some (le_val (take 6 (drop (2 + i * 12 + 5) data))) \<and>
    le_val (take 6 (drop (2 + i * 12 + 5) data)) < 2 ^ 48"
proof -
  have "smart_values_wf sv" using assms(1) by (simp add: smart_values.parse_ok_iff)
  then have wf: "attribute_wf (sv_Attributes sv ! i)"
    using assms(2) by (simp add: smart_values_wf_def)
  have raw: "attr_Raw (sv_Attributes sv ! i) = take 6 (drop (2 + i * 12 + 5) data)"
    by (rule read_attribute_raw [OF smart_values_attribute_at [OF assms]])
  have "le_val (attr_Raw (sv_Attributes sv ! i)) < 256 ^ 6"
    using le_val_less [of "attr_Raw (sv_Attributes sv ! i)"] wf by (simp add: attribute_wf_def)
  then show ?thesis using unat_RawValue48 [OF wf] raw by simp
qed

theorem RawValue48_of_response_witness:
  "\<exists>sv. ParseSmartValues (replicate 512 0) = Some (Inr sv) \<and>
     map_option unat (RawValue48 (sv_Attributes sv ! 0)) = Some 0"
proof -
  obtain sv where sv: "ParseSmartValues (replicate 512 0) = Some (Inr sv)"
    using zero_response_ok by blast
  have "le_val (replicate n 0) = 0" for n by (induction n) simp_all
  with RawValue48_of_response [OF sv, of 0] have
    "map_option unat (RawValue48 (sv_Attributes sv ! 0)) = Some 0"
    by (simp add: NumAttributes_def)
  with sv show ?thesis by blast
qed

text \<open>
  \<open>ParseSmartThresholds\<close> accepts exactly the 512-byte responses whose bytes sum to zero,
  and inverts the layout of the threshold table.
\<close>

lemma ParseSmartThresholds_codec:
  "(ParseSmartThresholds data = Some (Inr st) \<longleftrightarrow>
     smart_thresholds_wf st \<and> validateChecksum data \<and>
     (\<exists>p. smart_thresholds_pads p \<and> data = smart_thresholds_bytes p st)) \<and>
   ParseSmartThresholds data \<noteq> None"
  using smart_thresholds.parse_ok_iff smart_thresholds.parse_total by blast

end
