(* ===== verification/Ata_Logs.thy ===== *)
theory Ata_Logs
  imports Ata_Smart
begin

text \<open>
  The log sectors of \<open>internal/ata/smart.go\<close>: the summary error log, the self-test log and
  the selective self-test log, their parsers and layouts. An error-log entry is a table of
  five commands followed by an error record, so its layout is built from two smaller ones.
\<close>

section \<open>Error log entries\<close>

record ErrorCommand =
  cmd_DeviceControlReg :: u8
  cmd_FeaturesReg :: u8
  cmd_SectorCount :: u8
  cmd_SectorNumber :: u8
  cmd_CylinderLow :: u8
  cmd_CylinderHigh :: u8
  cmd_DriveHead :: u8
  cmd_CommandReg :: u8
  cmd_TimestampMs :: u32

definition read_error_command :: "bytes \<Rightarrow> nat \<Rightarrow> ErrorCommand go" where
  "read_error_command data cOff = do {
     dcr \<leftarrow> index data (cOff + 0);
     fr \<leftarrow> index data (cOff + 1);
     sc \<leftarrow> index data (cOff + 2);
     sn \<leftarrow> index data (cOff + 3);
     cl \<leftarrow> index data (cOff + 4);
     ch \<leftarrow> index data (cOff + 5);
     dh \<leftarrow> index data (cOff + 6);
     cr \<leftarrow> index data (cOff + 7);
     ts \<leftarrow> slice data (cOff + 8) (cOff + 12);
     ms \<leftarrow> Uint32 ts;
     Some \<lparr>cmd_DeviceControlReg = dcr, cmd_FeaturesReg = fr, cmd_SectorCount = sc,
           cmd_SectorNumber = sn, cmd_CylinderLow = cl, cmd_CylinderHigh = ch,
           cmd_DriveHead = dh, cmd_CommandReg = cr, cmd_TimestampMs = ms\<rparr> }"

definition error_command_bytes :: "unit \<Rightarrow> ErrorCommand \<Rightarrow> bytes" where
  "error_command_bytes u c =
     [cmd_DeviceControlReg c, cmd_FeaturesReg c, cmd_SectorCount c, cmd_SectorNumber c,
      cmd_CylinderLow c, cmd_CylinderHigh c, cmd_DriveHead c, cmd_CommandReg c] @
     le_bytes 4 (cmd_TimestampMs c)"

interpretation cmd: fixed_layout 12 read_error_command error_command_bytes "\<lambda>_. True" "\<lambda>_. True"
proof unfold_locales
  fix c :: bytes assume "length c = 12"
  then obtain x t where c: "c = x @ t" and len: "length x = 8" "length t = 4"
    using split_lengths [of c "[8, 4]"] by (auto simp: map_eq_Cons_conv)
  obtain a b d e f g h i where "x = [a, b, d, e, f, g, h, i]"
    using len(1) by (auto simp: numeral_eq_Suc length_Suc_conv)
  moreover obtain ms where "t = le_bytes 4 (ms :: u32)" using le_bytes_surj(2) len(2) by blast
  ultimately have "c = error_command_bytes () \<lparr>cmd_DeviceControlReg = a, cmd_FeaturesReg = b,
      cmd_SectorCount = d, cmd_SectorNumber = e, cmd_CylinderLow = f, cmd_CylinderHigh = g,
      cmd_DriveHead = h, cmd_CommandReg = i, cmd_TimestampMs = ms\<rparr>"
    by (simp add: c error_command_bytes_def)
  then show "\<exists>p a. True \<and> True \<and> c = error_command_bytes p a" by blast
qed (simp_all add: read_error_command_def error_command_bytes_def at_simps)

record ErrorRecord =
  er_ErrorReg :: u8
  er_SectorCount :: u8
  er_SectorNumber :: u8
  er_CylinderLow :: u8
  er_CylinderHigh :: u8
  er_DriveHead :: u8
  er_Status :: u8
  er_ExtendedError :: bytes
  er_State :: u8
  er_TimestampMin :: u16

definition read_error_record :: "bytes \<Rightarrow> nat \<Rightarrow> ErrorRecord go" where
  "read_error_record data eOff = do {
     ereg \<leftarrow> index data (eOff + 1);
     sc \<leftarrow> index data (eOff + 2);
     sn \<leftarrow> index data (eOff + 3);
     cl \<leftarrow> index data (eOff + 4);
     ch \<leftarrow> index data (eOff + 5);
     dh \<leftarrow> index data (eOff + 6);
     status \<leftarrow> index data (eOff + 7);
     ext \<leftarrow> slice data (eOff + 8) (eOff + 27);
     state \<leftarrow> index data (eOff + 27);
     ts \<leftarrow> le16 data (eOff + 28);
     Some \<lparr>er_ErrorReg = ereg, er_SectorCount = sc, er_SectorNumber = sn, er_CylinderLow = cl,
           er_CylinderHigh = ch, er_DriveHead = dh, er_Status = status,
           er_ExtendedError = copy_bytes (make_bytes 19) ext, er_State = state,
           er_TimestampMin = ts\<rparr> }"

definition error_record_wf :: "ErrorRecord \<Rightarrow> bool" where
  "error_record_wf e \<longleftrightarrow> length (er_ExtendedError e) = 19"

definition error_record_bytes :: "u8 \<Rightarrow> ErrorRecord \<Rightarrow> bytes" where
  "error_record_bytes r e =
     [r, er_ErrorReg e, er_SectorCount e, er_SectorNumber e, er_CylinderLow e,
      er_CylinderHigh e, er_DriveHead e, er_Status e] @ er_ExtendedError e @
     [er_State e] @ le_bytes 2 (er_TimestampMin e)"

interpretation erec: fixed_layout 30 read_error_record error_record_bytes "\<lambda>_. True" error_record_wf
proof unfold_locales
  fix c :: bytes assume "length c = 30"
  then obtain x ext s t where c: "c = x @ ext @ s @ t"
    and len: "length x = 8" "length ext = 19" "length s = 1" "length t = 2"
    using split_lengths [of c "[8, 19, 1, 2]"] by (auto simp: map_eq_Cons_conv)
  obtain r a b d e f g h st where "x = [r, a, b, d, e, f, g, h]" "s = [st]"
    using len(1,3) by (auto simp: numeral_eq_Suc length_Suc_conv)
  moreover obtain ts where "t = le_bytes 2 (ts :: u16)" using le_bytes_surj(1) len(4) by blast
  ultimately have "error_record_wf \<lparr>er_ErrorReg = a, er_SectorCount = b, er_SectorNumber = d,
      er_CylinderLow = e, er_CylinderHigh = f, er_DriveHead = g, er_Status = h,
      er_ExtendedError = ext, er_State = st, er_TimestampMin = ts\<rparr> \<and>
    c = error_record_bytes r \<lparr>er_ErrorReg = a, er_SectorCount = b, er_SectorNumber = d,
      er_CylinderLow = e, er_CylinderHigh = f, er_DriveHead = g, er_Status = h,
      er_ExtendedError = ext, er_State = st, er_TimestampMin = ts\<rparr>"
    by (simp add: c len error_record_bytes_def error_record_wf_def)
  then show "\<exists>p a. True \<and> error_record_wf a \<and> c = error_record_bytes p a" by blast
qed (simp_all add: read_error_record_def error_record_bytes_def error_record_wf_def le16_def
    at_simps copy_bytes_full make_bytes_def)

record ErrorLogEntry =
  ee_Commands :: "ErrorCommand list"
  ee_Error :: ErrorRecord

text \<open>The body of the loop of \<open>ParseSmartErrorLog\<close>.\<close>

definition read_error_entry :: "bytes \<Rightarrow> nat \<Rightarrow> ErrorLogEntry go" where
  "read_error_entry data off = do {
     cmds \<leftarrow> fill 5 (\<lambda>c. read_error_command data (off + c * 12));
     err \<leftarrow> read_error_record data (off + 60);
     Some \<lparr>ee_Commands = cmds, ee_Error = err\<rparr> }"

definition error_entry_wf :: "ErrorLogEntry \<Rightarrow> bool" where
  "error_entry_wf e \<longleftrightarrow> length (ee_Commands e) = 5 \<and> error_record_wf (ee_Error e)"

definition error_entry_bytes :: "u8 \<Rightarrow> ErrorLogEntry \<Rightarrow> bytes" where
  "error_entry_bytes r e =
     encode_table error_command_bytes (replicate 5 ()) (ee_Commands e) @
     error_record_bytes r (ee_Error e)"

lemma commands_table:
  "error_entry_wf e \<Longrightarrow> table_wf (\<lambda>_. True) (\<lambda>_. True) 5 (replicate 5 ()) (ee_Commands e)"
  by (simp add: table_wf_def error_entry_wf_def)

lemma read_error_entry_bytes:
  assumes "error_entry_wf e"
  shows "read_error_entry (pre @ error_entry_bytes r e @ post) (length pre) = Some e"
proof -
  let ?t = "encode_table error_command_bytes (replicate 5 ()) (ee_Commands e)"
  have len: "length ?t = 60" using cmd.length_encode_table [OF commands_table [OF assms]] by simp
  have "fill 5 (\<lambda>i. read_error_command (pre @ ?t @ (error_record_bytes r (ee_Error e) @ post))
      (length pre + i * 12)) = Some (ee_Commands e)"
    using commands_table [OF assms] by (intro cmd.fill_encode_table refl)
  moreover have "read_error_record ((pre @ ?t) @ error_record_bytes r (ee_Error e) @ post)
      (length (pre @ ?t)) = Some (ee_Error e)"
    using assms by (intro erec.read_enc) (simp_all add: error_entry_wf_def)
  ultimately show ?thesis by (simp add: read_error_entry_def error_entry_bytes_def len)
qed

lemma error_entry_surj:
  assumes "length c = 90"
  shows "\<exists>r e. True \<and> error_entry_wf e \<and> c = error_entry_bytes r e"
proof -
  obtain t x where c: "c = t @ x" and len: "length t = 5 * 12" "length x = 30"
    using split_lengths [of c "[60, 30]"] assms by (auto simp: map_eq_Cons_conv)
  obtain us cmds where tab: "table_wf (\<lambda>_. True) (\<lambda>_. True) 5 us cmds"
    and t: "t = encode_table error_command_bytes us cmds"
    using cmd.table_surj [OF len(1)] by blast
  have "us = replicate 5 ()" using tab by (intro replicate_eqI) (auto simp: table_wf_def)
  moreover obtain r er where "error_record_wf er" "x = error_record_bytes r er"
    using erec.enc_surj [OF len(2)] by blast
  ultimately have "error_entry_wf \<lparr>ee_Commands = cmds, ee_Error = er\<rparr> \<and>
      c = error_entry_bytes r \<lparr>ee_Commands = cmds, ee_Error = er\<rparr>"
    using tab t by (simp add: c table_wf_def error_entry_wf_def error_entry_bytes_def)
  then show ?thesis by blast
qed

lemma length_error_entry_bytes:
  "True \<Longrightarrow> error_entry_wf e \<Longrightarrow> length (error_entry_bytes r e) = 90"
  using cmd.length_encode_table [OF commands_table [of e]]
    erec.enc_length [where p = r and a = "ee_Error e"]
  by (simp add: error_entry_bytes_def error_entry_wf_def)

interpretation eent: fixed_layout 90 read_error_entry error_entry_bytes "\<lambda>_. True" error_entry_wf
  by unfold_locales
    (simp_all add: length_error_entry_bytes error_entry_surj [simplified] read_error_entry_bytes)

section \<open>The summary error log\<close>

record SmartErrorLog =
  el_RevNumber :: u8
  el_LogPointer :: u8
  el_Entries :: "ErrorLogEntry list"
  el_ATAErrorCount :: u16

definition error_log_body :: "bytes \<Rightarrow> SmartErrorLog go" where
  "error_log_body data = do {
     rev \<leftarrow> index data 0;
     ptr \<leftarrow> index data 1;
     entries \<leftarrow> fill 5 (\<lambda>i. read_error_entry data (2 + i * 90));
     count \<leftarrow> le16 data 452;
     Some \<lparr>el_RevNumber = rev, el_LogPointer = ptr, el_Entries = entries,
           el_ATAErrorCount = count\<rparr> }"

definition ParseSmartErrorLog :: "bytes \<Rightarrow> (go_error + SmartErrorLog) go" where
  "ParseSmartErrorLog data =
     (if length data \<noteq> 512 then Some (Inl (WrongLength ''error log'' 512 (length data)))
      else if \<not> validateChecksum data then Some (Inl (ChecksumError ''error log''))
      else do { el \<leftarrow> error_log_body data; Some (Inr el) })"

definition error_log_wf :: "SmartErrorLog \<Rightarrow> bool" where
  "error_log_wf el \<longleftrightarrow> length (el_Entries el) = 5 \<and> (\<forall>e \<in> set (el_Entries el). error_entry_wf e)"

fun error_log_bytes :: "bytes \<times> bytes \<Rightarrow> SmartErrorLog \<Rightarrow> bytes" where
  "error_log_bytes (ps, tail) el =
     [el_RevNumber el, el_LogPointer el] @ encode_table error_entry_bytes ps (el_Entries el) @
     le_bytes 2 (el_ATAErrorCount el) @ tail"

fun error_log_pads :: "bytes \<times> bytes \<Rightarrow> bool" where
  "error_log_pads (ps, tail) \<longleftrightarrow> length ps = 5 \<and> length tail = 58"

declare error_log_bytes.simps [simp del, layout_defs]

lemma entries_table:
  "error_log_pads (ps, tail) \<Longrightarrow> error_log_wf el \<Longrightarrow>
     table_wf (\<lambda>_. True) error_entry_wf 5 ps (el_Entries el)"
  by (simp add: table_wf_def error_log_wf_def)

lemma length_error_log_bytes:
  "error_log_pads p \<Longrightarrow> error_log_wf el \<Longrightarrow> length (error_log_bytes p el) = 512"
  using eent.length_encode_table [OF entries_table] by (cases p) (simp add: layout_defs)

lemma error_log_body_bytes:
  assumes "error_log_pads p" and "error_log_wf el"
  shows "error_log_body (error_log_bytes p el) = Some el"
proof -
  obtain ps tail where p: "p = (ps, tail)" by (cases p)
  have tab: "table_wf (\<lambda>_. True) error_entry_wf 5 ps (el_Entries el)"
    using assms p by (auto intro: entries_table)
  have "length (encode_table error_entry_bytes ps (el_Entries el)) = 450"
    using eent.length_encode_table [OF tab] by simp
  moreover note eent.fill_encode_table [OF tab, of "[el_RevNumber el, el_LogPointer el]" 2]
  ultimately show ?thesis by (simp add: p layout_defs error_log_body_def le16_def at_simps)
qed

lemma error_log_surj:
  assumes "length c = 512"
  shows "\<exists>p el. error_log_pads p \<and> error_log_wf el \<and> c = error_log_bytes p el"
proof -
  obtain x t w tail where c: "c = x @ t @ w @ tail"
    and len: "length x = 2" "length t = 5 * 90" "length w = 2" "length tail = 58"
    using split_lengths [of c "[2, 450, 2, 58]"] assms by (auto simp: map_eq_Cons_conv)
  obtain ps es where tab: "table_wf (\<lambda>_. True) error_entry_wf 5 ps es"
    and t: "t = encode_table error_entry_bytes ps es"
    using eent.table_surj [OF len(2)] by blast
  obtain n where n: "w = le_bytes 2 (n :: u16)" using le_bytes_surj(1) len(3) by blast
  obtain a b where x: "x = [a, b]" using len(1) by (auto simp: numeral_eq_Suc length_Suc_conv)
  let ?el = "\<lparr>el_RevNumber = a, el_LogPointer = b, el_Entries = es, el_ATAErrorCount = n\<rparr>"
  have "c = error_log_bytes (ps, tail) ?el" by (simp add: c t n x layout_defs)
  moreover have "error_log_pads (ps, tail)" "error_log_wf ?el"
    using tab len by (simp_all add: table_wf_def error_log_wf_def)
  ultimately show ?thesis by blast
qed

interpretation error_log: response_layout 512 validateChecksum error_log_body
  ParseSmartErrorLog "WrongLength ''error log'' 512" "ChecksumError ''error log''"
  error_log_bytes error_log_pads error_log_wf
  by unfold_locales
    (fact ParseSmartErrorLog_def length_error_log_bytes error_log_surj error_log_body_bytes)+

section \<open>The self-test log\<close>

record SelfTestEntry =
  te_TestNumber :: u8
  te_SelfTestStatus :: u8
  te_TimestampHours :: u16
  te_FailureCheckpoint :: u8
  te_LBAFirstFailure :: u32
  te_VendorSpecific :: bytes

definition SelfTestResult :: "SelfTestEntry \<Rightarrow> u8" where
  "SelfTestResult e = drop_bit 4 (te_SelfTestStatus e)"

definition SelfTestPercRemaining :: "SelfTestEntry \<Rightarrow> u8" where
  "SelfTestPercRemaining e = te_SelfTestStatus e AND 0x0f"

definition read_self_test_entry :: "bytes \<Rightarrow> nat \<Rightarrow> SelfTestEntry go" where
  "read_self_test_entry data off = do {
     num \<leftarrow> index data (off + 0);
     status \<leftarrow> index data (off + 1);
     ts \<leftarrow> le16 data (off + 2);
     cp \<leftarrow> index data (off + 4);
     l \<leftarrow> slice data (off + 5) (off + 9);
     lba \<leftarrow> Uint32 l;
     vs \<leftarrow> slice data (off + 9) (off + 24);
     Some \<lparr>te_TestNumber = num, te_SelfTestStatus = status, te_TimestampHours = ts,
           te_FailureCheckpoint = cp, te_LBAFirstFailure = lba,
           te_VendorSpecific = copy_bytes (make_bytes 15) vs\<rparr> }"

definition self_test_entry_wf :: "SelfTestEntry \<Rightarrow> bool" where
  "self_test_entry_wf e \<longleftrightarrow> length (te_VendorSpecific e) = 15"

definition self_test_entry_bytes :: "unit \<Rightarrow> SelfTestEntry \<Rightarrow> bytes" where
  "self_test_entry_bytes u e =
     [te_TestNumber e, te_SelfTestStatus e] @ le_bytes 2 (te_TimestampHours e) @
     [te_FailureCheckpoint e] @ le_bytes 4 (te_LBAFirstFailure e) @ te_VendorSpecific e"

interpretation tent: fixed_layout 24 read_self_test_entry self_test_entry_bytes
  "\<lambda>_. True" self_test_entry_wf
proof unfold_locales
  fix c :: bytes assume "length c = 24"
  then obtain x h f l v where c: "c = x @ h @ f @ l @ v"
    and len: "length x = 2" "length h = 2" "length f = 1" "length l = 4" "length v = 15"
    using split_lengths [of c "[2, 2, 1, 4, 15]"] by (auto simp: map_eq_Cons_conv)
  obtain a b d where "x = [a, b]" "f = [d]"
    using len(1,3) by (auto simp: numeral_eq_Suc length_Suc_conv)
  moreover obtain ts where "h = le_bytes 2 (ts :: u16)" using le_bytes_surj(1) len(2) by blast
  moreover obtain lba where "l = le_bytes 4 (lba :: u32)" using le_bytes_surj(2) len(4) by blast
  ultimately have "self_test_entry_wf \<lparr>te_TestNumber = a, te_SelfTestStatus = b,
      te_TimestampHours = ts, te_FailureCheckpoint = d, te_LBAFirstFailure = lba,
      te_VendorSpecific = v\<rparr> \<and>
    c = self_test_entry_bytes () \<lparr>te_TestNumber = a, te_SelfTestStatus = b,
      te_TimestampHours = ts, te_FailureCheckpoint = d, te_LBAFirstFailure = lba,
      te_VendorSpecific = v\<rparr>"
    by (simp add: c len self_test_entry_bytes_def self_test_entry_wf_def)
  then show "\<exists>p a. True \<and> self_test_entry_wf a \<and> c = self_test_entry_bytes p a" by blast
qed (simp_all add: read_self_test_entry_def self_test_entry_bytes_def self_test_entry_wf_def
    le16_def at_simps copy_bytes_full make_bytes_def)

record SmartSelfTestLog =
  sl_RevNumber :: u16
  sl_Entries :: "SelfTestEntry list"
  sl_MostRecentTest :: u8

definition self_test_log_body :: "bytes \<Rightarrow> SmartSelfTestLog go" where
  "self_test_log_body data = do {
     rev \<leftarrow> le16 data 0;
     entries \<leftarrow> fill 21 (\<lambda>i. read_self_test_entry data (2 + i * 24));
     recent \<leftarrow> index data 506;
     Some \<lparr>sl_RevNumber = rev, sl_Entries = entries, sl_MostRecentTest = recent\<rparr> }"

definition ParseSmartSelfTestLog :: "bytes \<Rightarrow> (go_error + SmartSelfTestLog) go" where
  "ParseSmartSelfTestLog data =
     (if length data \<noteq> 512 then Some (Inl (WrongLength ''self-test log'' 512 (length data)))
      else if \<not> validateChecksum data then Some (Inl (ChecksumError ''self-test log''))
      else do { sl \<leftarrow> self_test_log_body data; Some (Inr sl) })"

definition self_test_log_wf :: "SmartSelfTestLog \<Rightarrow> bool" where
  "self_test_log_wf sl \<longleftrightarrow>
     length (sl_Entries sl) = 21 \<and> (\<forall>e \<in> set (sl_Entries sl). self_test_entry_wf e)"

definition self_test_log_bytes :: "bytes \<Rightarrow> SmartSelfTestLog \<Rightarrow> bytes" where
  "self_test_log_bytes tail sl =
     le_bytes 2 (sl_RevNumber sl) @
     encode_table self_test_entry_bytes (replicate 21 ()) (sl_Entries sl) @
     [sl_MostRecentTest sl] @ tail"

definition self_test_log_pads :: "bytes \<Rightarrow> bool" where
  "self_test_log_pads tail \<longleftrightarrow> length tail = 5"

lemma tests_table:
  "self_test_log_wf sl \<Longrightarrow>
     table_wf (\<lambda>_. True) self_test_entry_wf 21 (replicate 21 ()) (sl_Entries sl)"
  by (simp add: table_wf_def self_test_log_wf_def)

lemma length_self_test_log_bytes:
  "self_test_log_pads p \<Longrightarrow> self_test_log_wf sl \<Longrightarrow> length (self_test_log_bytes p sl) = 512"
  using tent.length_encode_table [OF tests_table]
  by (simp add: self_test_log_bytes_def self_test_log_pads_def)

lemma self_test_log_body_bytes:
  assumes "self_test_log_pads p" and "self_test_log_wf sl"
  shows "self_test_log_body (self_test_log_bytes p sl) = Some sl"
proof -
  note tab = tests_table [OF assms(2)]
  have "length (encode_table self_test_entry_bytes (replicate 21 ()) (sl_Entries sl)) = 504"
    using tent.length_encode_table [OF tab] by simp
  moreover note tent.fill_encode_table [OF tab, of "le_bytes 2 (sl_RevNumber sl)" 2]
  ultimately show ?thesis
    by (simp add: self_test_log_bytes_def self_test_log_body_def le16_def at_simps)
qed

lemma self_test_log_surj:
  assumes "length c = 512"
  shows "\<exists>p sl. self_test_log_pads p \<and> self_test_log_wf sl \<and> c = self_test_log_bytes p sl"
proof -
  obtain x t m tail where c: "c = x @ t @ m @ tail"
    and len: "length x = 2" "length t = 21 * 24" "length m = 1" "length tail = 5"
    using split_lengths [of c "[2, 504, 1, 5]"] assms by (auto simp: map_eq_Cons_conv)
  obtain us es where tab: "table_wf (\<lambda>_. True) self_test_entry_wf 21 us es"
    and t: "t = encode_table self_test_entry_bytes us es"
    using tent.table_surj [OF len(2)] by blast
  have us: "us = replicate 21 ()" using tab by (intro replicate_eqI) (auto simp: table_wf_def)
  obtain n where n: "x = le_bytes 2 (n :: u16)" using le_bytes_surj(1) len(1) by blast
  obtain r where m: "m = [r]" using len(3) by (auto simp: length_Suc_conv)
  let ?sl = "\<lparr>sl_RevNumber = n, sl_Entries = es, sl_MostRecentTest = r\<rparr>"
  have "c = self_test_log_bytes tail ?sl" by (simp add: c t us n m self_test_log_bytes_def)
  moreover have "self_test_log_pads tail" "self_test_log_wf ?sl"
    using tab len by (simp_all add: table_wf_def self_test_log_wf_def self_test_log_pads_def)
  ultimately show ?thesis by blast
qed

interpretation self_test_log: response_layout 512 validateChecksum self_test_log_body
  ParseSmartSelfTestLog "WrongLength ''self-test log'' 512" "ChecksumError ''self-test log''"
  self_test_log_bytes self_test_log_pads self_test_log_wf
  by unfold_locales
    (fact ParseSmartSelfTestLog_def length_self_test_log_bytes self_test_log_surj
      self_test_log_body_bytes)+

section \<open>The selective self-test log\<close>

record SelectiveTestSpan =
  span_MinLBA :: u64
  span_MaxLBA :: u64
  span_Status :: u16

definition read_span :: "bytes \<Rightarrow> nat \<Rightarrow> SelectiveTestSpan go" where
  "read_span data off = do {
     a \<leftarrow> slice data off (off + 8);
     mn \<leftarrow> Uint64 a;
     b \<leftarrow> slice data (off + 8) (off + 16);
     mx \<leftarrow> Uint64 b;
     status \<leftarrow> le16 data (off + 16);
     Some \<lparr>span_MinLBA = mn, span_MaxLBA = mx, span_Status = status\<rparr> }"

definition span_bytes :: "bytes \<Rightarrow> SelectiveTestSpan \<Rightarrow> bytes" where
  "span_bytes r s =
     le_bytes 8 (span_MinLBA s) @ le_bytes 8 (span_MaxLBA s) @ le_bytes 2 (span_Status s) @ r"

definition span_pads :: "bytes \<Rightarrow> bool" where
  "span_pads r \<longleftrightarrow> length r = 2"

interpretation span: fixed_layout 20 read_span span_bytes span_pads "\<lambda>_. True"
proof unfold_locales
  fix c :: bytes assume "length c = 20"
  then obtain x y z r where c: "c = x @ y @ z @ r"
    and len: "length x = 8" "length y = 8" "length z = 2" "length r = 2"
    using split_lengths [of c "[8, 8, 2, 2]"] by (auto simp: map_eq_Cons_conv)
  obtain a b d where "x = le_bytes 8 (a :: u64)" "y = le_bytes 8 (b :: u64)"
    "z = le_bytes 2 (d :: u16)"
    using le_bytes_surj(1,3) len by meson
  then have "span_pads r \<and>
      c = span_bytes r \<lparr>span_MinLBA = a, span_MaxLBA = b, span_Status = d\<rparr>"
    by (simp add: c len span_bytes_def span_pads_def)
  then show "\<exists>p a. span_pads p \<and> True \<and> c = span_bytes p a" by blast
qed (simp_all add: read_span_def span_bytes_def span_pads_def le16_def at_simps)

record SmartSelectiveSelfTestLog =
  ssl_RevNumber :: u16
  ssl_Spans :: "SelectiveTestSpan list"
  ssl_Flags :: u16

definition selective_log_body :: "bytes \<Rightarrow> SmartSelectiveSelfTestLog go" where
  "selective_log_body data = do {
     rev \<leftarrow> le16 data 0;
     spans \<leftarrow> fill 5 (\<lambda>i. read_span data (2 + i * 20));
     flags \<leftarrow> le16 data 102;
     Some \<lparr>ssl_RevNumber = rev, ssl_Spans = spans, ssl_Flags = flags\<rparr> }"

text \<open>This parser checks the length only: it has no checksum test.\<close>

definition ParseSmartSelectiveSelfTestLog ::
    "bytes \<Rightarrow> (go_error + SmartSelectiveSelfTestLog) go" where
  "ParseSmartSelectiveSelfTestLog data =
     (if length data \<noteq> 512
      then Some (Inl (WrongLength ''selective self-test log'' 512 (length data)))
      else do { sl \<leftarrow> selective_log_body data; Some (Inr sl) })"

definition selective_log_wf :: "SmartSelectiveSelfTestLog \<Rightarrow> bool" where
  "selective_log_wf sl \<longleftrightarrow> length (ssl_Spans sl) = 5"

fun selective_log_bytes :: "bytes list \<times> bytes \<Rightarrow> SmartSelectiveSelfTestLog \<Rightarrow> bytes" where
  "selective_log_bytes (ps, tail) sl =
     le_bytes 2 (ssl_RevNumber sl) @ encode_table span_bytes ps (ssl_Spans sl) @
     le_bytes 2 (ssl_Flags sl) @ tail"

fun selective_log_pads :: "bytes list \<times> bytes \<Rightarrow> bool" where
  "selective_log_pads (ps, tail) \<longleftrightarrow>
     length ps = 5 \<and> (\<forall>p \<in> set ps. span_pads p) \<and> length tail = 408"

declare selective_log_bytes.simps [simp del, layout_defs]

lemma spans_table:
  "selective_log_pads (ps, tail) \<Longrightarrow> selective_log_wf sl \<Longrightarrow>
     table_wf span_pads (\<lambda>_. True) 5 ps (ssl_Spans sl)"
  by (simp add: table_wf_def selective_log_wf_def)

lemma length_selective_log_bytes:
  "selective_log_pads p \<Longrightarrow> selective_log_wf sl \<Longrightarrow> length (selective_log_bytes p sl) = 512"
  using span.length_encode_table [OF spans_table] by (cases p) (simp add: layout_defs)

lemma selective_log_body_bytes:
  assumes "selective_log_pads p" and "selective_log_wf sl"
  shows "selective_log_body (selective_log_bytes p sl) = Some sl"
proof -
  obtain ps tail where p: "p = (ps, tail)" by (cases p)
  have tab: "table_wf span_pads (\<lambda>_. True) 5 ps (ssl_Spans sl)"
    using assms p by (auto intro: spans_table)
  have "length (encode_table span_bytes ps (ssl_Spans sl)) = 100"
    using span.length_encode_table [OF tab] by simp
  moreover note span.fill_encode_table [OF tab, of "le_bytes 2 (ssl_RevNumber sl)" 2]
  ultimately show ?thesis by (simp add: p layout_defs selective_log_body_def le16_def at_simps)
qed

lemma selective_log_surj:
  assumes "length c = 512"
  shows "\<exists>p sl. selective_log_pads p \<and> selective_log_wf sl \<and> c = selective_log_bytes p sl"
proof -
  obtain x t f tail where c: "c = x @ t @ f @ tail"
    and len: "length x = 2" "length t = 5 * 20" "length f = 2" "length tail = 408"
    using split_lengths [of c "[2, 100, 2, 408]"] assms by (auto simp: map_eq_Cons_conv)
  obtain ps es where tab: "table_wf span_pads (\<lambda>_. True) 5 ps es"
    and t: "t = encode_table span_bytes ps es"
    using span.table_surj [OF len(2)] by blast
  obtain n m where nm: "x = le_bytes 2 (n :: u16)" "f = le_bytes 2 (m :: u16)"
    using le_bytes_surj(1) len by meson
  let ?sl = "\<lparr>ssl_RevNumber = n, ssl_Spans = es, ssl_Flags = m\<rparr>"
  have "c = selective_log_bytes (ps, tail) ?sl" by (simp add: c t nm layout_defs)
  moreover have "selective_log_pads (ps, tail)" "selective_log_wf ?sl"
    using tab len by (simp_all add: table_wf_def selective_log_wf_def)
  ultimately show ?thesis by blast
qed

interpretation selective_log: response_layout 512 "\<lambda>_. True" selective_log_body
  ParseSmartSelectiveSelfTestLog "WrongLength ''selective self-test log'' 512"
  "ChecksumError ''selective self-test log''"
  selective_log_bytes selective_log_pads selective_log_wf
  by unfold_locales
    (simp add: ParseSmartSelectiveSelfTestLog_def, (fact length_selective_log_bytes
      selective_log_surj selective_log_body_bytes)+)

section \<open>Properties\<close>

text \<open>
  C24. \<open>ParseSmartErrorLog\<close> never panics, and a response is accepted as the log \<open>el\<close> exactly
  when its bytes sum to zero and are the encoding of \<open>el\<close>: two levels of tables (five
  entries of five commands) are read back without loss.
\<close>

theorem ParseSmartErrorLog_codec:
  "(ParseSmartErrorLog data = Some (Inr el) \<longleftrightarrow>
     error_log_wf el \<and> validateChecksum data \<and>
     (\<exists>p. error_log_pads p \<and> data = error_log_bytes p el)) \<and>
   ParseSmartErrorLog data \<noteq> None"
  using error_log.parse_ok_iff error_log.parse_total by blast

text \<open>
  C25. \<open>ParseSmartSelfTestLog\<close> never panics, and accepts exactly the checksummed encodings of
  the self-test logs of 21 entries.
\<close>

theorem ParseSmartSelfTestLog_codec:
  "(ParseSmartSelfTestLog data = Some (Inr sl) \<longleftrightarrow>
     self_test_log_wf sl \<and> validateChecksum data \<and>
     (\<exists>p. self_test_log_pads p \<and> data = self_test_log_bytes p sl)) \<and>
   ParseSmartSelfTestLog data \<noteq> None"
  using self_test_log.parse_ok_iff self_test_log.parse_total by blast

text \<open>
  C26. \<open>ParseSmartSelectiveSelfTestLog\<close> checks the length only: every response of 512 bytes is
  accepted, also one whose checksum is wrong, and read back as the log it encodes.
\<close>

theorem ParseSmartSelectiveSelfTestLog_accepts:
  "(ParseSmartSelectiveSelfTestLog data = Some (Inr sl) \<longleftrightarrow>
     selective_log_wf sl \<and> (\<exists>p. selective_log_pads p \<and> data = selective_log_bytes p sl)) \<and>
   ((\<exists>sl. ParseSmartSelectiveSelfTestLog data = Some (Inr sl)) \<longleftrightarrow> length data = 512) \<and>
   (\<exists>sl. ParseSmartSelectiveSelfTestLog ((replicate 512 0)[511 := 1]) = Some (Inr sl)) \<and>
   \<not> validateChecksum ((replicate 512 0)[511 := 1])"
proof -
  have ex: "(\<exists>sl. ParseSmartSelectiveSelfTestLog d = Some (Inr sl)) \<longleftrightarrow> length d = 512" for d
    using selective_log.parse_cases [of d] by auto
  have "validateChecksum (replicate 512 0)"
    by (simp add: validateChecksum_iff sum_list_replicate)
  then have "\<not> validateChecksum ((replicate 512 0)[511 := 1])"
    by (simp add: validateChecksum_update sum_list_replicate)
  then show ?thesis using ex selective_log.parse_ok_iff [of data sl] by simp
qed

end
