(* ===== verification/Name_Lookup.thy ===== *)
theory Name_Lookup
  imports Go_Prelude
begin

text \<open>
  The interface the list and get modes of \<open>cmd/gosmart\<close> rely on: a record of some kind
  with a list of field names and a lookup by name. \<open>name_table\<close> is what both device kinds
  promise; \<open>keyed_table\<close> adds that the names are distinct and where each value comes from.
\<close>

text \<open>
  The tail of \<open>getATA\<close> and \<open>getNVMe\<close>: report an unknown field, else hand the value on.
\<close>

definition get_field :: "('r \<Rightarrow> string \<Rightarrow> 'v option) \<Rightarrow> 'r \<Rightarrow> string \<Rightarrow> go_error + 'v" where
  "get_field lookup r field =
     (case lookup r field of None \<Rightarrow> Inl (FieldNotFound field) | Some v \<Rightarrow> Inr v)"

locale name_table =
  fixes names :: "'r \<Rightarrow> string list"
    and lookup :: "'r \<Rightarrow> string \<Rightarrow> 'v option"
  assumes lookup_iff: "lookup r n \<noteq> None \<longleftrightarrow> n \<in> set (names r)"
begin

lemma get_field_ok_iff: "(\<exists>v. get_field lookup r n = Inr v) \<longleftrightarrow> n \<in> set (names r)"
  using lookup_iff [of r n] by (auto simp: get_field_def split: option.splits)

lemma get_field_error_iff: "get_field lookup r n = Inl e \<longleftrightarrow> n \<notin> set (names r) \<and> e = FieldNotFound n"
  using lookup_iff [of r n] by (auto simp: get_field_def split: option.splits)

end

locale keyed_table = name_table +
  fixes vals :: "'r \<Rightarrow> 'v list"
  assumes distinct_names: "distinct (names r)"
    and length_vals: "length (vals r) = length (names r)"
    and lookup_nth: "i < length (names r) \<Longrightarrow> lookup r (names r ! i) = Some (vals r ! i)"
begin

lemma lookup_eq_map_of: "lookup r n = map_of (zip (names r) (vals r)) n"
proof (cases "n \<in> set (names r)")
  case True
  then obtain i where i: "i < length (names r)" "names r ! i = n" by (auto simp: in_set_conv_nth)
  then have "map_of (zip (names r) (vals r)) n = Some (vals r ! i)"
    using distinct_names length_vals by (auto simp: map_of_eq_Some_iff set_zip)
  then show ?thesis using lookup_nth [OF i(1)] i(2) by simp
next
  case False
  then have "map_of (zip (names r) (vals r)) n = None"
    by (auto simp: map_of_eq_None_iff dest: set_zip_leftD)
  then show ?thesis using False lookup_iff [of r n] by simp
qed

end

end
