(* ===== verification/Ata_Attr.thy ===== *)
theory Ata_Attr
  imports Ata_Smart Name_Lookup
begin

text \<open>
  \<open>internal/ata/attr.go\<close>: the table of default attribute names and \<open>AttrName\<close>, and the
  two lookups of \<open>smart.go\<close> that use it, \<open>AttrNames\<close> and \<open>AttrByName\<close>. The map literal is
  an association list; its keys are distinct, so \<open>map_of\<close> is the Go map.
\<close>

section \<open>The attribute table\<close>

type_synonym attrFlags = u8

definition attrFlagHDDOnly :: attrFlags where
  "attrFlagHDDOnly = push_bit 0 1"

definition attrFlagSSDOnly :: attrFlags where
  "attrFlagSSDOnly = push_bit 1 1"

record attrDef =
  ad_name :: string
  ad_flags :: attrFlags

definition defaultAttrDefs_entries :: "(u8 \<times> string \<times> attrFlags) list" where
  "defaultAttrDefs_entries = [
     (1, ''Raw_Read_Error_Rate'', 0),
     (2, ''Throughput_Performance'', 0),
     (3, ''Spin_Up_Time'', 0),
     (4, ''Start_Stop_Count'', 0),
     (5, ''Reallocated_Sector_Ct'', 0),
     (6, ''Read_Channel_Margin'', attrFlagHDDOnly),
     (7, ''Seek_Error_Rate'', attrFlagHDDOnly),
     (8, ''Seek_Time_Performance'', attrFlagHDDOnly),
     (9, ''Power_On_Hours'', 0),
     (10, ''Spin_Retry_Count'', attrFlagHDDOnly),
     (11, ''Calibration_Retry_Count'', attrFlagHDDOnly),
     (12, ''Power_Cycle_Count'', 0),
     (13, ''Read_Soft_Error_Rate'', 0),
     (22, ''Helium_Level'', attrFlagHDDOnly),
     (23, ''Helium_Condition_Lower'', attrFlagHDDOnly),
     (24, ''Helium_Condition_Upper'', attrFlagHDDOnly),
     (175, ''Program_Fail_Count_Chip'', attrFlagSSDOnly),
     (176, ''Erase_Fail_Count_Chip'', attrFlagSSDOnly),
     (177, ''Wear_Leveling_Count'', attrFlagSSDOnly),
     (178, ''Used_Rsvd_Blk_Cnt_Chip'', attrFlagSSDOnly),
     (179, ''Used_Rsvd_Blk_Cnt_Tot'', attrFlagSSDOnly),
     (180, ''Unused_Rsvd_Blk_Cnt_Tot'', attrFlagSSDOnly),
     (181, ''Program_Fail_Cnt_Total'', 0),
     (182, ''Erase_Fail_Count_Total'', attrFlagSSDOnly),
     (183, ''Runtime_Bad_Block'', 0),
     (184, ''End-to-End_Error'', 0),
     (187, ''Reported_Uncorrect'', 0),
     (188, ''Command_Timeout'', 0),
     (189, ''High_Fly_Writes'', attrFlagHDDOnly),
     (190, ''Airflow_Temperature_Cel'', 0),
     (191, ''G-Sense_Error_Rate'', attrFlagHDDOnly),
     (192, ''Power-Off_Retract_Count'', 0),
     (193, ''Load_Cycle_Count'', attrFlagHDDOnly),
     (194, ''Temperature_Celsius'', 0),
     (195, ''Hardware_ECC_Recovered'', 0),
     (196, ''Reallocated_Event_Count'', 0),
     (197, ''Current_Pending_Sector'', 0),
     (198, ''Offline_Uncorrectable'', 0),
     (199, ''UDMA_CRC_Error_Count'', 0),
     (200, ''Multi_Zone_Error_Rate'', attrFlagHDDOnly),
     (201, ''Soft_Read_Error_Rate'', attrFlagHDDOnly),
     (202, ''Data_Address_Mark_Errs'', attrFlagHDDOnly),
     (203, ''Run_Out_Cancel'', 0),
     (204, ''Soft_ECC_Correction'', 0),
     (205, ''Thermal_Asperity_Rate'', 0),
     (206, ''Flying_Height'', attrFlagHDDOnly),
     (207, ''Spin_High_Current'', attrFlagHDDOnly),
     (208, ''Spin_Buzz'', attrFlagHDDOnly),
     (209, ''Offline_Seek_Performnce'', attrFlagHDDOnly),
     (220, ''Disk_Shift'', attrFlagHDDOnly),
     (221, ''G-Sense_Error_Rate'', attrFlagHDDOnly),
     (222, ''Loaded_Hours'', attrFlagHDDOnly),
     (223, ''Load_Retry_Count'', attrFlagHDDOnly),
     (224, ''Load_Friction'', attrFlagHDDOnly),
     (225, ''Load_Cycle_Count'', attrFlagHDDOnly),
     (226, ''Load-in_Time'', attrFlagHDDOnly),
     (227, ''Torq-amp_Count'', attrFlagHDDOnly),
     (228, ''Power-off_Retract_Count'', 0),
     (230, ''Head_Amplitude'', attrFlagHDDOnly),
     (231, ''Temperature_Celsius'', attrFlagHDDOnly),
     (232, ''Available_Reservd_Space'', 0),
     (233, ''Media_Wearout_Indicator'', attrFlagSSDOnly),
     (240, ''Head_Flying_Hours'', attrFlagHDDOnly),
     (241, ''Total_LBAs_Written'', 0),
     (242, ''Total_LBAs_Read'', 0),
     (250, ''Read_Error_Retry_Rate'', 0),
     (254, ''Free_Fall_Sensor'', attrFlagHDDOnly)]"

definition defaultAttrDefs :: "u8 \<rightharpoonup> attrDef" where
  "defaultAttrDefs i =
     map_option (\<lambda>(n, f). \<lparr>ad_name = n, ad_flags = f\<rparr>) (map_of defaultAttrDefs_entries i)"

definition AttrName :: "u8 \<Rightarrow> int \<Rightarrow> string" where
  "AttrName i rpm =
     (case defaultAttrDefs i of
        None \<Rightarrow> ''Unknown_Attribute''
      | Some def \<Rightarrow>
          if ad_flags def AND attrFlagHDDOnly \<noteq> 0 \<and> rpm = 1 then ''Unknown_SSD_Attribute''
          else if ad_flags def AND attrFlagSSDOnly \<noteq> 0 \<and> rpm > 1 then ''Unknown_HDD_Attribute''
          else ad_name def)"

text \<open>The keys of the literal are distinct, as Go requires of a map literal.\<close>

lemma attr_ids_distinct: "distinct (map fst defaultAttrDefs_entries)"
  by code_simp

text \<open>The names that stand for an attribute the table does not name for this drive.\<close>

definition placeholder_names :: "string list" where
  "placeholder_names = [''Unknown_Attribute'', ''Unknown_SSD_Attribute'', ''Unknown_HDD_Attribute'']"

lemma AttrName_cases:
  "AttrName i rpm \<in> set placeholder_names \<or>
   (\<exists>f. (i, AttrName i rpm, f) \<in> set defaultAttrDefs_entries \<and>
     \<not> (f AND attrFlagHDDOnly \<noteq> 0 \<and> rpm = 1) \<and> \<not> (f AND attrFlagSSDOnly \<noteq> 0 \<and> rpm > 1))"
  unfolding AttrName_def defaultAttrDefs_def placeholder_names_def
  by (auto split: option.splits dest: map_of_SomeD)

lemma no_placeholder_in_table:
  "list_all (\<lambda>(i, n, f). n \<notin> set placeholder_names) defaultAttrDefs_entries"
  by code_simp

text \<open>The pairs of distinct attribute IDs that share a name.\<close>

definition same_name_ids :: "(u8 \<times> u8) list" where
  "same_name_ids = [(191, 221), (193, 225), (194, 231)]"

definition names_clash :: "(u8 \<times> string \<times> attrFlags) list \<Rightarrow> (u8 \<times> u8) list" where
  "names_clash es =
     [(i, j). (i, n, f) \<leftarrow> es, (j, m, g) \<leftarrow> es, n = m \<and> i < j]"

lemma names_clash_table: "names_clash defaultAttrDefs_entries = same_name_ids"
  by code_simp

section \<open>The lookups\<close>

definition AttrNames :: "SmartValues \<Rightarrow> int \<Rightarrow> string list" where
  "AttrNames sv rpm =
     fold (\<lambda>a names. if attr_ID a \<noteq> 0 then names @ [AttrName (attr_ID a) rpm] else names)
       (sv_Attributes sv) []"

fun attr_by_name_loop :: "Attribute list \<Rightarrow> string \<Rightarrow> int \<Rightarrow> Attribute option" where
  "attr_by_name_loop [] name rpm = None"
| "attr_by_name_loop (a # as) name rpm =
     (if attr_ID a \<noteq> 0 \<and> AttrName (attr_ID a) rpm = name then Some a
      else attr_by_name_loop as name rpm)"

definition AttrByName :: "SmartValues \<Rightarrow> string \<Rightarrow> int \<Rightarrow> Attribute option" where
  "AttrByName sv name rpm = attr_by_name_loop (sv_Attributes sv) name rpm"

lemma AttrNames_eq:
  "AttrNames sv rpm =
     map (\<lambda>a. AttrName (attr_ID a) rpm) (filter (\<lambda>a. attr_ID a \<noteq> 0) (sv_Attributes sv))"
proof -
  have "fold (\<lambda>a names. if attr_ID a \<noteq> 0 then names @ [AttrName (attr_ID a) rpm] else names) as acc =
      acc @ map (\<lambda>a. AttrName (attr_ID a) rpm) (filter (\<lambda>a. attr_ID a \<noteq> 0) as)" for as :: "Attribute list" and acc
    by (induction as arbitrary: acc) auto
  then show ?thesis by (simp add: AttrNames_def)
qed

definition has_name :: "string \<Rightarrow> int \<Rightarrow> Attribute \<Rightarrow> bool" where
  "has_name name rpm a \<longleftrightarrow> attr_ID a \<noteq> 0 \<and> AttrName (attr_ID a) rpm = name"

lemma AttrByName_find: "AttrByName sv name rpm = find (has_name name rpm) (sv_Attributes sv)"
proof -
  have "attr_by_name_loop as name rpm = find (has_name name rpm) as" for as
    by (induction as) (auto simp: has_name_def)
  then show ?thesis by (simp add: AttrByName_def)
qed

text \<open>The attribute table of a drive, as the list and get modes see it.\<close>

definition ata_names :: "SmartValues \<times> int \<Rightarrow> string list" where
  "ata_names r = AttrNames (fst r) (snd r)"

definition ata_lookup :: "SmartValues \<times> int \<Rightarrow> string \<Rightarrow> Attribute option" where
  "ata_lookup r name = AttrByName (fst r) name (snd r)"

interpretation ata: name_table ata_names ata_lookup
proof
  fix r n
  show "ata_lookup r n \<noteq> None \<longleftrightarrow> n \<in> set (ata_names r)"
    by (auto simp: ata_lookup_def ata_names_def AttrByName_find AttrNames_eq find_None_iff
        has_name_def)
qed

lemma clash_member:
  assumes "(i, n, f) \<in> set defaultAttrDefs_entries" and "(j, n, g) \<in> set defaultAttrDefs_entries"
    and "i < j"
  shows "(i, j) \<in> set same_name_ids"
proof -
  have "(i, j) \<in> set (names_clash defaultAttrDefs_entries)"
    unfolding names_clash_def using assms by force
  then show ?thesis by (simp only: names_clash_table)
qed

lemma table_name_unique:
  assumes "AttrName i rpm = AttrName j rpm" and "AttrName i rpm \<notin> set placeholder_names"
  shows "i = j \<or> (i, j) \<in> set same_name_ids \<or> (j, i) \<in> set same_name_ids"
proof -
  from assms AttrName_cases [of i rpm] AttrName_cases [of j rpm] obtain f g
    where "(i, AttrName i rpm, f) \<in> set defaultAttrDefs_entries"
      and "(j, AttrName i rpm, g) \<in> set defaultAttrDefs_entries" by auto
  then show ?thesis using clash_member by (cases i j rule: linorder_cases) blast+
qed

lemma clash_hidden_on_ssd:
  "list_all (\<lambda>(i, j). AttrName j 1 \<in> set placeholder_names) same_name_ids"
  by code_simp

section \<open>Properties\<close>

text \<open>
  \<open>AttrByName\<close> and \<open>AttrNames\<close> agree: the lookup finds an attribute exactly for the
  listed names, and what it finds is the first non-empty slot of that name.
\<close>

lemma AttrByName_first_listed:
  "(AttrByName sv name rpm \<noteq> None \<longleftrightarrow> name \<in> set (AttrNames sv rpm)) \<and>
   (AttrByName sv name rpm = Some a \<longleftrightarrow>
      (\<exists>i < length (sv_Attributes sv). sv_Attributes sv ! i = a \<and> has_name name rpm a \<and>
         \<not> (\<exists>j < i. has_name name rpm (sv_Attributes sv ! j))))"
  using ata.lookup_iff [of "(sv, rpm)" name]
  by (auto simp: ata_lookup_def ata_names_def AttrByName_find find_Some_iff)

text \<open>
  C32. On a solid-state drive (\<open>rpm = 1\<close>) a name of the table identifies one attribute ID.
  On other drives the only distinct IDs that share a name are 191/221, 193/225 and 194/231.
\<close>

theorem AttrName_identifies:
  assumes "AttrName i rpm = AttrName j rpm" and "AttrName i rpm \<notin> set placeholder_names"
  shows "i = j \<or> rpm \<noteq> 1 \<and> ((i, j) \<in> set same_name_ids \<or> (j, i) \<in> set same_name_ids)"
proof (cases "i = j")
  case False
  with table_name_unique [OF assms] have clash: "(i, j) \<in> set same_name_ids \<or> (j, i) \<in> set same_name_ids"
    by simp
  moreover have "rpm \<noteq> 1"
  proof
    assume "rpm = 1"
    with clash clash_hidden_on_ssd have
      "AttrName j rpm \<in> set placeholder_names \<or> AttrName i rpm \<in> set placeholder_names"
      by (auto simp: list_all_iff)
    with assms show False by simp
  qed
  ultimately show ?thesis by simp
qed simp

theorem AttrName_identifies_witness:
  "AttrName 194 7200 = AttrName 231 7200 \<and> (194, 231) \<in> set same_name_ids"
proof -
  have "AttrName 194 7200 = AttrName 231 7200" by code_simp
  moreover have "AttrName 194 7200 \<notin> set placeholder_names" by code_simp
  ultimately have "(194::u8) = 231 \<or> (7200::int) \<noteq> 1 \<and>
      ((194, 231) \<in> set same_name_ids \<or> (231, 194) \<in> set same_name_ids)"
    by (rule AttrName_identifies)
  with \<open>AttrName 194 7200 = AttrName 231 7200\<close> show ?thesis by (simp add: same_name_ids_def)
qed

end
