(* ===== verification/Go_Fmt.thy ===== *)
theory Go_Fmt
  imports Go_Prelude
begin

text \<open>
  What the program uses of Go's \<open>string\<close>, \<open>strings\<close> and \<open>fmt\<close>: strings as lists of
  bytes (a \<open>char\<close> is a byte), \<open>TrimRight\<close> with a one-character cut set, the integer verbs
  \<open>%d\<close> and \<open>%x\<close> with their widths and flags, and the float verb \<open>%.Nf\<close> over
  \<open>float64\<close> arithmetic (round to nearest, ties to even) on the values the program divides.
\<close>

section \<open>Strings\<close>

definition byte_char :: "u8 \<Rightarrow> char" where
  "byte_char b = char_of (unat b)"

definition to_string :: "bytes \<Rightarrow> string" where
  "to_string bs = map byte_char bs"

definition nl :: string where
  "nl = [CHR 0x0A]"

definition tabs :: "nat \<Rightarrow> string" where
  "tabs n = replicate n (CHR 0x09)"

text \<open>\<open>strings.TrimRight(s, " ")\<close>: the loop that drops the last byte while it is a space.\<close>

definition TrimRight :: "string \<Rightarrow> string" where
  "TrimRight s = rev (dropWhile (\<lambda>c. c = CHR '' '') (rev s))"

lemma byte_char_inj: "byte_char a = byte_char b \<longleftrightarrow> a = b"
proof
  assume "byte_char a = byte_char b"
  then have "of_char (byte_char a) = (of_char (byte_char b) :: nat)" by simp
  moreover have "unat a < 2 ^ LENGTH(8)" "unat b < 2 ^ LENGTH(8)" by (rule unsigned_less)+
  ultimately show "a = b" by (auto simp: byte_char_def intro: unsigned_word_eqI)
qed simp

lemma TrimRight_no_space: "TrimRight s = [] \<or> last (TrimRight s) \<noteq> CHR '' ''"
  using hd_dropWhile [of "\<lambda>c. c = CHR '' ''" "rev s"] by (auto simp: TrimRight_def last_rev)

lemma dropWhile_replicate: "P c \<Longrightarrow> dropWhile P (replicate n c @ ys) = dropWhile P ys"
  by (induction n) auto

lemma TrimRight_append_spaces: "TrimRight (s @ replicate n (CHR '' '')) = TrimRight s"
  by (simp add: TrimRight_def dropWhile_replicate)

lemma TrimRight_id: "s = [] \<or> last s \<noteq> CHR '' '' \<Longrightarrow> TrimRight s = s"
  by (cases s rule: rev_cases) (auto simp: TrimRight_def)

lemma TrimRight_decompose: "\<exists>n. s = TrimRight s @ replicate n (CHR '' '')"
proof (induction s rule: rev_induct)
  case (snoc c s)
  show ?case
  proof (cases "c = CHR '' ''")
    case True
    then have "TrimRight (s @ [c]) = TrimRight s" by (simp add: TrimRight_def)
    with snoc True show ?thesis by (metis append.assoc replicate_append_same replicate_Suc)
  qed (intro exI [of _ 0], simp add: TrimRight_id)
qed (simp add: TrimRight_def)

section \<open>Integers\<close>

definition digit_char :: "nat \<Rightarrow> char" where
  "digit_char d = (if d < 10 then char_of (48 + d) else char_of (87 + d))"

fun digits :: "nat \<Rightarrow> nat \<Rightarrow> string" where
  "digits b n =
     (if b < 2 \<or> n < b then [digit_char n] else digits b (n div b) @ [digit_char (n mod b)])"

declare digits.simps [simp del]

text \<open>\<open>%d\<close> of an unsigned and of a signed value, \<open>%x\<close>, and the widths.\<close>

definition fmt_d :: "nat \<Rightarrow> string" where
  "fmt_d n = digits 10 n"

definition fmt_int :: "int \<Rightarrow> string" where
  "fmt_int i = (if i < 0 then ''-'' @ fmt_d (nat (- i)) else fmt_d (nat i))"

definition fmt_x :: "nat \<Rightarrow> string" where
  "fmt_x n = digits 16 n"

definition pad_left :: "char \<Rightarrow> nat \<Rightarrow> string \<Rightarrow> string" where
  "pad_left c w s = replicate (w - length s) c @ s"

definition pad_right :: "nat \<Rightarrow> string \<Rightarrow> string" where
  "pad_right w s = s @ replicate (w - length s) (CHR '' '')"

definition fmt_wd :: "nat \<Rightarrow> nat \<Rightarrow> string" where
  "fmt_wd w n = pad_left (CHR '' '') w (fmt_d n)"

definition fmt_0x :: "nat \<Rightarrow> nat \<Rightarrow> string" where
  "fmt_0x w n = pad_left (CHR ''0'') w (fmt_x n)"

text \<open>The value of a decimal numeral, as \<open>strconv\<close> would read it: the specification of \<open>%d\<close>.\<close>

definition dec_value :: "string \<Rightarrow> nat" where
  "dec_value s = foldl (\<lambda>v c. 10 * v + (of_char c - 48)) 0 s"

definition is_digit :: "char \<Rightarrow> bool" where
  "is_digit c \<longleftrightarrow> 48 \<le> (of_char c :: nat) \<and> (of_char c :: nat) \<le> 57"

lemma digit_char_value: "d < 10 \<Longrightarrow> of_char (digit_char d) = 48 + d"
  by (simp add: digit_char_def)

lemma is_digit_char: "d < 10 \<Longrightarrow> is_digit (digit_char d)"
  by (simp add: is_digit_def digit_char_value)

lemma fmt_d_rec: "fmt_d n = (if n < 10 then [digit_char n] else fmt_d (n div 10) @ [digit_char (n mod 10)])"
  by (subst fmt_d_def, subst digits.simps) (simp add: fmt_d_def)

lemma dec_value_snoc: "dec_value (s @ [c]) = 10 * dec_value s + (of_char c - 48)"
  by (simp add: dec_value_def)

lemma fmt_d_value: "dec_value (fmt_d n) = n"
proof (induction n rule: less_induct)
  case (less n)
  show ?case
  proof (cases "n < 10")
    case True
    then show ?thesis by (subst fmt_d_rec) (simp add: dec_value_def digit_char_value)
  next
    case False
    then have "dec_value (fmt_d (n div 10)) = n div 10" by (intro less) simp
    with False show ?thesis
      by (subst fmt_d_rec) (simp add: dec_value_snoc digit_char_value)
  qed
qed

lemma fmt_d_digits: "list_all is_digit (fmt_d n)"
proof (induction n rule: less_induct)
  case (less n)
  then show ?case by (subst fmt_d_rec) (auto simp: is_digit_char)
qed

lemma fmt_d_not_Nil [simp]: "fmt_d n \<noteq> []"
  by (subst fmt_d_rec) simp

lemma fmt_d_inj: "fmt_d m = fmt_d n \<longleftrightarrow> m = n"
  by (metis fmt_d_value)

lemma fmt_d_no_leading_zero: "0 < n \<Longrightarrow> hd (fmt_d n) \<noteq> CHR ''0''"
proof (induction n rule: less_induct)
  case (less n)
  show ?case
  proof (cases "n < 10")
    case True
    have "of_char (hd (fmt_d n)) = (48 + n :: nat)"
      by (subst fmt_d_rec) (simp add: True digit_char_value)
    with less.prems show ?thesis by auto
  next
    case False
    then have "hd (fmt_d (n div 10)) \<noteq> CHR ''0''" by (intro less) simp_all
    with False show ?thesis by (subst fmt_d_rec) (simp add: hd_append)
  qed
qed

lemma length_pad_left: "length (pad_left c w s) = max w (length s)"
  by (simp add: pad_left_def)

section \<open>Float64 quotients\<close>

text \<open>Division rounded to the nearest integer, ties to even.\<close>

definition round_half_even :: "nat \<Rightarrow> nat \<Rightarrow> nat" where
  "round_half_even p q =
     (let d = p div q; r = p mod q
      in if 2 * r < q \<or> (2 * r = q \<and> even d) then d else d + 1)"

fun ilog2 :: "nat \<Rightarrow> nat" where
  "ilog2 n = (if n < 2 then 0 else Suc (ilog2 (n div 2)))"

declare ilog2.simps [simp del]

text \<open>\<open>float64(n)\<close> of an integer: 53 significant bits; the result is again an integer.\<close>

definition float64_of_nat :: "nat \<Rightarrow> nat" where
  "float64_of_nat n =
     (if n < 2 ^ 53 then n
      else let s = ilog2 n - 52 in round_half_even n (2 ^ s) * 2 ^ s)"

text \<open>
  The \<open>float64\<close> quotient \<open>p / q\<close> for \<open>1 \<le> p/q < 2^53\<close>, as a pair \<open>(m, k)\<close> that stands
  for \<open>m / 2^k\<close>: 53 significant bits, \<open>k = 52 - \<lfloor>log2 (p/q)\<rfloor>\<close>.
\<close>

definition float64_div :: "nat \<Rightarrow> nat \<Rightarrow> nat \<times> nat" where
  "float64_div p q = (let k = 52 - ilog2 (p div q) in (round_half_even (p * 2 ^ k) q, k))"

text \<open>\<open>%.Nf\<close>: the exact decimal expansion of the binary value, rounded to \<open>N\<close> places.\<close>

definition fmt_f :: "nat \<Rightarrow> nat \<times> nat \<Rightarrow> string" where
  "fmt_f prec x =
     (let v = round_half_even (fst x * 10 ^ prec) (2 ^ snd x)
      in if prec = 0 then fmt_d v
         else fmt_d (v div 10 ^ prec) @ ''.'' @ pad_left (CHR ''0'') prec (fmt_d (v mod 10 ^ prec)))"

lemma round_half_even_error:
  assumes "0 < q"
  shows "2 * \<bar>int (round_half_even p q) * int q - int p\<bar> \<le> int q"
proof -
  have p: "int p = int (p div q) * int q + int (p mod q)"
    by (metis div_mult_mod_eq of_nat_add of_nat_mult)
  have r: "int (p mod q) < int q" using assms by simp
  show ?thesis
  proof (cases "2 * (p mod q) < q \<or> (2 * (p mod q) = q \<and> even (p div q))")
    case True
    then have "round_half_even p q = p div q" by (simp add: round_half_even_def Let_def)
    with True p show ?thesis by auto
  next
    case False
    then have "round_half_even p q = p div q + 1" by (simp add: round_half_even_def Let_def)
    moreover have "q \<le> 2 * (p mod q)" using False by auto
    ultimately show ?thesis using p r by (simp add: algebra_simps)
  qed
qed

lemma ilog2_bounds: "0 < n \<Longrightarrow> 2 ^ ilog2 n \<le> n \<and> n < 2 ^ Suc (ilog2 n)"
proof (induction n rule: less_induct)
  case (less n)
  show ?case
  proof (cases "n < 2")
    case True
    with less.prems show ?thesis by (subst (1 2) ilog2.simps) auto
  next
    case False
    then have "2 ^ ilog2 (n div 2) \<le> n div 2 \<and> n div 2 < 2 ^ Suc (ilog2 (n div 2))"
      by (intro less.IH) auto
    moreover have "ilog2 n = Suc (ilog2 (n div 2))" using False by (subst ilog2.simps) simp
    ultimately show ?thesis by auto
  qed
qed

lemma ilog2_less: "0 < n \<Longrightarrow> n < 2 ^ k \<Longrightarrow> ilog2 n < k"
  using ilog2_bounds [of n] by (metis linorder_not_less order.strict_trans1 power_increasing_iff one_less_numeral_iff semiring_norm(76))

text \<open>
  A formatted quotient: for an integer that \<open>float64\<close> holds exactly, the two roundings of
  \<open>fmt_f prec (p / q)\<close> together stay within half a unit of the last place printed, up to the
  slack \<open>q * 10^prec / 2^k\<close> of the division.
\<close>

lemma fmt_f_value_error:
  fixes m k p q prec :: nat
  assumes "0 < q" and "(m, k) = float64_div p q"
  defines "v \<equiv> round_half_even (m * 10 ^ prec) (2 ^ k)"
  shows "2 * 2 ^ k * \<bar>int v * int q - int p * 10 ^ prec\<bar> \<le> 2 ^ k * int q + 10 ^ prec * int q"
proof -
  have m: "m = round_half_even (p * 2 ^ k) q" using assms(2) by (simp add: float64_div_def Let_def)
  have e1: "2 * \<bar>int m * int q - int p * 2 ^ k\<bar> \<le> int q"
    using round_half_even_error [OF assms(1), of "p * 2 ^ k"] by (simp add: m)
  have e2: "2 * \<bar>int v * 2 ^ k - int m * 10 ^ prec\<bar> \<le> 2 ^ k"
    using round_half_even_error [of "2 ^ k" "m * 10 ^ prec"] by (simp add: v_def)
  have "(int v * 2 ^ k - int m * 10 ^ prec) * int q + 10 ^ prec * (int m * int q - int p * 2 ^ k) =
      2 ^ k * (int v * int q - int p * 10 ^ prec)"
    by (simp add: algebra_simps)
  then have "2 * 2 ^ k * \<bar>int v * int q - int p * 10 ^ prec\<bar> =
      2 * \<bar>(int v * 2 ^ k - int m * 10 ^ prec) * int q +
          10 ^ prec * (int m * int q - int p * 2 ^ k)\<bar>"
    by (simp add: abs_mult)
  also have "\<dots> \<le> 2 * (\<bar>int v * 2 ^ k - int m * 10 ^ prec\<bar> * int q +
      10 ^ prec * \<bar>int m * int q - int p * 2 ^ k\<bar>)"
    by (intro mult_left_mono order_trans [OF abs_triangle_ineq]) (simp_all add: abs_mult)
  also have "\<dots> = (2 * \<bar>int v * 2 ^ k - int m * 10 ^ prec\<bar>) * int q +
      10 ^ prec * (2 * \<bar>int m * int q - int p * 2 ^ k\<bar>)"
    by (simp add: algebra_simps)
  also have "\<dots> \<le> 2 ^ k * int q + 10 ^ prec * int q"
    by (intro add_mono mult_right_mono mult_left_mono e1 e2) simp_all
  finally show ?thesis .
qed

section \<open>Error messages\<close>

text \<open>\<open>err.Error()\<close> of the errors the program builds.\<close>

fun error_message :: "go_error \<Rightarrow> string" where
  "error_message (WrongLength what want got) =
     what @ '': expected '' @ fmt_d want @ '' bytes, got '' @ fmt_d got"
| "error_message (ChecksumError what) = what @ '': checksum error''"
| "error_message (NotMultiple what n k) =
     what @ '': data length '' @ fmt_d n @ '' not a multiple of '' @ fmt_d k"
| "error_message (FieldNotFound field) = ''field not found: '' @ field"
| "error_message (AmbiguousCylinders lo hi) =
     ''SMART STATUS returned ambiguous cylinder registers: low=0x'' @ fmt_0x 2 (unat lo) @
     '' high=0x'' @ fmt_0x 2 (unat hi)"
| "error_message (AmbiguousStatus lo hi) =
     ''ambiguous SMART STATUS: cylLow=0x'' @ fmt_0x 2 (unat lo) @
     '' cylHigh=0x'' @ fmt_0x 2 (unat hi)"
| "error_message (ShortReply what n) = what @ '': short reply '' @ fmt_d (unat n) @ '' B''"
| "error_message (DriverError d i) =
     ''IOCTL_SMART_RCV_DRIVE_DATA: driver error=0x'' @ fmt_0x 2 (unat d) @
     '' ide error=0x'' @ fmt_0x 2 (unat i)"
| "error_message (StatusDriverError d) = ''SMART STATUS: driver error=0x'' @ fmt_0x 2 (unat d)"
| "error_message (DescriptorTooShort n) =
     ''STORAGE_DEVICE_DESCRIPTOR too short: '' @ fmt_d (unat n) @ '' bytes''"
| "error_message (SysErr m) = m"
| "error_message (Wrapped what e) = what @ '': '' @ error_message e"

end
