(* ===== verification/Ata_Identify.thy ===== *)
theory Ata_Identify
  imports Go_Fmt
begin

text \<open>
  \<open>internal/ata/identify.go\<close>: the IDENTIFY DEVICE response. \<open>ParseIdentify\<close> only checks the
  length; the fields it derives (rotation rate, capacity, sector sizes, strings) are the
  subject of the lemmas.
\<close>

record IdentifyInfo =
  id_ModelNumber :: string
  id_SerialNumber :: string
  id_FirmwareVersion :: string
  id_UserCapacity :: u64
  id_LogicalSectorSize :: u32
  id_PhysicalSectorSize :: u32
  id_RPM :: int
  id_SMARTSupported :: bool
  id_SMARTEnabled :: bool
  id_LBA48 :: bool
  id_ATAVersionMajor :: u16
  id_SATACapabilities :: u16
  id_SATACurrentSpeed :: u8
  id_Raw :: bytes

section \<open>Strings\<close>

text \<open>The loop of \<open>ataString\<close> over \<open>i\<close>; an access out of range would panic.\<close>

function ata_swap_loop :: "nat \<Rightarrow> bytes \<Rightarrow> bytes \<Rightarrow> bytes go" where
  "ata_swap_loop i b out =
     (if i + 1 < length b
      then do {
        y \<leftarrow> index b (i + 1);
        out \<leftarrow> set_index out i y;
        x \<leftarrow> index b i;
        out \<leftarrow> set_index out (i + 1) x;
        ata_swap_loop (i + 2) b out }
      else Some out)"
  by pat_completeness auto
termination
  by (relation "measure (\<lambda>(i, b, out). length b - i)") auto

declare ata_swap_loop.simps [simp del]

definition ataString :: "bytes \<Rightarrow> string go" where
  "ataString b = do {
     out \<leftarrow> ata_swap_loop 0 b (make_bytes (length b));
     Some (TrimRight (to_string out)) }"

text \<open>The reference: the bytes of each pair swapped; an odd last byte is left zero.\<close>

fun swap_pairs :: "bytes \<Rightarrow> bytes" where
  "swap_pairs (x # y # r) = y # x # swap_pairs r"
| "swap_pairs [x] = [0]"
| "swap_pairs [] = []"

lemma length_swap_pairs [simp]: "length (swap_pairs b) = length b"
  by (induction b rule: swap_pairs.induct) auto

lemma swap_pairs_involution: "even (length b) \<Longrightarrow> swap_pairs (swap_pairs b) = b"
  by (induction b rule: swap_pairs.induct) auto

lemma ata_swap_loop_eq:
  "length pre = i \<Longrightarrow> length acc = i \<Longrightarrow>
     ata_swap_loop i (pre @ b) (acc @ make_bytes (length b)) = Some (acc @ swap_pairs b)"
proof (induction b arbitrary: i pre acc rule: swap_pairs.induct)
  case (1 x y r)
  have upd: "(acc @ make_bytes (length (x # y # r)))[i := y, i + 1 := x] =
      (acc @ [y, x]) @ make_bytes (length r)"
    using "1.prems" by (simp add: make_bytes_def list_update_append)
  have len: "length (make_bytes n) = n" for n by (simp add: make_bytes_def)
  have "ata_swap_loop (i + 2) ((pre @ [x, y]) @ r) ((acc @ [y, x]) @ make_bytes (length r)) =
      Some ((acc @ [y, x]) @ swap_pairs r)"
    by (rule "1.IH") (simp_all add: "1.prems")
  then show ?case
    using "1.prems" upd
    by (subst ata_swap_loop.simps) (simp add: index_in set_index_in nth_append len)
next
  case (2 x)
  then show ?case by (subst ata_swap_loop.simps) (simp add: make_bytes_def)
next
  case 3
  then show ?case by (subst ata_swap_loop.simps) (simp add: make_bytes_def)
qed

definition ata_text :: "bytes \<Rightarrow> string" where
  "ata_text b = TrimRight (to_string (swap_pairs b))"

text \<open>No access of the loop is out of range: \<open>out\<close> is as long as \<open>b\<close>.\<close>

lemma ataString_eq: "ataString b = Some (ata_text b)"
  using ata_swap_loop_eq [of "[]" 0 "[]" b] by (simp add: ataString_def ata_text_def)

text \<open>
  The encoding of a string field of \<open>n\<close> bytes (what the ATA standard says a drive sends):
  padded with spaces on the right, then each pair swapped.
\<close>

definition ata_field :: "nat \<Rightarrow> bytes \<Rightarrow> bytes" where
  "ata_field n s = swap_pairs (s @ replicate (n - length s) 0x20)"

lemma to_string_append: "to_string (a @ b) = to_string a @ to_string b"
  by (simp add: to_string_def)

lemma byte_char_space: "byte_char 0x20 = CHR '' ''"
  by code_simp

lemma to_string_spaces: "to_string (replicate n 0x20) = replicate n (CHR '' '')"
  by (simp add: to_string_def byte_char_space)

lemma ata_text_ata_field:
  assumes "even n" and "length s \<le> n"
  shows "ata_text (ata_field n s) = TrimRight (to_string s)"
  using assms
  by (simp add: ata_text_def ata_field_def swap_pairs_involution to_string_append
      to_string_spaces TrimRight_append_spaces)

section \<open>The highest set bit\<close>

text \<open>\<open>for i := 15; i > 0; i--\<close> with a \<open>break\<close> at the first set bit.\<close>

fun highest_bit_loop :: "nat \<Rightarrow> u16 \<Rightarrow> u16" where
  "highest_bit_loop 0 v = 0"
| "highest_bit_loop (Suc i) v =
     (if v AND push_bit (Suc i) 1 \<noteq> 0 then of_nat (Suc i) else highest_bit_loop i v)"

definition highestBit :: "u16 \<Rightarrow> u16" where
  "highestBit v = highest_bit_loop 15 v"

lemma and_push_bit_one: "v AND push_bit n 1 \<noteq> 0 \<longleftrightarrow> bit v n" for v :: "'a::len word"
proof
  assume "bit v n"
  then have "bit (v AND push_bit n 1) n" by (auto simp: bit_simps dest: bit_imp_le_length)
  then show "v AND push_bit n 1 \<noteq> 0" by (metis bit_0_eq bot_apply bot_bool_def)
next
  assume "v AND push_bit n 1 \<noteq> 0"
  then obtain k where "bit (v AND push_bit n 1) k" by (metis bit_eqI bit_0_eq bot_apply bot_bool_def)
  then show "bit v n" by (auto simp: bit_simps)
qed

lemma highest_bit_loop_Suc:
  "highest_bit_loop (Suc i) v = (if bit v (Suc i) then of_nat (Suc i) else highest_bit_loop i v)"
  by (simp only: highest_bit_loop.simps and_push_bit_one)

declare highest_bit_loop.simps(2) [simp del]

lemma highest_bit_loop_char:
  assumes "n < 16"
  shows "\<exists>h \<le> n. highest_bit_loop n v = of_nat h \<and> (h > 0 \<longrightarrow> bit v h) \<and>
    (\<forall>j. h < j \<and> j \<le> n \<longrightarrow> \<not> bit v j)"
  using assms
proof (induction n)
  case (Suc n)
  then obtain h where h: "h \<le> n" "highest_bit_loop n v = of_nat h" "h > 0 \<longrightarrow> bit v h"
    "\<forall>j. h < j \<and> j \<le> n \<longrightarrow> \<not> bit v j" by auto
  show ?case
  proof (cases "bit v (Suc n)")
    case True
    then show ?thesis by (intro exI [of _ "Suc n"]) (auto simp: highest_bit_loop_Suc)
  next
    case False
    then have "highest_bit_loop (Suc n) v = of_nat h"
      using h(2) by (simp add: highest_bit_loop_Suc)
    with False h show ?thesis by (intro exI [of _ h]) (auto simp: le_Suc_eq)
  qed
qed simp

section \<open>The parser\<close>

definition ident_word :: "bytes \<Rightarrow> nat \<Rightarrow> u16 go" where
  "ident_word data n = do { b \<leftarrow> slice data (n * 2) (n * 2 + 2); Uint16 b }"

definition rotation_rate :: "u16 \<Rightarrow> int" where
  "rotation_rate rotRate =
     (if rotRate = 0x0001 then 1
      else if rotRate \<ge> 0x0401 \<and> rotRate \<le> 0xfffe then uint rotRate
      else 0)"

definition total_sectors :: "bytes \<Rightarrow> bool \<Rightarrow> u64 go" where
  "total_sectors data lba48 =
     (if lba48 then do {
        w100 \<leftarrow> ident_word data 100; w101 \<leftarrow> ident_word data 101;
        w102 \<leftarrow> ident_word data 102; w103 \<leftarrow> ident_word data 103;
        let lo = ucast w100 OR push_bit 16 (ucast w101);
        let hi = ucast w102 OR push_bit 16 (ucast w103);
        Some (lo OR push_bit 32 hi) }
      else do {
        w60 \<leftarrow> ident_word data 60; w61 \<leftarrow> ident_word data 61;
        Some (ucast w60 OR push_bit 16 (ucast w61)) })"

definition logical_sector_size :: "bytes \<Rightarrow> u32 go" where
  "logical_sector_size data = do {
     w106 \<leftarrow> ident_word data 106;
     if w106 AND 0x1000 \<noteq> 0 then do {
       w117 \<leftarrow> ident_word data 117; w118 \<leftarrow> ident_word data 118;
       let ls = ucast w117 OR push_bit 16 (ucast w118);
       Some (if ls > 0 then ls * 2 else 512) }
     else Some 512 }"

definition ParseIdentify :: "bytes \<Rightarrow> (go_error + IdentifyInfo) go" where
  "ParseIdentify data =
     (if length data \<noteq> 512 then Some (Inl (WrongLength ''identify'' 512 (length data)))
      else do {
        b \<leftarrow> slice data 54 94; model \<leftarrow> ataString b;
        b \<leftarrow> slice data 20 40; serial \<leftarrow> ataString b;
        b \<leftarrow> slice data 46 54; firmware \<leftarrow> ataString b;
        rotRate \<leftarrow> ident_word data 217;
        w82 \<leftarrow> ident_word data 82;
        w83 \<leftarrow> ident_word data 83;
        let lba48 = (w83 AND 0x0400 \<noteq> 0);
        totalSectors \<leftarrow> total_sectors data lba48;
        lss \<leftarrow> logical_sector_size data;
        w106 \<leftarrow> ident_word data 106;
        let physShift = w106 AND 0x000f;
        w85 \<leftarrow> ident_word data 85;
        w80 \<leftarrow> ident_word data 80;
        w76 \<leftarrow> ident_word data 76;
        w77 \<leftarrow> ident_word data 77;
        Some (Inr \<lparr>
          id_ModelNumber = model,
          id_SerialNumber = serial,
          id_FirmwareVersion = firmware,
          id_UserCapacity = totalSectors * ucast lss,
          id_LogicalSectorSize = lss,
          id_PhysicalSectorSize = push_bit (unat physShift) lss,
          id_RPM = rotation_rate rotRate,
          id_SMARTSupported = (w82 AND 0x0001 \<noteq> 0),
          id_SMARTEnabled = (w85 AND 0x0001 \<noteq> 0),
          id_LBA48 = lba48,
          id_ATAVersionMajor = highestBit w80,
          id_SATACapabilities = w76,
          id_SATACurrentSpeed = ucast (drop_bit 1 w77 AND 0x7),
          id_Raw = data\<rparr>) })"

section \<open>What the fields are\<close>

text \<open>The 16-bit word \<open>n\<close> of a complete response, and the number its bytes denote.\<close>

definition word_at :: "bytes \<Rightarrow> nat \<Rightarrow> u16" where
  "word_at data n = le_word (take 2 (drop (n * 2) data))"

definition num_at :: "bytes \<Rightarrow> nat \<Rightarrow> nat \<Rightarrow> nat" where
  "num_at data off k = le_val (take k (drop off data))"

lemma ident_word_eq:
  "length data = 512 \<Longrightarrow> n < 256 \<Longrightarrow> ident_word data n = Some (word_at data n)"
  by (simp add: ident_word_def slice_in word_at_def Uint16_le_word)

lemma two_words:
  "ucast (word_at data n) OR push_bit 16 (ucast (word_at data (n + 1))) =
     (le_word (take 4 (drop (n * 2) data)) :: 'a::len word)"
  if "length data = 512" "n < 255" "32 \<le> LENGTH('a)" for data n
proof -
  have "take 4 (drop (n * 2) data) = take 2 (drop (n * 2) data) @ take 2 (drop ((n + 1) * 2) data)"
    using take_add [of 2 2 "drop (n * 2) data"] by simp
  then show ?thesis using that
    by (simp add: word_at_def ucast_le_word le_word_append)
qed

lemma total_sectors_eq:
  assumes "length data = 512"
  shows "total_sectors data True = Some (le_word (take 8 (drop 200 data)))"
    and "total_sectors data False = Some (le_word (take 4 (drop 120 data)))"
proof -
  have "take 8 (drop 200 data) = take 4 (drop 200 data) @ take 4 (drop 204 data)"
    using take_add [of 4 4 "drop 200 data"] by simp
  then show "total_sectors data True = Some (le_word (take 8 (drop 200 data)))"
    using assms two_words [OF assms, of 100, where 'a=64] two_words [OF assms, of 102, where 'a=64]
    by (simp add: total_sectors_def ident_word_eq le_word_append del: push_bit_or)
  show "total_sectors data False = Some (le_word (take 4 (drop 120 data)))"
    using assms two_words [OF assms, of 60, where 'a=64]
    by (simp add: total_sectors_def ident_word_eq)
qed

definition lss_field :: "bytes \<Rightarrow> u32" where
  "lss_field data = le_word (take 4 (drop 234 data))"

lemma logical_sector_size_eq:
  assumes "length data = 512"
  shows "logical_sector_size data =
    Some (if word_at data 106 AND 0x1000 \<noteq> 0 \<and> lss_field data > 0 then lss_field data * 2 else 512)"
  using assms two_words [OF assms, of 117, where 'a=32]
  by (simp add: logical_sector_size_def ident_word_eq lss_field_def)

text \<open>The parser in closed form: no read is out of range once the length is right.\<close>

lemma ParseIdentify_eq:
  assumes "length data = 512"
  defines "lba48 \<equiv> word_at data 83 AND 0x0400 \<noteq> 0"
  defines "lss \<equiv> if word_at data 106 AND 0x1000 \<noteq> 0 \<and> lss_field data > 0
    then lss_field data * 2 else 512"
  shows "ParseIdentify data = Some (Inr \<lparr>
    id_ModelNumber = ata_text (take 40 (drop 54 data)),
    id_SerialNumber = ata_text (take 20 (drop 20 data)),
    id_FirmwareVersion = ata_text (take 8 (drop 46 data)),
    id_UserCapacity =
      (if lba48 then le_word (take 8 (drop 200 data)) else le_word (take 4 (drop 120 data))) * ucast lss,
    id_LogicalSectorSize = lss,
    id_PhysicalSectorSize = push_bit (unat (word_at data 106 AND 0x000f)) lss,
    id_RPM = rotation_rate (word_at data 217),
    id_SMARTSupported = (word_at data 82 AND 0x0001 \<noteq> 0),
    id_SMARTEnabled = (word_at data 85 AND 0x0001 \<noteq> 0),
    id_LBA48 = lba48,
    id_ATAVersionMajor = highestBit (word_at data 80),
    id_SATACapabilities = word_at data 76,
    id_SATACurrentSpeed = ucast (drop_bit 1 (word_at data 77) AND 0x7),
    id_Raw = data\<rparr>)"
  using assms(1) total_sectors_eq [OF assms(1)] logical_sector_size_eq [OF assms(1)]
  unfolding ParseIdentify_def lba48_def lss_def
  by (cases "word_at data 83 AND 0x0400 \<noteq> 0") (simp_all add: ataString_eq slice_in ident_word_eq Let_def)

lemma ParseIdentify_total: "ParseIdentify data \<noteq> None"
  by (cases "length data = 512") (simp add: ParseIdentify_eq, simp add: ParseIdentify_def)

lemma ParseIdentify_error_iff: "(\<exists>e. ParseIdentify data = Some (Inl e)) \<longleftrightarrow> length data \<noteq> 512"
  by (cases "length data = 512") (simp add: ParseIdentify_eq, simp add: ParseIdentify_def)

lemma ParseIdentify_okD: "ParseIdentify data = Some (Inr i) \<Longrightarrow> length data = 512"
  using ParseIdentify_error_iff [of data] by (auto simp: ParseIdentify_def split: if_splits)

section \<open>Properties\<close>

text \<open>
  \<open>ataString\<close> undoes the byte order of the ATA standard: the loop over pairs never
  leaves the slice and computes the pairwise swap, and for every text of at most \<open>n\<close>
  bytes, padded with spaces and swapped as a drive sends it, it gives the text back up to
  trailing spaces.
\<close>

lemma ataString_roundtrip:
  "ataString b = Some (ata_text b) \<and>
   ataString (ata_field (2 * n) (take (2 * n) s)) = Some (TrimRight (to_string (take (2 * n) s))) \<and>
   (ata_text b = [] \<or> last (ata_text b) \<noteq> CHR '' '')"
  using TrimRight_no_space [of "to_string (swap_pairs b)"]
  by (simp add: ataString_eq ata_text_ata_field) (simp add: ata_text_def)

text \<open>
  C31. \<open>highestBit\<close> is the binary logarithm, rounded down, of a word of at least 2; the loop
  stops before bit 0, so that 1 gives 0, the result for the empty word.
\<close>

theorem highestBit_log2: "unat (highestBit v) = ilog2 (unat v)"
proof -
  obtain h where h: "h \<le> 15" "highestBit v = of_nat h" "h > 0 \<longrightarrow> bit v h"
    "\<forall>j. h < j \<and> j \<le> 15 \<longrightarrow> \<not> bit v j"
    using highest_bit_loop_char [of 15 v] by (auto simp: highestBit_def)
  have lt: "unat v < 2 ^ Suc h"
  proof -
    have "take_bit (Suc h) v = v"
    proof (rule bit_word_eqI)
      fix j assume "j < LENGTH(16)"
      then have "j \<le> 15" by simp
      with h(4) show "bit (take_bit (Suc h) v) j = bit v j"
        by (cases "j \<le> h") (auto simp: bit_simps not_le)
    qed
    then have "unat v = take_bit (Suc h) (unat v)" by (metis unsigned_take_bit_eq)
    then show ?thesis by (metis take_bit_nat_less_exp)
  qed
  have "ilog2 (unat v) = h"
  proof (cases "h = 0")
    case True
    with lt show ?thesis by (subst ilog2.simps) simp
  next
    case False
    with h(3) have "bit (unat v) h" by (simp add: bit_unsigned_iff)
    then have ge: "2 ^ h \<le> unat v" by (metis bit_nat_def dvd_0_right even_zero linorder_not_less div_less)
    then have "0 < unat v" by (metis less_le_trans zero_less_power zero_less_numeral)
    from ilog2_bounds [OF this] lt ge have "ilog2 (unat v) < Suc h" "h < Suc (ilog2 (unat v))"
      by (meson order.strict_trans1 order.strict_trans2 power_less_imp_less_exp one_less_numeral_iff
          semiring_norm(76))+
    then show ?thesis by simp
  qed
  with h(1,2) show ?thesis by (simp add: unat_of_nat)
qed

text \<open>
  \<open>ParseIdentify\<close> never panics; it fails exactly on responses that have not 512 bytes.
\<close>

lemma ParseIdentify_errors:
  "ParseIdentify data \<noteq> None \<and>
   (ParseIdentify data = Some (Inl e) \<longleftrightarrow>
     length data \<noteq> 512 \<and> e = WrongLength ''identify'' 512 (length data))"
  by (cases "length data = 512") (simp add: ParseIdentify_eq, auto simp: ParseIdentify_def)

lemma unat_ucast_32_64: "unat (ucast (x :: u32) :: u64) = unat x"
proof -
  have "unat x < 2 ^ LENGTH(32)" by (rule unsigned_less)
  then show ?thesis by (simp add: unsigned_ucast_eq take_bit_nat_eq_self)
qed

lemma num_at_less: "num_at data off k < 256 ^ k"
proof -
  have "le_val (take k (drop off data)) < 256 ^ length (take k (drop off data))"
    by (rule le_val_less)
  also have "\<dots> \<le> 256 ^ k" by (intro power_increasing) simp_all
  finally show ?thesis by (simp add: num_at_def)
qed

text \<open>
  C29. The capacity of an accepted response is sectors times logical sector size: without
  wrap-around for the 28-bit sector count (bytes 120 to 123), and modulo \<open>2^64\<close> for the
  48-bit one (bytes 200 to 207, all eight of which are read). The rotation rate is 0, 1 or
  a rate the standard defines.
\<close>

theorem ParseIdentify_capacity:
  assumes "ParseIdentify data = Some (Inr i)"
  shows "unat (id_UserCapacity i) =
      (if id_LBA48 i then num_at data 200 8 * unat (id_LogicalSectorSize i) mod 2 ^ 64
       else num_at data 120 4 * unat (id_LogicalSectorSize i)) \<and>
    id_RPM i \<in> {0, 1} \<union> {0x401..0xfffe}"
proof -
  note len = ParseIdentify_okD [OF assms]
  define lss where "lss = id_LogicalSectorSize i"
  have cap: "id_UserCapacity i = (if id_LBA48 i then le_word (take 8 (drop 200 data))
      else le_word (take 4 (drop 120 data))) * ucast lss"
    using assms unfolding ParseIdentify_eq [OF len] by (auto simp: lss_def)
  have rpm: "id_RPM i = rotation_rate (word_at data 217)"
    using assms unfolding ParseIdentify_eq [OF len] by auto
  have w: "unat (le_word (take 8 (drop 200 data)) :: u64) = num_at data 200 8"
    "unat (le_word (take 4 (drop 120 data)) :: u64) = num_at data 120 4"
    using len by (simp_all add: unat_le_word num_at_def)
  have "unat lss < 2 ^ LENGTH(32)" by (rule unsigned_less)
  then have "num_at data 120 4 * unat lss < 2 ^ 32 * 2 ^ 32"
    using num_at_less [of data 120 4] by (intro mult_strict_mono) auto
  then have "unat (id_UserCapacity i) =
      (if id_LBA48 i then num_at data 200 8 * unat lss mod 2 ^ 64 else num_at data 120 4 * unat lss)"
    by (simp add: cap unat_word_ariths w unat_ucast_32_64)
  moreover have "rotation_rate r \<in> {0, 1} \<union> {0x401..0xfffe}" for r
    by (auto simp: rotation_rate_def word_le_def)
  ultimately show ?thesis by (simp add: rpm lss_def)
qed

text \<open>
  C30. A drive that sends its model, serial and firmware strings the standard's way (padded,
  byte pairs swapped, at their offsets) gets them reported as it meant them.
\<close>

theorem ParseIdentify_strings:
  assumes "length head = 20" and "length gap = 6" and "length tail = 418"
    and "length serial \<le> 20" and "length firmware \<le> 8" and "length model \<le> 40"
  shows "\<exists>i. ParseIdentify (head @ ata_field 20 serial @ gap @ ata_field 8 firmware @
      ata_field 40 model @ tail) = Some (Inr i) \<and>
    id_SerialNumber i = TrimRight (to_string serial) \<and>
    id_FirmwareVersion i = TrimRight (to_string firmware) \<and>
    id_ModelNumber i = TrimRight (to_string model)"
proof -
  have len: "length (ata_field 20 serial) = 20" "length (ata_field 8 firmware) = 8"
    "length (ata_field 40 model) = 40"
    using assms by (simp_all add: ata_field_def)
  let ?d = "head @ ata_field 20 serial @ gap @ ata_field 8 firmware @ ata_field 40 model @ tail"
  have "take 20 (drop 20 ?d) = ata_field 20 serial" "take 8 (drop 46 ?d) = ata_field 8 firmware"
    "take 40 (drop 54 ?d) = ata_field 40 model" "length ?d = 512"
    using assms len by simp_all
  then show ?thesis using assms by (simp add: ParseIdentify_eq ata_text_ata_field)
qed

theorem ParseIdentify_strings_witness:
  "\<exists>i. ParseIdentify (replicate 20 0 @ ata_field 20 [0x53, 0x31] @ replicate 6 0 @
      ata_field 8 [0x46] @ ata_field 40 [0x4d, 0x20] @ replicate 418 0) = Some (Inr i) \<and>
    id_SerialNumber i = ''S1'' \<and> id_FirmwareVersion i = ''F'' \<and> id_ModelNumber i = ''M''"
proof -
  have "TrimRight (to_string [0x53, 0x31]) = ''S1''" "TrimRight (to_string [0x46]) = ''F''"
    "TrimRight (to_string [0x4d, 0x20]) = ''M''"
    by code_simp+
  with ParseIdentify_strings [of "replicate 20 0" "replicate 6 0" "replicate 418 0"
      "[0x53, 0x31]" "[0x46]" "[0x4d, 0x20]"]
  show ?thesis by simp
qed

text \<open>A 28-bit drive of 0x200 sectors of 512 bytes, spinning at 7200 rpm.\<close>

definition sample_identify :: bytes where
  "sample_identify = (replicate 512 0)[121 := 2, 434 := 0x20, 435 := 0x1c]"

theorem ParseIdentify_capacity_witness:
  "\<exists>i. ParseIdentify sample_identify = Some (Inr i) \<and> unat (id_UserCapacity i) = 0x200 * 512 \<and>
     id_RPM i = 7200"
proof -
  have len: "length sample_identify = 512" by (simp add: sample_identify_def)
  have words: "word_at sample_identify 83 = 0" "word_at sample_identify 106 = 0"
    "word_at sample_identify 217 = 7200" "num_at sample_identify 120 4 = 0x200"
    by code_simp+
  obtain i where i: "ParseIdentify sample_identify = Some (Inr i)" "\<not> id_LBA48 i"
    "id_LogicalSectorSize i = 512" "id_RPM i = 7200"
    using ParseIdentify_eq [OF len] by (simp add: words rotation_rate_def)
  with ParseIdentify_capacity [OF i(1)] words(4) show ?thesis by simp
qed

end
