(* ===== verification/Printer_Ata.thy ===== *)
theory Printer_Ata
  imports Ata_Logs Ata_Attr Ata_Identify
begin

text \<open>
  \<open>internal/printer/ata.go\<close>: the text of \<open>gosmart <device>\<close> for an ATA drive. A printer
  is the string it appends to its writer; it is partial (\<open>go\<close>) where the code indexes an
  array, and the lemmas show that no index is out of range on the records the parsers return.
\<close>

section \<open>Numbers\<close>

text \<open>\<open>formatComma\<close>: the loop over the digits, with \<open>n = len(s)\<close> and the position \<open>i\<close>.\<close>

fun comma_loop :: "nat \<Rightarrow> nat \<Rightarrow> string \<Rightarrow> string" where
  "comma_loop n i [] = []"
| "comma_loop n i (c # cs) =
     (let pos = n - i
      in (if i > 0 \<and> pos mod 3 = 0 then [CHR '','', c] else [c]) @ comma_loop n (i + 1) cs)"

definition formatComma :: "u64 \<Rightarrow> string" where
  "formatComma n = (let s = fmt_d (unat n) in comma_loop (length s) 0 s)"

definition formatCapacity :: "u64 \<Rightarrow> string" where
  "formatCapacity b =
     (let gb = 1000000000; tb = 1000000000000; pb = 1000000000000000; n = unat b
      in if pb \<le> n then fmt_f 1 (float64_div (float64_of_nat n) pb) @ '' PB''
         else if tb \<le> n then fmt_f 1 (float64_div (float64_of_nat n) tb) @ '' TB''
         else if gb \<le> n then fmt_f 0 (float64_div (float64_of_nat n) gb) @ '' GB''
         else fmt_d (n div 1000000) @ '' MB'')"

section \<open>The header and the information section\<close>

text \<open>\<open>version\<close> is the package variable \<open>Version\<close>; the path argument is not printed.\<close>

definition printHeader :: "string \<Rightarrow> string \<Rightarrow> string" where
  "printHeader version path =
     version @ nl @ ''Copyright (C) 2002-26, smartmontools contributors'' @ nl @ nl"

definition printATAInfo :: "IdentifyInfo \<Rightarrow> string" where
  "printATAInfo i =
     ''=== START OF INFORMATION SECTION ==='' @ nl @
     ''Device Model:     '' @ id_ModelNumber i @ nl @
     ''Serial Number:    '' @ id_SerialNumber i @ nl @
     ''Firmware Version: '' @ id_FirmwareVersion i @ nl @
     ''User Capacity:    '' @ formatComma (id_UserCapacity i) @ '' bytes ['' @
       formatCapacity (id_UserCapacity i) @ '']'' @ nl @
     (if id_LogicalSectorSize i = id_PhysicalSectorSize i
      then ''Sector Size:      '' @ fmt_d (unat (id_LogicalSectorSize i)) @
        '' bytes logical/physical'' @ nl
      else ''Sector Sizes:     '' @ fmt_d (unat (id_LogicalSectorSize i)) @ '' bytes logical, '' @
        fmt_d (unat (id_PhysicalSectorSize i)) @ '' bytes physical'' @ nl) @
     (if id_RPM i = 0 then []
      else if id_RPM i = 1 then ''Rotation Rate:    Solid State Device'' @ nl
      else ''Rotation Rate:    '' @ fmt_int (id_RPM i) @ '' rpm'' @ nl) @
     (if id_SMARTSupported i
      then ''SMART support is: Available - device has SMART capability.'' @ nl @
        (if id_SMARTEnabled i then ''SMART support is: Enabled'' @ nl
         else ''SMART support is: Disabled'' @ nl)
      else ''SMART support is: Unavailable - device lacks SMART capability.'' @ nl) @
     nl"

section \<open>General SMART values\<close>

definition offline_status_text :: "u8 \<Rightarrow> string" where
  "offline_status_text offStatus =
     (let act = ''Offline data collection activity'' @ nl @ tabs 5; v = offStatus AND 0x7f
      in if v = 0x00 then act @ ''was never started.'' @ nl
         else if v = 0x02 then act @ ''was completed without error.'' @ nl
         else if v = 0x04 then act @ ''was suspended by an interrupting command from host.'' @ nl
         else if v = 0x05 then act @ ''was aborted by an interrupting command from host.'' @ nl
         else if v = 0x06 then act @ ''was aborted by the device with a fatal error.'' @ nl
         else ''Vendor specific.'' @ nl)"

definition self_test_exec_text :: "u8 \<Rightarrow> string" where
  "self_test_exec_text stStatus =
     (let stResult = drop_bit 4 stStatus; stPerc = stStatus AND 0x0f; ind = nl @ tabs 5
      in if stResult = 0 then ''The previous self-test routine completed'' @ ind @
           ''without error or no self-test has ever'' @ ind @ ''been run.'' @ nl
         else if stResult = 1 then ''The self-test routine was aborted by'' @ ind @
           ''the host.'' @ nl
         else if stResult = 2 then ''The self-test routine was interrupted'' @ ind @
           ''by the host with a hard or soft reset.'' @ nl
         else if stResult = 3 then ''A fatal error or unknown test error'' @ ind @
           ''occurred while the device was executing'' @ ind @
           ''its self-test routine and the device'' @ ind @
           ''was unable to complete the self-test'' @ ind @ ''routine.'' @ nl
         else if stResult = 4 then ''The previous self-test completed having'' @ ind @
           ''a test element that failed and the test'' @ ind @
           ''element that failed is not known.'' @ nl
         else if stResult = 5 then ''The previous self-test completed having'' @ ind @
           ''the electrical element of the test'' @ ind @ ''failed.'' @ nl
         else if stResult = 6 then ''The previous self-test completed having'' @ ind @
           ''the servo (and/or seek) element of the'' @ ind @ ''test failed.'' @ nl
         else if stResult = 7 then ''The previous self-test completed having'' @ ind @
           ''the read element of the test failed.'' @ nl
         else if stResult = 8 then ''The previous self-test completed having'' @ ind @
           ''a test element that failed and the'' @ ind @
           ''device is suspected of having handling'' @ ind @ ''damage.'' @ nl
         else if stResult = 15 then ''Self-test routine in progress...'' @ ind @
           fmt_d (unat (stPerc * 10)) @ ''% of test remaining.'' @ nl
         else ''Unknown/reserved test status.'' @ nl)"

text \<open>A capability line: the text for a set bit, else the alternative (possibly nothing).\<close>

abbreviation when_bit :: "'a::len word \<Rightarrow> 'a word \<Rightarrow> string \<Rightarrow> string \<Rightarrow> string" where
  "when_bit v m yes no \<equiv> (if v AND m \<noteq> 0 then yes else no)"

definition offline_cap_text :: "u8 \<Rightarrow> string" where
  "offline_cap_text cap =
     when_bit cap 0x01 (''SMART execute Offline immediate.'' @ nl)
       (''No SMART execute Offline immediate.'' @ nl) @
     when_bit cap 0x04 (tabs 5 @ ''Auto Offline data collection on/off support.'' @ nl)
       (tabs 5 @ ''No Auto Offline data collection support.'' @ nl) @
     when_bit cap 0x08 (tabs 5 @ ''Suspend Offline collection upon new command.'' @ nl)
       (tabs 5 @ ''Abort Offline collection upon new command.'' @ nl) @
     when_bit cap 0x10 (tabs 5 @ ''Offline surface scan supported.'' @ nl) [] @
     when_bit cap 0x20 (tabs 5 @ ''Self-test supported.'' @ nl) [] @
     when_bit cap 0x40 (tabs 5 @ ''Conveyance Self-test supported.'' @ nl) [] @
     when_bit cap 0x80 (tabs 5 @ ''Selective Self-test supported.'' @ nl) []"

definition extended_test_time :: "SmartValues \<Rightarrow> nat" where
  "extended_test_time sv =
     (if sv_ExtendTestCompletionTimeB sv = 0xff then unat (sv_ExtendTestCompletionTimeW sv)
      else unat (sv_ExtendTestCompletionTimeB sv))"

definition printGeneralValues :: "SmartValues \<Rightarrow> string" where
  "printGeneralValues sv =
     ''General SMART Values:'' @ nl @
     ''Offline data collection status:  (0x'' @
       fmt_0x 2 (unat (sv_OfflineDataCollectionStatus sv)) @ '')'' @ tabs 1 @
     offline_status_text (sv_OfflineDataCollectionStatus sv) @
     when_bit (sv_OfflineDataCollectionStatus sv) 0x80
       (tabs 5 @ ''Auto Offline Data Collection: Enabled.'' @ nl)
       (tabs 5 @ ''Auto Offline Data Collection: Disabled.'' @ nl) @
     ''Self-test execution status:      ('' @ fmt_wd 4 (unat (sv_SelfTestExecStatus sv)) @
       '')'' @ tabs 1 @
     self_test_exec_text (sv_SelfTestExecStatus sv) @
     ''Total time to complete Offline'' @ nl @ ''data collection:'' @ tabs 2 @ ''('' @
       fmt_wd 5 (unat (sv_TotalTimeOfflineSeconds sv)) @ '') seconds.'' @ nl @
     ''Offline data collection'' @ nl @ ''capabilities:'' @ tabs 3 @ '' (0x'' @
       fmt_0x 2 (unat (sv_OfflineDataCollectionCap sv)) @ '')'' @ tabs 1 @
     offline_cap_text (sv_OfflineDataCollectionCap sv) @
     ''SMART capabilities:            (0x'' @ fmt_0x 4 (unat (sv_SmartCapability sv)) @
       '')'' @ tabs 1 @
     when_bit (sv_SmartCapability sv) 0x01
       (''Saves SMART data before entering'' @ nl @ tabs 5 @ ''power-saving mode.'' @ nl) [] @
     when_bit (sv_SmartCapability sv) 0x02 (tabs 5 @ ''Supports SMART auto save timer.'' @ nl) [] @
     ''Error logging capability:        (0x'' @ fmt_0x 2 (unat (sv_ErrorlogCapability sv)) @
       '')'' @ tabs 1 @
     when_bit (sv_ErrorlogCapability sv) 0x01
       (''Error logging supported.'' @ nl @ tabs 5 @ ''General Purpose Logging supported.'' @ nl)
       (''Error logging NOT supported.'' @ nl) @
     ''Short self-test routine'' @ nl @ ''recommended polling time:'' @ tabs 1 @ '' ('' @
       fmt_wd 4 (unat (sv_ShortTestCompletionTime sv)) @ '') minutes.'' @ nl @
     ''Extended self-test routine'' @ nl @ ''recommended polling time:'' @ tabs 1 @ '' ('' @
       fmt_wd 4 (extended_test_time sv) @ '') minutes.'' @ nl @
     (if sv_ConveyanceTestCompletionTime sv > 0
      then ''Conveyance self-test routine'' @ nl @ ''recommended polling time:'' @ tabs 1 @ '' ('' @
        fmt_wd 4 (unat (sv_ConveyanceTestCompletionTime sv)) @ '') minutes.'' @ nl
      else [])"

section \<open>The attribute table\<close>

definition when_failed :: "Attribute \<Rightarrow> u8 \<Rightarrow> string" where
  "when_failed a threshold =
     (if threshold > 0 \<and> attr_Current a \<le> threshold then ''FAILING_NOW''
      else if threshold > 0 \<and> attr_Worst a \<le> threshold then ''In_the_past''
      else ''-'')"

definition attribute_line :: "Attribute \<Rightarrow> u8 \<Rightarrow> int \<Rightarrow> string go" where
  "attribute_line a threshold rpm = do {
     raw \<leftarrow> RawValue48 a;
     let typeStr = (if IsPrefailure a then ''Pre-fail'' else ''Old_age'');
     let updStr = (if \<not> IsOnline a then ''Offline'' else ''Always'');
     Some (fmt_wd 3 (unat (attr_ID a)) @ '' '' @ pad_right 24 (AttrName (attr_ID a) rpm) @ '' 0x'' @
       fmt_0x 4 (unat (attr_Flags a)) @ ''   '' @ fmt_wd 3 (unat (attr_Current a)) @ ''   '' @
       fmt_wd 3 (unat (attr_Worst a)) @ ''   '' @ fmt_wd 3 (unat threshold) @ ''    '' @
       pad_right 10 typeStr @ pad_right 9 updStr @ pad_right 12 (when_failed a threshold) @ '' '' @
       fmt_d (unat raw) @ nl) }"

text \<open>One turn of the loop: slot \<open>i\<close> of the two parallel arrays.\<close>

definition attribute_row :: "SmartValues \<Rightarrow> SmartThresholds \<Rightarrow> int \<Rightarrow> nat \<Rightarrow> string go" where
  "attribute_row sv st rpm i = do {
     a \<leftarrow> index (sv_Attributes sv) i;
     if attr_ID a = 0 then Some []
     else do {
       threshold \<leftarrow> index (st_Thresholds st) i;
       attribute_line a threshold rpm } }"

definition printAttributes :: "SmartValues \<Rightarrow> SmartThresholds \<Rightarrow> int \<Rightarrow> string go" where
  "printAttributes sv st rpm = do {
     rows \<leftarrow> fill NumAttributes (attribute_row sv st rpm);
     Some (''SMART Attributes Data Structure revision number: '' @
         fmt_d (unat (sv_RevNumber sv)) @ nl @
       ''Vendor Specific SMART Attributes with Thresholds:'' @ nl @
       ''ID# ATTRIBUTE_NAME          FLAG     VALUE WORST THRESH TYPE      UPDATED  WHEN_FAILED RAW_VALUE'' @
         nl @
       concat rows) }"

section \<open>The error log\<close>

text \<open>Go's \<open>%\<close> truncates towards zero; a negative index panics.\<close>

definition go_rem :: "int \<Rightarrow> int \<Rightarrow> int" where
  "go_rem a b = sgn a * (\<bar>a\<bar> mod \<bar>b\<bar>)"

definition index_int :: "'a list \<Rightarrow> int \<Rightarrow> 'a go" where
  "index_int xs i = (if i < 0 then None else index xs (nat i))"

definition error_entry_index :: "u8 \<Rightarrow> nat \<Rightarrow> int" where
  "error_entry_index ptr n = go_rem (uint ptr - 1 - int n + 5) 5"

definition hex2 :: "u8 \<Rightarrow> string" where
  "hex2 b = fmt_0x 2 (unat b)"

definition command_line :: "ErrorCommand \<Rightarrow> string" where
  "command_line c =
     (if cmd_CommandReg c = 0 then []
      else tabs 1 @ ''0x'' @ hex2 (cmd_DeviceControlReg c) @ '' 0x'' @ hex2 (cmd_FeaturesReg c) @
        '' 0x'' @ hex2 (cmd_SectorCount c) @ '' 0x'' @ hex2 (cmd_SectorNumber c) @
        '' 0x'' @ hex2 (cmd_CylinderLow c) @ '' 0x'' @ hex2 (cmd_CylinderHigh c) @
        '' 0x'' @ hex2 (cmd_DriveHead c) @ '' 0x'' @ hex2 (cmd_CommandReg c) @ '' '' @
        fmt_wd 10 (unat (cmd_TimestampMs c)) @ ''  -'' @ nl)"

definition error_record_line :: "ErrorRecord \<Rightarrow> string" where
  "error_record_line e =
     tabs 1 @ ''Error: 0x'' @ hex2 (er_ErrorReg e) @ ''  LBA = 0x'' @ hex2 (er_CylinderHigh e) @
     hex2 (er_CylinderLow e) @ hex2 (er_SectorNumber e) @ hex2 (er_SectorCount e) @
     ''  Count = 0x'' @ hex2 (er_SectorCount e) @ nl"

definition print_error_entry :: "SmartErrorLog \<Rightarrow> nat \<Rightarrow> string go" where
  "print_error_entry el n = do {
     entry \<leftarrow> index_int (el_Entries el) (error_entry_index (el_LogPointer el) n);
     cmds \<leftarrow> fill 5 (\<lambda>k. do { cmd \<leftarrow> index (ee_Commands entry) (4 - k); Some (command_line cmd) });
     Some (''Error '' @ fmt_d (unat (el_ATAErrorCount el - of_nat n)) @
       '' occurred at disk power-on lifetime: '' @
       fmt_d (unat (er_TimestampMin (ee_Error entry)) div 60) @ '' hours'' @ nl @
       concat cmds @ error_record_line (ee_Error entry)) }"

definition error_entries_shown :: "SmartErrorLog \<Rightarrow> nat" where
  "error_entries_shown el =
     (if unat (el_ATAErrorCount el) > 5 then 5 else unat (el_ATAErrorCount el))"

definition printErrorLog :: "SmartErrorLog \<Rightarrow> string go" where
  "printErrorLog el =
     (if el_ATAErrorCount el = 0
      then Some (''SMART Error Log Version: '' @ fmt_d (unat (el_RevNumber el)) @ nl @
        ''No Errors Logged'' @ nl)
      else do {
        entries \<leftarrow> fill (error_entries_shown el) (print_error_entry el);
        Some (''SMART Error Log Version: '' @ fmt_d (unat (el_RevNumber el)) @ nl @
          ''ATA Error Count: '' @ fmt_d (unat (el_ATAErrorCount el)) @ nl @
          tabs 1 @ ''DCR  FR  SC  SN  CL  CH  DH  CMD     TIMESTAMP  Err-Desc'' @ nl @
          concat entries) })"

section \<open>The self-test logs\<close>

definition selfTestTypeName :: "u8 \<Rightarrow> string" where
  "selfTestTypeName num =
     (let v = num AND 0x7f
      in if v = 0x01 then ''Short offline''
         else if v = 0x02 then ''Extended offline''
         else if v = 0x03 then ''Conveyance offline''
         else if v = 0x04 then ''Selective offline''
         else if v = 0x81 then ''Short captive''
         else if v = 0x82 then ''Extended captive''
         else if v = 0x83 then ''Conveyance captive''
         else if v = 0x84 then ''Selective captive''
         else ''Unknown'')"

definition selfTestStatusString :: "u8 \<Rightarrow> string" where
  "selfTestStatusString result =
     (if result = 0 then ''Completed without error''
      else if result = 1 then ''Aborted by host''
      else if result = 2 then ''Interrupted (host reset)''
      else if result = 3 then ''Fatal or unknown error''
      else if result = 4 then ''Completed: unknown failure''
      else if result = 5 then ''Completed: electrical failure''
      else if result = 6 then ''Completed: servo/seek failure''
      else if result = 7 then ''Completed: read failure''
      else if result = 8 then ''Completed: handling damage''
      else if result = 15 then ''Self-test in progress''
      else ''Unknown status'')"

definition self_test_line :: "nat \<Rightarrow> SelfTestEntry \<Rightarrow> string" where
  "self_test_line i e =
     (if te_TestNumber e = 0 then []
      else let
        remaining = SelfTestPercRemaining e * 10;
        lba = (if SelfTestResult e \<noteq> 0 \<and> te_LBAFirstFailure e \<noteq> 0xffffffff
               then ''0x'' @ fmt_0x 8 (unat (te_LBAFirstFailure e)) else ''-'')
      in ''#'' @ fmt_wd 2 (i + 1) @ ''  '' @ pad_right 19 (selfTestTypeName (te_TestNumber e)) @
         '' '' @ pad_right 26 (selfTestStatusString (SelfTestResult e)) @ '' '' @
         fmt_wd 3 (unat remaining) @ ''%   '' @ fmt_wd 8 (unat (te_TimestampHours e)) @
         ''         '' @ lba @ nl)"

definition printSelfTestLog :: "SmartSelfTestLog \<Rightarrow> string" where
  "printSelfTestLog sl =
     ''SMART Self-test log structure revision number '' @ fmt_d (unat (sl_RevNumber sl)) @ nl @
     (if \<not> (\<exists>e \<in> set (sl_Entries sl). te_TestNumber e \<noteq> 0)
      then ''No self-tests have been logged.  [To run self-tests, use: smartctl -t]'' @ nl
      else ''Num  Test_Description    Status                  Remaining  LifeTime(hours)  LBA_of_first_error'' @
        nl @
        concat (map (\<lambda>(i, e). self_test_line i e) (enumerate 0 (sl_Entries sl))))"

definition span_line :: "nat \<Rightarrow> SelectiveTestSpan \<Rightarrow> string" where
  "span_line i s =
     ''    '' @ fmt_d (i + 1) @ '' '' @ fmt_wd 8 (unat (span_MinLBA s)) @ '' '' @
     fmt_wd 8 (unat (span_MaxLBA s)) @ ''  '' @
     (if span_Status s \<noteq> 0 then ''0x'' @ fmt_0x 4 (unat (span_Status s)) else ''Not_testing'') @ nl"

definition printSelectiveSelfTestLog :: "SmartSelectiveSelfTestLog \<Rightarrow> string" where
  "printSelectiveSelfTestLog sl =
     ''SMART Selective self-test log data structure revision number '' @
       fmt_d (unat (ssl_RevNumber sl)) @ nl @
     '' SPAN  MIN_LBA  MAX_LBA  CURRENT_TEST_STATUS'' @ nl @
     concat (map (\<lambda>(i, s). span_line i s) (enumerate 0 (ssl_Spans sl))) @
     ''Selective self-test flags (0x'' @ fmt_x (unat (ssl_Flags sl)) @ ''):'' @ nl @
     when_bit (ssl_Flags sl) 0x01
       (''  After scanning selected spans, read-scan remainder of disk.'' @ nl)
       (''  After scanning selected spans, do NOT read-scan remainder of disk.'' @ nl) @
     ''If Selective self-test is pending on power-up, resume after 0 minute delay.'' @ nl"

section \<open>The whole report\<close>

text \<open>A nil pointer is \<open>None\<close>; a section whose data is missing is left out.\<close>

definition section_of :: "('a \<Rightarrow> string go) \<Rightarrow> 'a option \<Rightarrow> string go" where
  "section_of print x =
     (case x of None \<Rightarrow> Some [] | Some v \<Rightarrow> do { s \<leftarrow> print v; Some (s @ nl) })"

definition printSMARTSection ::
    "IdentifyInfo \<Rightarrow> SmartValues option \<Rightarrow> SmartThresholds option \<Rightarrow> bool \<Rightarrow>
     SmartErrorLog option \<Rightarrow> SmartSelfTestLog option \<Rightarrow> SmartSelectiveSelfTestLog option \<Rightarrow>
     string go" where
  "printSMARTSection i sv st smartFailing errLog selfTestLog selTestLog = do {
     values \<leftarrow> (case sv of
         None \<Rightarrow> Some []
       | Some v \<Rightarrow> do {
           attrs \<leftarrow> section_of (\<lambda>t. printAttributes v t (id_RPM i)) st;
           Some (printGeneralValues v @ nl @ attrs) });
     errors \<leftarrow> section_of printErrorLog errLog;
     tests \<leftarrow> section_of (\<lambda>l. Some (printSelfTestLog l)) selfTestLog;
     Some (''=== START OF READ SMART DATA SECTION ==='' @ nl @
       (if smartFailing
        then ''SMART overall-health self-assessment test result: FAILED!'' @ nl @
          ''Drive failure expected in less than 24 hours. SAVE ALL DATA.'' @ nl
        else ''SMART overall-health self-assessment test result: PASSED'' @ nl) @ nl @
       values @ errors @ tests @
       (case selTestLog of None \<Rightarrow> [] | Some l \<Rightarrow> printSelectiveSelfTestLog l)) }"

definition PrintATAAll ::
    "string \<Rightarrow> string \<Rightarrow> IdentifyInfo \<Rightarrow> SmartValues option \<Rightarrow> SmartThresholds option \<Rightarrow> bool \<Rightarrow>
     SmartErrorLog option \<Rightarrow> SmartSelfTestLog option \<Rightarrow> SmartSelectiveSelfTestLog option \<Rightarrow>
     string go" where
  "PrintATAAll version path i sv st smartFailing errLog selfTestLog selTestLog = do {
     smart \<leftarrow> printSMARTSection i sv st smartFailing errLog selfTestLog selTestLog;
     Some (printHeader version path @ printATAInfo i @ smart) }"

section \<open>Thousands separators\<close>

text \<open>The specification: the quotient by 1000, a comma, and the last three digits.\<close>

fun commas :: "nat \<Rightarrow> string" where
  "commas n =
     (if n < 1000 then fmt_d n
      else commas (n div 1000) @ '','' @ pad_left (CHR ''0'') 3 (fmt_d (n mod 1000)))"

declare commas.simps [simp del]

lemma comma_loop_append:
  "comma_loop n i (xs @ ys) = comma_loop n i xs @ comma_loop n (i + length xs) ys"
  by (induction xs arbitrary: i) (simp_all add: Let_def)

lemma comma_loop_shift: "i + length xs \<le> n \<Longrightarrow> comma_loop (n + 3) i xs = comma_loop n i xs"
proof (induction xs arbitrary: i)
  case (Cons c cs)
  then have "n + 3 - i = (n - i) + 3" by simp
  then have "(n + 3 - i) mod 3 = (n - i) mod 3" by (metis mod_add_self2)
  with Cons show ?case by (simp add: Let_def)
qed simp

lemma comma_loop_short: "length xs \<le> n - i \<Longrightarrow> n - i < 3 \<Longrightarrow> comma_loop n i xs = xs"
proof (induction xs arbitrary: i)
  case (Cons c cs)
  then have "(n - i) mod 3 \<noteq> 0" by auto
  with Cons show ?case by (simp add: Let_def)
qed simp

lemma comma_loop_start: "length xs = n \<Longrightarrow> n \<le> 3 \<Longrightarrow> comma_loop n 0 xs = xs"
  by (cases xs) (auto simp: Let_def comma_loop_short)

lemma comma_loop_last: "0 < i \<Longrightarrow> comma_loop (i + 3) i [a, b, c] = [CHR '','', a, b, c]"
  by (simp add: Let_def)

definition last_three :: "nat \<Rightarrow> string" where
  "last_three n = [digit_char (n div 100 mod 10), digit_char (n div 10 mod 10), digit_char (n mod 10)]"

lemma fmt_d_one: "n < 10 \<Longrightarrow> fmt_d n = [digit_char n]"
  by (subst fmt_d_rec) simp

lemma fmt_d_snoc: "10 \<le> n \<Longrightarrow> fmt_d n = fmt_d (n div 10) @ [digit_char (n mod 10)]"
  by (subst fmt_d_rec) simp

lemma div_100_1000: "(n::nat) div 10 div 10 = n div 100" "(n::nat) div 100 div 10 = n div 1000"
  by (simp_all flip: div_mult2_eq)

lemma fmt_d_split:
  assumes "1000 \<le> n"
  shows "fmt_d n = fmt_d (n div 1000) @ last_three n"
proof -
  have "10 \<le> n div 100" "10 \<le> n div 10" "10 \<le> n" using assms by auto
  then have "fmt_d (n div 100) = fmt_d (n div 1000) @ [digit_char (n div 100 mod 10)]"
    "fmt_d (n div 10) = fmt_d (n div 100) @ [digit_char (n div 10 mod 10)]"
    "fmt_d n = fmt_d (n div 10) @ [digit_char (n mod 10)]"
    by (metis fmt_d_snoc div_100_1000)+
  then show ?thesis by (simp add: last_three_def)
qed

lemma fmt_d_two: "10 \<le> n \<Longrightarrow> n < 100 \<Longrightarrow> fmt_d n = [digit_char (n div 10), digit_char (n mod 10)]"
  by (simp add: fmt_d_snoc fmt_d_one less_mult_imp_div_less)

lemma fmt_d_three: "100 \<le> n \<Longrightarrow> n < 1000 \<Longrightarrow>
    fmt_d n = [digit_char (n div 100), digit_char (n div 10 mod 10), digit_char (n mod 10)]"
  by (simp add: fmt_d_snoc [of n] fmt_d_two [of "n div 10"] div_100_1000 less_mult_imp_div_less)

lemma fmt_d_short: "n < 1000 \<Longrightarrow> length (fmt_d n) \<le> 3"
  using fmt_d_one [of n] fmt_d_two [of n] fmt_d_three [of n] by fastforce

lemma pad_three:
  assumes "n < 1000"
  shows "pad_left (CHR ''0'') 3 (fmt_d n) = last_three n"
proof -
  have zero: "digit_char 0 = CHR ''0''" by code_simp
  consider "n < 10" | "10 \<le> n" "n < 100" | "100 \<le> n" by linarith
  then show ?thesis
  proof cases
    case 1
    then show ?thesis
      by (simp add: fmt_d_one pad_left_def last_three_def zero numeral_2_eq_2)
  next
    case 2
    then have "n div 10 < 10" by auto
    with 2 show ?thesis by (simp add: fmt_d_two pad_left_def last_three_def zero)
  next
    case 3
    with assms have "n div 100 < 10" by auto
    with 3 assms show ?thesis by (simp add: fmt_d_three pad_left_def last_three_def)
  qed
qed

lemma last_three_mod: "last_three (n mod 1000) = last_three n"
proof -
  have "n mod (100 * 10) = 100 * (n div 100 mod 10) + n mod 100" by (rule mod_mult2_eq)
  then have hundreds: "n mod 1000 div 100 = n div 100 mod 10" by simp
  have "n mod (10 * 100) = 10 * (n div 10 mod 100) + n mod 10" by (rule mod_mult2_eq)
  then have "n mod 1000 div 10 = n div 10 mod 100" by simp
  moreover have "n div 10 mod 100 mod 10 = n div 10 mod 10" by (rule mod_mod_cancel) simp
  moreover have "n mod 1000 mod 10 = n mod 10" by (rule mod_mod_cancel) simp
  ultimately show ?thesis by (simp add: last_three_def hundreds)
qed

lemma comma_loop_fmt_d: "comma_loop (length (fmt_d n)) 0 (fmt_d n) = commas n"
proof (induction n rule: less_induct)
  case (less n)
  show ?case
  proof (cases "n < 1000")
    case True
    then show ?thesis by (subst commas.simps) (simp add: comma_loop_start fmt_d_short)
  next
    case False
    let ?h = "fmt_d (n div 1000)"
    have split: "fmt_d n = ?h @ last_three n" using False by (simp add: fmt_d_split)
    have len: "length (fmt_d n) = length ?h + 3" by (simp add: split last_three_def)
    have "0 < length ?h" by simp
    then have "comma_loop (length ?h + 3) (length ?h) (last_three n) = '','' @ last_three n"
      unfolding last_three_def by (simp add: comma_loop_last)
    moreover have "comma_loop (length ?h + 3) 0 ?h = commas (n div 1000)"
      using less.IH [of "n div 1000"] False by (simp add: comma_loop_shift)
    ultimately have "comma_loop (length (fmt_d n)) 0 (fmt_d n) =
        commas (n div 1000) @ '','' @ last_three n"
      by (simp add: len, simp add: split comma_loop_append)
    with False show ?thesis by (subst commas.simps) (simp add: pad_three last_three_mod)
  qed
qed

section \<open>No index is out of range\<close>

lemma error_entry_index_range:
  assumes "n < 5"
  shows "error_entry_index ptr n = (uint ptr - 1 - int n) mod 5 \<and>
    0 \<le> error_entry_index ptr n \<and> error_entry_index ptr n < 5"
proof -
  have nonneg: "0 \<le> uint ptr - 1 - int n + 5" using assms uint_ge_0 [of ptr] by linarith
  then have "error_entry_index ptr n = (uint ptr - 1 - int n + 5) mod 5"
    by (auto simp: error_entry_index_def go_rem_def sgn_if)
  also have "\<dots> = (uint ptr - 1 - int n) mod 5" by (rule mod_add_self2)
  finally show ?thesis by simp
qed

lemma attribute_line_total: "attribute_wf a \<Longrightarrow> attribute_line a t rpm \<noteq> None"
  by (simp add: attribute_line_def RawValue48_eq)

lemma attribute_row_total:
  "smart_values_wf sv \<Longrightarrow> smart_thresholds_wf st \<Longrightarrow> i < NumAttributes \<Longrightarrow>
     attribute_row sv st rpm i \<noteq> None"
  using attribute_line_total
  by (auto simp: attribute_row_def smart_values_wf_def smart_thresholds_wf_def index_in)

lemma fill_total: "(\<And>i. i < n \<Longrightarrow> f i \<noteq> None) \<Longrightarrow> \<exists>xs. fill n f = Some xs"
  using fill_Some [of n f "\<lambda>i. the (f i)"] by force

lemma printAttributes_total:
  "smart_values_wf sv \<Longrightarrow> smart_thresholds_wf st \<Longrightarrow> printAttributes sv st rpm \<noteq> None"
  using fill_total [of NumAttributes "attribute_row sv st rpm"]
  by (auto simp: printAttributes_def attribute_row_total)

text \<open>
  The specification of an entry of the error log: its number, its time, its commands from the
  last slot to the first, its error. And the ring of entries from the newest to the oldest:
  the log pointer is the number, from 1, of the newest.
\<close>

definition error_entry_text :: "nat \<Rightarrow> ErrorLogEntry \<Rightarrow> string" where
  "error_entry_text number e =
     ''Error '' @ fmt_d number @ '' occurred at disk power-on lifetime: '' @
     fmt_d (unat (er_TimestampMin (ee_Error e)) div 60) @ '' hours'' @ nl @
     concat (map command_line (rev (ee_Commands e))) @ error_record_line (ee_Error e)"

definition newest_first :: "SmartErrorLog \<Rightarrow> ErrorLogEntry list" where
  "newest_first el = rev (rotate (unat (el_LogPointer el)) (el_Entries el))"

lemma length_newest_first [simp]: "length (newest_first el) = length (el_Entries el)"
  by (simp add: newest_first_def)

lemma entry_at_index:
  assumes "length (el_Entries el) = 5" and "n < 5"
  shows "index_int (el_Entries el) (error_entry_index (el_LogPointer el) n) = Some (newest_first el ! n)"
proof -
  let ?i = "error_entry_index (el_LogPointer el) n"
  note range = error_entry_index_range [OF assms(2), of "el_LogPointer el"]
  have "int ((unat (el_LogPointer el) + (4 - n)) mod 5) = (uint (el_LogPointer el) - 1 - int n + 5) mod 5"
    using assms(2) by (simp add: zmod_int of_nat_diff algebra_simps)
  also have "\<dots> = ?i" using range by (simp only: mod_add_self2)
  finally have "nat ?i = (unat (el_LogPointer el) + (4 - n)) mod 5" by simp
  then have "el_Entries el ! nat ?i = newest_first el ! n"
    using assms by (simp add: newest_first_def rev_nth nth_rotate)
  then show ?thesis using range assms(1) by (auto simp: index_int_def index_def)
qed

lemma fill_rev:
  assumes "length xs = 5"
  shows "fill 5 (\<lambda>k. do { x \<leftarrow> index xs (4 - k); Some (f x) }) = Some (map f (rev xs))"
proof -
  have "map (\<lambda>k. f (xs ! (4 - k))) [0..<5] = map f (rev xs)"
    using assms by (intro nth_equalityI) (simp_all add: rev_nth)
  then show ?thesis using assms by (subst fill_Some [where g = "\<lambda>k. f (xs ! (4 - k))"]) (simp_all add: index_in)
qed

lemma print_error_entry_text:
  assumes "error_log_wf el" and "n < error_entries_shown el"
  shows "print_error_entry el n =
    Some (error_entry_text (unat (el_ATAErrorCount el) - n) (newest_first el ! n))"
proof -
  have n: "n < 5" "n < unat (el_ATAErrorCount el)"
    using assms(2) by (simp_all add: error_entries_shown_def split: if_splits)
  have len: "length (el_Entries el) = 5" using assms(1) by (simp add: error_log_wf_def)
  have "newest_first el ! n \<in> set (el_Entries el)"
    using nth_mem [of n "newest_first el"] n len by (simp add: newest_first_def)
  then have cmds: "length (ee_Commands (newest_first el ! n)) = 5"
    using assms(1) by (auto simp: error_log_wf_def error_entry_wf_def)
  have "unat (of_nat n :: u16) = n" using n(1) by (simp add: unat_of_nat)
  then have "unat (el_ATAErrorCount el - of_nat n) = unat (el_ATAErrorCount el) - n"
    using n(2) by (simp add: unat_sub word_le_nat_alt)
  then show ?thesis
    by (simp add: print_error_entry_def entry_at_index [OF len n(1)] fill_rev [OF cmds] error_entry_text_def)
qed

lemma printErrorLog_text:
  assumes "error_log_wf el"
  shows "printErrorLog el = Some (''SMART Error Log Version: '' @ fmt_d (unat (el_RevNumber el)) @ nl @
    (if el_ATAErrorCount el = 0 then ''No Errors Logged'' @ nl
     else ''ATA Error Count: '' @ fmt_d (unat (el_ATAErrorCount el)) @ nl @
       tabs 1 @ ''DCR  FR  SC  SN  CL  CH  DH  CMD     TIMESTAMP  Err-Desc'' @ nl @
       concat (map (\<lambda>n. error_entry_text (unat (el_ATAErrorCount el) - n) (newest_first el ! n))
         [0..<min 5 (unat (el_ATAErrorCount el))])))"
proof -
  have "error_entries_shown el = min 5 (unat (el_ATAErrorCount el))"
    by (simp add: error_entries_shown_def)
  with fill_Some [of "error_entries_shown el", OF print_error_entry_text [OF assms]]
  show ?thesis by (simp add: printErrorLog_def)
qed

lemma printErrorLog_total: "error_log_wf el \<Longrightarrow> printErrorLog el \<noteq> None"
  by (simp add: printErrorLog_text)

lemma section_of_total: "(\<And>v. x = Some v \<Longrightarrow> print v \<noteq> None) \<Longrightarrow> section_of print x \<noteq> None"
  by (cases x) (fastforce simp: section_of_def)+

lemma PrintATAAll_total:
  assumes "pred_option smart_values_wf sv" and "pred_option smart_thresholds_wf st"
    and "pred_option error_log_wf el"
  shows "PrintATAAll version path i sv st failing el sl ssl \<noteq> None"
proof -
  have errors: "section_of printErrorLog el \<noteq> None"
    using assms(3) by (intro section_of_total printErrorLog_total) auto
  have tests: "section_of (\<lambda>l. Some (printSelfTestLog l)) sl \<noteq> None"
    by (intro section_of_total) auto
  have attrs: "section_of (\<lambda>t. printAttributes v t (id_RPM i)) st \<noteq> None" if "sv = Some v" for v
    using assms(1,2) that by (intro section_of_total printAttributes_total) auto
  from errors tests obtain e t where "section_of printErrorLog el = Some e"
    "section_of (\<lambda>l. Some (printSelfTestLog l)) sl = Some t" by blast
  then show ?thesis
    using attrs by (cases sv) (auto simp: PrintATAAll_def printSMARTSection_def)
qed

section \<open>Rounded capacities\<close>

lemma fmt_f_bound:
  assumes "0 < q" and "p div q < 2 ^ b" and "b \<le> 52" and "1 \<le> p div q"
  shows "\<exists>v. fmt_f prec (float64_div p q) =
      (if prec = 0 then fmt_d v
       else fmt_d (v div 10 ^ prec) @ ''.'' @ pad_left (CHR ''0'') prec (fmt_d (v mod 10 ^ prec))) \<and>
    2 * 2 ^ (53 - b) * \<bar>int v * int q - int p * 10 ^ prec\<bar> \<le> (2 ^ (53 - b) + 10 ^ prec) * int q"
proof -
  obtain m k where mk: "(m, k) = float64_div p q" by (metis surj_pair)
  let ?v = "round_half_even (m * 10 ^ prec) (2 ^ k)"
  let ?d = "\<bar>int ?v * int q - int p * 10 ^ prec\<bar>"
  have "ilog2 (p div q) < b" using assms by (intro ilog2_less) auto
  moreover have "k = 52 - ilog2 (p div q)" using mk by (simp add: float64_div_def Let_def)
  ultimately have k: "53 - b \<le> k" by simp
  have "2 * 2 ^ k * ?d \<le> 2 ^ k * int q + 10 ^ prec * int q"
    by (rule fmt_f_value_error [OF assms(1) mk])
  then have "2 ^ k * (2 * ?d - int q) \<le> 10 ^ prec * int q" by (simp add: algebra_simps)
  moreover have "2 ^ (53 - b) * (2 * ?d - int q) \<le> max 0 (2 ^ k * (2 * ?d - int q))"
  proof (cases "0 \<le> 2 * ?d - int q")
    case True
    have "(2::int) ^ (53 - b) \<le> 2 ^ k" using k by (simp add: power_increasing)
    with True show ?thesis by (simp add: mult_right_mono max.coboundedI2)
  qed (simp add: mult_nonneg_nonpos max.coboundedI1)
  ultimately have "2 ^ (53 - b) * (2 * ?d - int q) \<le> 10 ^ prec * int q"
    by (smt (verit) mult_nonneg_nonneg of_nat_0_le_iff zero_le_power)
  then have "2 * 2 ^ (53 - b) * ?d \<le> (2 ^ (53 - b) + 10 ^ prec) * int q"
    by (simp add: algebra_simps)
  moreover have "fmt_f prec (float64_div p q) =
      (if prec = 0 then fmt_d ?v
       else fmt_d (?v div 10 ^ prec) @ ''.'' @ pad_left (CHR ''0'') prec (fmt_d (?v mod 10 ^ prec)))"
    by (simp add: fmt_f_def Let_def flip: mk)
  ultimately show ?thesis by blast
qed

lemma capacity_GB:
  assumes "10 ^ 9 \<le> n" and "n < 10 ^ 12"
  shows "\<exists>v. fmt_f 0 (float64_div (float64_of_nat n) (10 ^ 9)) = fmt_d v \<and>
    2 * \<bar>int v * 10 ^ 9 - int n\<bar> \<le> 10 ^ 9"
proof -
  have n: "float64_of_nat n = n" using assms(2) by (simp add: float64_of_nat_def)
  have "n div 10 ^ 9 < 2 ^ 10" "1 \<le> n div 10 ^ 9" using assms by auto
  from fmt_f_bound [OF _ this(1) _ this(2), of 0] obtain v
    where v: "fmt_f 0 (float64_div n (10 ^ 9)) = fmt_d v"
      "2 * 2 ^ 43 * \<bar>int v * 10 ^ 9 - int n\<bar> \<le> (2 ^ 43 + 1) * 10 ^ 9" by auto
  from v(2) have "2 * \<bar>int v * 10 ^ 9 - int n\<bar> \<le> 10 ^ 9" by simp
  with v(1) show ?thesis by (auto simp: n)
qed

lemma capacity_TB:
  assumes "10 ^ 12 \<le> n" and "n < 10 ^ 15"
  shows "\<exists>v. fmt_f 1 (float64_div (float64_of_nat n) (10 ^ 12)) =
      fmt_d (v div 10) @ ''.'' @ fmt_d (v mod 10) \<and>
    2 * \<bar>int v * 10 ^ 11 - int n\<bar> \<le> 10 ^ 11"
proof -
  have n: "float64_of_nat n = n" using assms(2) by (simp add: float64_of_nat_def)
  have "n div 10 ^ 12 < 2 ^ 10" "1 \<le> n div 10 ^ 12" using assms by auto
  from fmt_f_bound [OF _ this(1) _ this(2), of 1] obtain v
    where v: "fmt_f 1 (float64_div n (10 ^ 12)) =
        fmt_d (v div 10) @ ''.'' @ pad_left (CHR ''0'') 1 (fmt_d (v mod 10))"
      "2 * 2 ^ 43 * \<bar>int v * 10 ^ 12 - int n * 10\<bar> \<le> (2 ^ 43 + 10) * 10 ^ 12" by auto
  have "int v * 10 ^ 12 - int n * 10 = 10 * (int v * 10 ^ 11 - int n)" by simp
  then have "\<bar>int v * 10 ^ 12 - int n * 10\<bar> = 10 * \<bar>int v * 10 ^ 11 - int n\<bar>"
    by (simp only: abs_mult abs_numeral)
  with v(2) have "2 * \<bar>int v * 10 ^ 11 - int n\<bar> \<le> 10 ^ 11" by simp
  with v(1) show ?thesis by (auto simp: n pad_left_def fmt_d_one)
qed

lemma float64_of_nat_error:
  assumes "n < 2 ^ 64"
  shows "\<bar>int (float64_of_nat n) - int n\<bar> \<le> 1024"
proof (cases "n < 2 ^ 53")
  case False
  let ?s = "ilog2 n - 52"
  have "ilog2 n < 64" using assms False by (intro ilog2_less) auto
  then have "(2::int) ^ ?s \<le> 2 ^ 11" by (intro power_increasing) auto
  moreover have "2 * \<bar>int (round_half_even n (2 ^ ?s)) * int (2 ^ ?s) - int n\<bar> \<le> int (2 ^ ?s)"
    by (rule round_half_even_error) simp
  ultimately show ?thesis using False by (simp add: float64_of_nat_def Let_def)
qed (simp add: float64_of_nat_def)

lemma capacity_PB:
  assumes "10 ^ 15 \<le> n" and "n < 2 ^ 64"
  shows "\<exists>v. fmt_f 1 (float64_div (float64_of_nat n) (10 ^ 15)) =
      fmt_d (v div 10) @ ''.'' @ fmt_d (v mod 10) \<and>
    2 * \<bar>int v * 10 ^ 14 - int n\<bar> \<le> 10 ^ 14 + 10 ^ 5"
proof -
  let ?p = "float64_of_nat n"
  have err: "\<bar>int ?p - int n\<bar> \<le> 1024" by (rule float64_of_nat_error [OF assms(2)])
  have "10 ^ 15 \<le> ?p"
  proof (cases "n < 2 ^ 53")
    case False
    with err show ?thesis by auto
  qed (use assms in \<open>simp add: float64_of_nat_def\<close>)
  moreover have "?p < 2 ^ 15 * 10 ^ 15" using err assms(2) by auto
  ultimately have "?p div 10 ^ 15 < 2 ^ 15" "1 \<le> ?p div 10 ^ 15"
    by (auto simp: less_mult_imp_div_less)
  from fmt_f_bound [OF _ this(1) _ this(2), of 1] obtain v
    where v: "fmt_f 1 (float64_div ?p (10 ^ 15)) =
        fmt_d (v div 10) @ ''.'' @ pad_left (CHR ''0'') 1 (fmt_d (v mod 10))"
      "2 * 2 ^ 38 * \<bar>int v * 10 ^ 15 - int ?p * 10\<bar> \<le> (2 ^ 38 + 10) * 10 ^ 15" by auto
  have "int v * 10 ^ 15 - int ?p * 10 = 10 * (int v * 10 ^ 14 - int ?p)" by simp
  then have "\<bar>int v * 10 ^ 15 - int ?p * 10\<bar> = 10 * \<bar>int v * 10 ^ 14 - int ?p\<bar>"
    by (simp only: abs_mult abs_numeral)
  with v(2) have "2 * \<bar>int v * 10 ^ 14 - int ?p\<bar> \<le> 10 ^ 14 + 4000" by simp
  then have "2 * \<bar>int v * 10 ^ 14 - int n\<bar> \<le> 10 ^ 14 + 10 ^ 5" using err by auto
  with v(1) show ?thesis by (auto simp: pad_left_def fmt_d_one)
qed

section \<open>Properties\<close>

lemma comma_loop_filter:
  "CHR '','' \<notin> set xs \<Longrightarrow> filter (\<lambda>c. c \<noteq> CHR '','') (comma_loop n i xs) = xs"
  by (induction xs arbitrary: i) (auto simp: Let_def)

lemma fmt_d_no_comma: "CHR '','' \<notin> set (fmt_d n)"
  using fmt_d_digits [of n] by (auto simp: list_all_iff is_digit_def)

text \<open>
  C37. \<open>formatComma\<close> groups the digits of its argument by thousands, from the right: it
  agrees with the recursive specification, and without the commas it is the numeral of \<open>n\<close>.
\<close>

theorem formatComma_groups:
  "formatComma n = commas (unat n) \<and>
   dec_value (filter (\<lambda>c. c \<noteq> CHR '','') (formatComma n)) = unat n"
  unfolding formatComma_def Let_def
  by (simp only: comma_loop_filter [OF fmt_d_no_comma] fmt_d_value) (simp add: comma_loop_fmt_d)

lemma formatCapacity_bands:
  "formatCapacity b =
     (if 10 ^ 15 \<le> unat b then fmt_f 1 (float64_div (float64_of_nat (unat b)) (10 ^ 15)) @ '' PB''
      else if 10 ^ 12 \<le> unat b
        then fmt_f 1 (float64_div (float64_of_nat (unat b)) (10 ^ 12)) @ '' TB''
      else if 10 ^ 9 \<le> unat b
        then fmt_f 0 (float64_div (float64_of_nat (unat b)) (10 ^ 9)) @ '' GB''
      else fmt_d (unat b div 10 ^ 6) @ '' MB'')"
  by (simp add: formatCapacity_def Let_def)

text \<open>
  C36. How far the rounded capacity in brackets is from the byte count, through both
  floating-point roundings: whole gigabytes and tenths of a terabyte are within half a unit of
  the last place, tenths of a petabyte within half a unit and \<open>50000\<close> bytes (dividing by
  \<open>10^15\<close> and, from \<open>2^53\<close> bytes on, the conversion to \<open>float64\<close> are not exact), and
  below a gigabyte the whole megabytes are cut off, not rounded.
\<close>

theorem formatCapacity_error:
  "if unat n < 10 ^ 9 then formatCapacity n = fmt_d (unat n div 10 ^ 6) @ '' MB''
   else if unat n < 10 ^ 12 then \<exists>v. formatCapacity n = fmt_d v @ '' GB'' \<and>
     2 * \<bar>int v * 10 ^ 9 - int (unat n)\<bar> \<le> 10 ^ 9
   else if unat n < 10 ^ 15 then
     \<exists>v. formatCapacity n = fmt_d (v div 10) @ ''.'' @ fmt_d (v mod 10) @ '' TB'' \<and>
       2 * \<bar>int v * 10 ^ 11 - int (unat n)\<bar> \<le> 10 ^ 11
   else \<exists>v. formatCapacity n = fmt_d (v div 10) @ ''.'' @ fmt_d (v mod 10) @ '' PB'' \<and>
       2 * \<bar>int v * 10 ^ 14 - int (unat n)\<bar> \<le> 10 ^ 14 + 10 ^ 5"
proof -
  have "unat n < 2 ^ LENGTH(64)" by (rule unsigned_less)
  then have n: "unat n < 2 ^ 64" by simp
  consider "unat n < 10 ^ 9" | "10 ^ 9 \<le> unat n" "unat n < 10 ^ 12"
    | "10 ^ 12 \<le> unat n" "unat n < 10 ^ 15" | "10 ^ 15 \<le> unat n"
    by linarith
  then show ?thesis
  proof cases
    case 1
    then show ?thesis by (simp add: formatCapacity_bands)
  next
    case 2
    with capacity_GB [OF this] show ?thesis by (simp only: formatCapacity_bands if_False if_True) auto
  next
    case 3
    with capacity_TB [OF this] show ?thesis by (simp only: formatCapacity_bands if_False if_True) auto
  next
    case 4
    with capacity_PB [OF this n] show ?thesis by (simp only: formatCapacity_bands if_False if_True) auto
  qed
qed

text \<open>The specification of a table row: the columns, with the raw value as a number.\<close>

definition attribute_text :: "Attribute \<Rightarrow> u8 \<Rightarrow> int \<Rightarrow> string" where
  "attribute_text a threshold rpm =
     fmt_wd 3 (unat (attr_ID a)) @ '' '' @ pad_right 24 (AttrName (attr_ID a) rpm) @ '' 0x'' @
     fmt_0x 4 (unat (attr_Flags a)) @ ''   '' @ fmt_wd 3 (unat (attr_Current a)) @ ''   '' @
     fmt_wd 3 (unat (attr_Worst a)) @ ''   '' @ fmt_wd 3 (unat threshold) @ ''    '' @
     pad_right 10 (if IsPrefailure a then ''Pre-fail'' else ''Old_age'') @
     pad_right 9 (if IsOnline a then ''Always'' else ''Offline'') @
     pad_right 12 (when_failed a threshold) @ '' '' @ fmt_d (le_val (attr_Raw a)) @ nl"

lemma attribute_line_text:
  "attribute_wf a \<Longrightarrow> attribute_line a t rpm = Some (attribute_text a t rpm)"
  by (simp add: attribute_line_def attribute_text_def RawValue48_eq attribute_wf_def unat_le_word)

lemma concat_map_if: "concat (map (\<lambda>i. if P i then f i else []) xs) = concat (map f (filter P xs))"
  by (induction xs) auto

text \<open>
  C23. The attribute table of two accepted responses never panics and has one row for each
  slot in use, in slot order; a row pairs the attribute with the threshold of its own slot,
  and its last column is the 48-bit raw value in decimal. VALUE, WORST and THRESH are filled
  with blanks to three places, where the example of \<open>README.md\<close> has zeros (098, 010, 000).
\<close>

theorem printAttributes_rows:
  assumes "ParseSmartValues d1 = Some (Inr sv)" and "ParseSmartThresholds d2 = Some (Inr st)"
  shows "printAttributes sv st rpm = Some (
    ''SMART Attributes Data Structure revision number: '' @ fmt_d (unat (sv_RevNumber sv)) @ nl @
    ''Vendor Specific SMART Attributes with Thresholds:'' @ nl @
    ''ID# ATTRIBUTE_NAME          FLAG     VALUE WORST THRESH TYPE      UPDATED  WHEN_FAILED RAW_VALUE'' @
      nl @
    concat (map (\<lambda>i. attribute_text (sv_Attributes sv ! i) (st_Thresholds st ! i) rpm)
      (filter (\<lambda>i. attr_ID (sv_Attributes sv ! i) \<noteq> 0) [0..<NumAttributes])))"
proof -
  have wf: "smart_values_wf sv" "smart_thresholds_wf st"
    using assms by (simp_all add: smart_values.parse_ok_iff smart_thresholds.parse_ok_iff)
  have "fill NumAttributes (attribute_row sv st rpm) =
      Some (map (\<lambda>i. if attr_ID (sv_Attributes sv ! i) \<noteq> 0
        then attribute_text (sv_Attributes sv ! i) (st_Thresholds st ! i) rpm else [])
        [0..<NumAttributes])"
    using wf by (intro fill_Some)
      (simp add: attribute_row_def smart_values_wf_def smart_thresholds_wf_def index_in
        attribute_line_text)
  then show ?thesis by (simp add: printAttributes_def concat_map_if)
qed

definition sample_response :: bytes where
  "sample_response = (replicate 512 0)[2 := 9, 3 := 0x32, 5 := 98, 6 := 98, 7 := 0x39, 8 := 0x30, 511 := 0x98]"

lemma sample_response_ok: "\<exists>sv. ParseSmartValues sample_response = Some (Inr sv)"
proof -
  have "length sample_response = 512" by (simp add: sample_response_def)
  moreover have "validateChecksum sample_response" by code_simp
  ultimately show ?thesis using smart_values.parse_cases [of sample_response] by auto
qed

lemma sample_attributes:
  assumes "ParseSmartValues sample_response = Some (Inr sv)"
  shows "attr_ID (sv_Attributes sv ! 0) = 9 \<and> attr_Raw (sv_Attributes sv ! 0) = [0x39, 0x30, 0, 0, 0, 0]"
proof -
  have "read_attribute sample_response 2 = Some (sv_Attributes sv ! 0)"
    using smart_values_attribute_at [OF assms, of 0] by (simp add: NumAttributes_def)
  moreover have "map_option (\<lambda>a. (attr_ID a, attr_Raw a)) (read_attribute sample_response 2) =
      Some (9, [0x39, 0x30, 0, 0, 0, 0])"
    by code_simp
  ultimately show ?thesis by simp
qed

theorem printAttributes_rows_witness:
  "\<exists>sv st s. ParseSmartValues sample_response = Some (Inr sv) \<and>
     ParseSmartThresholds (replicate 512 0) = Some (Inr st) \<and>
     printAttributes sv st 7200 = Some s \<and>
     attr_ID (sv_Attributes sv ! 0) = 9 \<and> le_val (attr_Raw (sv_Attributes sv ! 0)) = 12345"
proof -
  obtain sv where sv: "ParseSmartValues sample_response = Some (Inr sv)"
    using sample_response_ok by blast
  obtain st where "ParseSmartThresholds (replicate 512 0) = Some (Inr st)"
    using smart_thresholds.parse_cases [of "replicate 512 0"]
    by (auto simp: validateChecksum_iff sum_list_replicate)
  with printAttributes_rows [OF sv this] sv sample_attributes [OF sv] show ?thesis by fastforce
qed

text \<open>
  C38. The error log of an accepted response is printed without a panic and newest first: of the
  ring of five entries, read backwards from the log pointer (any byte), the first
  \<open>min 5 count\<close> are printed, numbered down from the error count; within an entry the
  commands come from the last slot to the first, without the empty ones. A count of zero
  prints no entry at all.
\<close>

theorem printErrorLog_newest_first:
  assumes "ParseSmartErrorLog d = Some (Inr el)"
  shows "printErrorLog el = Some (''SMART Error Log Version: '' @ fmt_d (unat (el_RevNumber el)) @ nl @
    (if el_ATAErrorCount el = 0 then ''No Errors Logged'' @ nl
     else ''ATA Error Count: '' @ fmt_d (unat (el_ATAErrorCount el)) @ nl @
       tabs 1 @ ''DCR  FR  SC  SN  CL  CH  DH  CMD     TIMESTAMP  Err-Desc'' @ nl @
       concat (map (\<lambda>n. error_entry_text (unat (el_ATAErrorCount el) - n) (newest_first el ! n))
         [0..<min 5 (unat (el_ATAErrorCount el))])))"
  using assms by (intro printErrorLog_text) (simp add: error_log.parse_ok_iff)

definition sample_error_response :: bytes where
  "sample_error_response = (replicate 512 0)[1 := 1, 90 := 60, 450 := 120, 452 := 7, 511 := 0x44]"

theorem printErrorLog_newest_first_witness:
  "\<exists>el rest. ParseSmartErrorLog sample_error_response = Some (Inr el) \<and>
     printErrorLog el = Some (''SMART Error Log Version: 0'' @ nl @ ''ATA Error Count: 7'' @ nl @
       tabs 1 @ ''DCR  FR  SC  SN  CL  CH  DH  CMD     TIMESTAMP  Err-Desc'' @ nl @
       error_entry_text 7 (el_Entries el ! 0) @ error_entry_text 6 (el_Entries el ! 4) @ rest)"
proof -
  let ?d = sample_error_response
  have "length ?d = 512" by (simp add: sample_error_response_def)
  moreover have "validateChecksum ?d" by code_simp
  ultimately obtain el where parsed: "ParseSmartErrorLog ?d = Some (Inr el)"
    using error_log.parse_cases [of ?d] by auto
  then have "length (el_Entries el) = 5" by (simp add: error_log.parse_ok_iff error_log_wf_def)
  moreover have "index ?d 0 = Some 0" "index ?d 1 = Some 1" "le16 ?d 452 = Some 7" by code_simp+
  with parsed have fields: "el_RevNumber el = 0" "el_LogPointer el = 1" "el_ATAErrorCount el = 7"
    by (auto simp: ParseSmartErrorLog_def error_log_body_def split: if_splits bind_splits)
  ultimately have "newest_first el ! 0 = el_Entries el ! 0" "newest_first el ! 1 = el_Entries el ! 4"
    by (simp_all add: newest_first_def rev_nth nth_rotate1)
  moreover have "[0..<5] = [0, 1, 2, 3, 4 :: nat]" by (simp add: upt_rec)
  moreover have "fmt_d 0 = ''0''" "fmt_d 7 = ''7''" by code_simp+
  ultimately show ?thesis using printErrorLog_newest_first [OF parsed] parsed fields by simp
qed

text \<open>
  C39. \<open>selfTestTypeName\<close> only looks at the low seven bits, so that its four captive-mode
  names are never printed: a captive test gets the name of the off-line test of its kind.
\<close>

theorem selfTestTypeName_never_captive:
  "selfTestTypeName (0x80 OR num) = selfTestTypeName num \<and>
   selfTestTypeName num \<in> {''Short offline'', ''Extended offline'', ''Conveyance offline'',
     ''Selective offline'', ''Unknown''} \<and>
   map selfTestTypeName [0x81, 0x82, 0x83, 0x84] =
     [''Short offline'', ''Extended offline'', ''Conveyance offline'', ''Selective offline'']"
proof -
  have "(0x80 OR num) AND 0x7f = num AND 0x7f"
    by (rule bit_word_eqI) (auto simp: bit_simps less_Suc_eq numeral_eq_Suc)
  moreover have "num AND 0x7f \<le> 0x7f" by (rule word_and_le1)
  then have "num AND 0x7f \<notin> {0x81, 0x82, 0x83, 0x84}" by auto
  moreover have "map selfTestTypeName [0x81, 0x82, 0x83, 0x84] =
      [''Short offline'', ''Extended offline'', ''Conveyance offline'', ''Selective offline'']"
    by (simp add: selfTestTypeName_def)
  ultimately show ?thesis by (simp add: selfTestTypeName_def Let_def)
qed

text \<open>
  A status byte of the self-test log splits into result and progress without loss, and
  the percentage printed is ten times its low nibble, with no wrap-around in the byte.
\<close>

lemma self_test_status_nibbles:
  "unat (te_SelfTestStatus e) = 16 * unat (SelfTestResult e) + unat (SelfTestPercRemaining e) \<and>
   unat (SelfTestResult e) < 16 \<and> unat (SelfTestPercRemaining e) < 16 \<and>
   unat (SelfTestPercRemaining e * 10) = 10 * unat (SelfTestPercRemaining e)"
proof -
  let ?s = "te_SelfTestStatus e"
  have s: "unat ?s < 256" using unsigned_less [of ?s] by simp
  have r: "unat (SelfTestResult e) = unat ?s div 16"
    by (simp only: SelfTestResult_def unat_drop_bit_eq) (simp add: drop_bit_eq_div)
  have "SelfTestPercRemaining e = take_bit 4 ?s"
    by (simp add: SelfTestPercRemaining_def take_bit_eq_mask mask_eq_exp_minus_1)
  then have p: "unat (SelfTestPercRemaining e) = unat ?s mod 16"
    by (simp only: unsigned_take_bit_eq) (simp add: take_bit_eq_mod)
  then have "unat (SelfTestPercRemaining e * 10) = 10 * unat (SelfTestPercRemaining e)"
    by (simp add: unat_word_ariths)
  with r p s show ?thesis by auto
qed

text \<open>
  The full ATA report never panics: whatever sections are missing, no index runs out of
  range on records that came out of the parsers.
\<close>

lemma PrintATAAll_never_panics:
  assumes "pred_option (\<lambda>v. \<exists>d. ParseSmartValues d = Some (Inr v)) sv"
    and "pred_option (\<lambda>v. \<exists>d. ParseSmartThresholds d = Some (Inr v)) st"
    and "pred_option (\<lambda>v. \<exists>d. ParseSmartErrorLog d = Some (Inr v)) el"
  shows "\<exists>s. PrintATAAll version path i sv st failing el sl ssl = Some s"
proof -
  have "pred_option smart_values_wf sv" "pred_option smart_thresholds_wf st"
    "pred_option error_log_wf el"
    using assms
    by (auto elim!: option.pred_mono_strong simp: smart_values.parse_ok_iff
        smart_thresholds.parse_ok_iff error_log.parse_ok_iff)
  then show ?thesis using PrintATAAll_total by blast
qed

lemma PrintATAAll_never_panics_witness:
  "\<exists>v s. ParseSmartValues (replicate 512 0) = Some (Inr v) \<and>
     PrintATAAll ''gosmart dev'' ''/dev/sda'' i (Some v) None False None None None = Some s"
proof -
  obtain v where v: "ParseSmartValues (replicate 512 0) = Some (Inr v)"
    using zero_response_ok by blast
  then have "pred_option (\<lambda>v. \<exists>d. ParseSmartValues d = Some (Inr v)) (Some v)" by auto
  from PrintATAAll_never_panics [OF this] v show ?thesis by force
qed

end
