(* ===== verification/Nvme.thy ===== *)
theory Nvme
  imports Layout Go_Fmt Name_Lookup
begin

text \<open>
  \<open>internal/nvme/nvme.go\<close>: the Identify Controller response, the SMART/Health log, the
  error information log, and the table of field names that the list and get modes use. The
  log parsers check lengths only. A 128-bit counter is read through \<open>le128lo64\<close>, which
  keeps the low 64 bits; the high half is a reserved byte string of the layout.
\<close>

section \<open>Reads\<close>

definition u16_at :: "bytes \<Rightarrow> nat \<Rightarrow> u16 go" where
  "u16_at data off = do { b \<leftarrow> slice data off (off + 2); Uint16 b }"

definition u32_at :: "bytes \<Rightarrow> nat \<Rightarrow> u32 go" where
  "u32_at data off = do { b \<leftarrow> slice data off (off + 4); Uint32 b }"

definition u64_at :: "bytes \<Rightarrow> nat \<Rightarrow> u64 go" where
  "u64_at data off = do { b \<leftarrow> slice data off (off + 8); Uint64 b }"

definition le128lo64 :: "bytes \<Rightarrow> u64 go" where
  "le128lo64 b = do { lo \<leftarrow> slice b 0 8; Uint64 lo }"

definition counter_at :: "bytes \<Rightarrow> nat \<Rightarrow> u64 go" where
  "counter_at data off = do { b \<leftarrow> slice data off (off + 16); le128lo64 b }"

section \<open>Identify Controller\<close>

record IdentifyController =
  ic_VendorID :: u16
  ic_Subsys :: u16
  ic_SerialNumber :: string
  ic_ModelNumber :: string
  ic_FWRevision :: string
  ic_TotalCapacityBytes :: u64
  ic_Version :: u32
  ic_MaxPowerStates :: u8

definition ParseIdentifyController :: "bytes \<Rightarrow> (go_error + IdentifyController) go" where
  "ParseIdentifyController data =
     (if length data \<noteq> 4096
      then Some (Inl (WrongLength ''identify controller'' 4096 (length data)))
      else do {
        vid \<leftarrow> u16_at data 0;
        ssvid \<leftarrow> u16_at data 2;
        sn \<leftarrow> slice data 4 24;
        mn \<leftarrow> slice data 24 64;
        fr \<leftarrow> slice data 64 72;
        ver \<leftarrow> u32_at data 80;
        cap \<leftarrow> u64_at data 280;
        npss \<leftarrow> index data 263;
        Some (Inr \<lparr>
          ic_VendorID = vid, ic_Subsys = ssvid,
          ic_SerialNumber = TrimRight (to_string sn),
          ic_ModelNumber = TrimRight (to_string mn),
          ic_FWRevision = TrimRight (to_string fr),
          ic_TotalCapacityBytes = cap, ic_Version = ver,
          ic_MaxPowerStates = npss + 1\<rparr>) })"

section \<open>The SMART/Health log\<close>

record SmartLog =
  CriticalWarning :: u8
  TemperatureKelvin :: u16
  AvailableSpare :: u8
  SpareThreshold :: u8
  PercentageUsed :: u8
  DataUnitsRead :: u64
  DataUnitsWritten :: u64
  HostReads :: u64
  HostWrites :: u64
  ControllerBusyTime :: u64
  PowerCycles :: u64
  PowerOnHours :: u64
  UnsafeShutdowns :: u64
  MediaErrors :: u64
  NumErrLogEntries :: u64
  WarningTempTime :: u32
  CriticalCompTime :: u32
  TempSensor :: "u16 list"

definition TemperatureCelsius :: "SmartLog \<Rightarrow> int" where
  "TemperatureCelsius s =
     (if TemperatureKelvin s = 0 then 0 else uint (TemperatureKelvin s) - 273)"

text \<open>The loop reads \<open>data[200+i*2 : 202+i*2]\<close>.\<close>

definition read_sensor :: "bytes \<Rightarrow> nat \<Rightarrow> u16 go" where
  "read_sensor data off = u16_at data off"

definition smart_log_body :: "bytes \<Rightarrow> SmartLog go" where
  "smart_log_body data = do {
     cw \<leftarrow> index data 0;
     tk \<leftarrow> u16_at data 1;
     spare \<leftarrow> index data 3;
     thresh \<leftarrow> index data 4;
     used \<leftarrow> index data 5;
     dur \<leftarrow> counter_at data 32;
     duw \<leftarrow> counter_at data 48;
     hr \<leftarrow> counter_at data 64;
     hw \<leftarrow> counter_at data 80;
     cbt \<leftarrow> counter_at data 96;
     pc \<leftarrow> counter_at data 112;
     poh \<leftarrow> counter_at data 128;
     us \<leftarrow> counter_at data 144;
     me \<leftarrow> counter_at data 160;
     nel \<leftarrow> counter_at data 176;
     wtt \<leftarrow> u32_at data 192;
     cct \<leftarrow> u32_at data 196;
     sensors \<leftarrow> fill 8 (\<lambda>i. read_sensor data (200 + i * 2));
     Some \<lparr>CriticalWarning = cw, TemperatureKelvin = tk, AvailableSpare = spare,
           SpareThreshold = thresh, PercentageUsed = used, DataUnitsRead = dur,
           DataUnitsWritten = duw, HostReads = hr, HostWrites = hw, ControllerBusyTime = cbt,
           PowerCycles = pc, PowerOnHours = poh, UnsafeShutdowns = us, MediaErrors = me,
           NumErrLogEntries = nel, WarningTempTime = wtt, CriticalCompTime = cct,
           TempSensor = sensors\<rparr> }"

definition ParseSmartLog :: "bytes \<Rightarrow> (go_error + SmartLog) go" where
  "ParseSmartLog data =
     (if length data \<noteq> 512 then Some (Inl (WrongLength ''NVMe SMART log'' 512 (length data)))
      else do { s \<leftarrow> smart_log_body data; Some (Inr s) })"

section \<open>The error information log\<close>

record NvmeErrorLogEntry =
  ne_ErrorCount :: u64
  ne_SQID :: u16
  ne_CMDID :: u16
  ne_StatusField :: u16
  ne_ParamErrorLocation :: u16
  ne_LBA :: u64
  ne_NSID :: u32
  ne_VendorSpecific :: u8

definition read_nvme_error :: "bytes \<Rightarrow> nat \<Rightarrow> NvmeErrorLogEntry go" where
  "read_nvme_error data off = do {
     ec \<leftarrow> u64_at data off;
     sqid \<leftarrow> u16_at data (off + 8);
     cid \<leftarrow> u16_at data (off + 10);
     sf \<leftarrow> u16_at data (off + 12);
     pel \<leftarrow> u16_at data (off + 14);
     lba \<leftarrow> u64_at data (off + 16);
     nsid \<leftarrow> u32_at data (off + 24);
     vs \<leftarrow> index data (off + 28);
     Some \<lparr>ne_ErrorCount = ec, ne_SQID = sqid, ne_CMDID = cid, ne_StatusField = sf,
           ne_ParamErrorLocation = pel, ne_LBA = lba, ne_NSID = nsid, ne_VendorSpecific = vs\<rparr> }"

definition ParseErrorLog :: "bytes \<Rightarrow> (go_error + NvmeErrorLogEntry list) go" where
  "ParseErrorLog data =
     (if length data mod 64 \<noteq> 0 then Some (Inl (NotMultiple ''NVMe error log'' (length data) 64))
      else do {
        entries \<leftarrow> fill (length data div 64) (\<lambda>i. read_nvme_error data (i * 64));
        Some (Inr entries) })"

section \<open>Fields by name\<close>

definition smartLogFields :: "(string \<times> (SmartLog \<Rightarrow> u64)) list" where
  "smartLogFields = [
     (''Critical_Warning'', \<lambda>s. ucast (CriticalWarning s)),
     (''Temperature'', \<lambda>s. ucast (TemperatureKelvin s)),
     (''Available_Spare'', \<lambda>s. ucast (AvailableSpare s)),
     (''Spare_Threshold'', \<lambda>s. ucast (SpareThreshold s)),
     (''Percentage_Used'', \<lambda>s. ucast (PercentageUsed s)),
     (''Data_Units_Read'', DataUnitsRead),
     (''Data_Units_Written'', DataUnitsWritten),
     (''Host_Reads'', HostReads),
     (''Host_Writes'', HostWrites),
     (''Controller_Busy_Time'', ControllerBusyTime),
     (''Power_Cycles'', PowerCycles),
     (''Power_On_Hours'', PowerOnHours),
     (''Unsafe_Shutdowns'', UnsafeShutdowns),
     (''Media_Errors'', MediaErrors),
     (''Num_Err_Log_Entries'', NumErrLogEntries),
     (''Warning_Temp_Time'', \<lambda>s. ucast (WarningTempTime s)),
     (''Critical_Comp_Time'', \<lambda>s. ucast (CriticalCompTime s))]"

text \<open>\<open>FieldNames\<close> does not look at the log: it lists the table.\<close>

definition FieldNames :: "SmartLog \<Rightarrow> string list" where
  "FieldNames s = map fst smartLogFields"

fun field_value_loop :: "(string \<times> (SmartLog \<Rightarrow> u64)) list \<Rightarrow> SmartLog \<Rightarrow> string \<Rightarrow> u64 \<times> bool" where
  "field_value_loop [] s name = (0, False)"
| "field_value_loop ((n, get) # fs) s name =
     (if n = name then (get s, True) else field_value_loop fs s name)"

definition FieldValue :: "SmartLog \<Rightarrow> string \<Rightarrow> u64 \<times> bool" where
  "FieldValue s name = field_value_loop smartLogFields s name"

section \<open>Layouts\<close>

interpretation sensor: fixed_layout 2 read_sensor "\<lambda>_. le_bytes 2" "\<lambda>u::unit. True" "\<lambda>_. True"
  using le_bytes_surj(1)
  by unfold_locales (auto simp: read_sensor_def u16_at_def at_simps)

definition nvme_error_bytes :: "bytes \<Rightarrow> NvmeErrorLogEntry \<Rightarrow> bytes" where
  "nvme_error_bytes r e =
     le_bytes 8 (ne_ErrorCount e) @ le_bytes 2 (ne_SQID e) @ le_bytes 2 (ne_CMDID e) @
     le_bytes 2 (ne_StatusField e) @ le_bytes 2 (ne_ParamErrorLocation e) @
     le_bytes 8 (ne_LBA e) @ le_bytes 4 (ne_NSID e) @ [ne_VendorSpecific e] @ r"

definition nvme_error_pads :: "bytes \<Rightarrow> bool" where
  "nvme_error_pads r \<longleftrightarrow> length r = 35"

lemma nvme_error_surj:
  assumes "length c = 64"
  shows "\<exists>r e. nvme_error_pads r \<and> True \<and> c = nvme_error_bytes r e"
proof -
  obtain x1 x2 x3 x4 x5 x6 x7 x8 r where c: "c = x1 @ x2 @ x3 @ x4 @ x5 @ x6 @ x7 @ x8 @ r"
    and len: "length x1 = 8" "length x2 = 2" "length x3 = 2" "length x4 = 2" "length x5 = 2"
      "length x6 = 8" "length x7 = 4" "length x8 = 1" "length r = 35"
    using split_lengths [of c "[8, 2, 2, 2, 2, 8, 4, 1, 35]"] assms
    by (auto simp: map_eq_Cons_conv)
  obtain a where a: "x1 = le_bytes 8 (a :: u64)" using le_bytes_surj(3) len(1) by blast
  obtain b where b: "x2 = le_bytes 2 (b :: u16)" using le_bytes_surj(1) len(2) by blast
  obtain d where d: "x3 = le_bytes 2 (d :: u16)" using le_bytes_surj(1) len(3) by blast
  obtain e where e: "x4 = le_bytes 2 (e :: u16)" using le_bytes_surj(1) len(4) by blast
  obtain f where f: "x5 = le_bytes 2 (f :: u16)" using le_bytes_surj(1) len(5) by blast
  obtain g where g: "x6 = le_bytes 8 (g :: u64)" using le_bytes_surj(3) len(6) by blast
  obtain h where h: "x7 = le_bytes 4 (h :: u32)" using le_bytes_surj(2) len(7) by blast
  obtain i where i: "x8 = [i]" using len(8) by (auto simp: length_Suc_conv)
  have "c = nvme_error_bytes r \<lparr>ne_ErrorCount = a, ne_SQID = b, ne_CMDID = d,
      ne_StatusField = e, ne_ParamErrorLocation = f, ne_LBA = g, ne_NSID = h,
      ne_VendorSpecific = i\<rparr>"
    by (simp add: c a b d e f g h i nvme_error_bytes_def)
  then show ?thesis using len(9) by (auto simp: nvme_error_pads_def)
qed

interpretation nerr: fixed_layout 64 read_nvme_error nvme_error_bytes nvme_error_pads "\<lambda>_. True"
proof unfold_locales
  show "\<exists>p a. nvme_error_pads p \<and> True \<and> c = nvme_error_bytes p a" if "length c = 64" for c
    using that by (rule nvme_error_surj)
qed (simp_all add: read_nvme_error_def nvme_error_bytes_def nvme_error_pads_def u16_at_def
    u32_at_def u64_at_def at_simps)

text \<open>The response to the error-log command: entries one after the other, nothing else.\<close>

lemma ParseErrorLog_iff:
  "ParseErrorLog data = Some (Inr es) \<longleftrightarrow>
     (\<exists>ps. table_wf nvme_error_pads (\<lambda>_. True) (length es) ps es \<and>
       data = encode_table nvme_error_bytes ps es)"
proof
  assume ok: "ParseErrorLog data = Some (Inr es)"
  then have len: "length data = length data div 64 * 64"
    by (auto simp: ParseErrorLog_def split: if_splits)
  then obtain ps es' where tab: "table_wf nvme_error_pads (\<lambda>_. True) (length data div 64) ps es'"
    and data: "data = encode_table nvme_error_bytes ps es'"
    using nerr.table_surj by blast
  have "fill (length data div 64) (\<lambda>i. read_nvme_error data (i * 64)) = Some es'"
    using nerr.fill_encode_table [OF tab, of "[]" 0 "[]"] by (simp flip: data)
  with ok len have "es' = es" by (auto simp: ParseErrorLog_def split: if_splits)
  with tab data show "\<exists>ps. table_wf nvme_error_pads (\<lambda>_. True) (length es) ps es \<and>
      data = encode_table nvme_error_bytes ps es"
    by (auto simp: table_wf_def)
next
  assume "\<exists>ps. table_wf nvme_error_pads (\<lambda>_. True) (length es) ps es \<and>
    data = encode_table nvme_error_bytes ps es"
  then obtain ps where tab: "table_wf nvme_error_pads (\<lambda>_. True) (length es) ps es"
    and data: "data = encode_table nvme_error_bytes ps es" by blast
  have "length data = length es * 64" using nerr.length_encode_table [OF tab] data by simp
  then show "ParseErrorLog data = Some (Inr es)"
    using nerr.fill_encode_table [OF tab, of "[]" 0 "[]"]
    by (simp add: ParseErrorLog_def flip: data)
qed

lemma ParseErrorLog_total: "ParseErrorLog data \<noteq> None"
proof (cases "length data mod 64 = 0")
  case True
  then have "length data = length data div 64 * 64" by auto
  then obtain ps es where "table_wf nvme_error_pads (\<lambda>_. True) (length data div 64) ps es"
    and "data = encode_table nvme_error_bytes ps es"
    using nerr.table_surj by blast
  then have "ParseErrorLog data = Some (Inr es)"
    by (subst ParseErrorLog_iff) (auto simp: table_wf_def)
  then show ?thesis by simp
qed (simp add: ParseErrorLog_def)

text \<open>The Health log: ten counters of sixteen bytes, each with the half the code drops.\<close>

definition counter_bytes :: "bytes \<Rightarrow> u64 \<Rightarrow> bytes" where
  "counter_bytes hi c = le_bytes 8 c @ hi"

definition counter_pads :: "bytes \<Rightarrow> bool" where
  "counter_pads hi \<longleftrightarrow> length hi = 8"

interpretation ctr: fixed_layout 16 counter_at counter_bytes counter_pads "\<lambda>_. True"
proof unfold_locales
  fix c :: bytes assume "length c = 16"
  then obtain x hi where c: "c = x @ hi" "length x = 8" "length hi = 8"
    using split_lengths [of c "[8, 8]"] by (auto simp: map_eq_Cons_conv)
  moreover then obtain v where "x = le_bytes 8 (v :: u64)" using le_bytes_surj(3) by blast
  ultimately have "counter_pads hi \<and> True \<and> c = counter_bytes hi v"
    by (simp add: counter_bytes_def counter_pads_def)
  then show "\<exists>p a. counter_pads p \<and> True \<and> c = counter_bytes p a" by blast
qed (simp_all add: counter_at_def le128lo64_def counter_bytes_def counter_pads_def at_simps
    slice_def)

definition smart_log_counters :: "SmartLog \<Rightarrow> u64 list" where
  "smart_log_counters s =
     [DataUnitsRead s, DataUnitsWritten s, HostReads s, HostWrites s, ControllerBusyTime s,
      PowerCycles s, PowerOnHours s, UnsafeShutdowns s, MediaErrors s, NumErrLogEntries s]"

definition smart_log_wf :: "SmartLog \<Rightarrow> bool" where
  "smart_log_wf s \<longleftrightarrow> length (TempSensor s) = 8"

fun smart_log_bytes :: "bytes \<times> bytes list \<times> bytes \<Rightarrow> SmartLog \<Rightarrow> bytes" where
  "smart_log_bytes (r, his, tail) s =
     [CriticalWarning s] @ le_bytes 2 (TemperatureKelvin s) @
     [AvailableSpare s, SpareThreshold s, PercentageUsed s] @ r @
     encode_table counter_bytes his (smart_log_counters s) @
     le_bytes 4 (WarningTempTime s) @ le_bytes 4 (CriticalCompTime s) @
     encode_table (\<lambda>_. le_bytes 2) (replicate 8 ()) (TempSensor s) @ tail"

fun smart_log_pads :: "bytes \<times> bytes list \<times> bytes \<Rightarrow> bool" where
  "smart_log_pads (r, his, tail) \<longleftrightarrow>
     length r = 26 \<and> length his = 10 \<and> (\<forall>h \<in> set his. counter_pads h) \<and> length tail = 296"

declare smart_log_bytes.simps [simp del, layout_defs]

lemma counters_table:
  "smart_log_pads (r, his, tail) \<Longrightarrow>
     table_wf counter_pads (\<lambda>_. True) 10 his (smart_log_counters s)"
  by (simp add: table_wf_def smart_log_counters_def)

lemma sensors_table:
  "smart_log_wf s \<Longrightarrow> table_wf (\<lambda>_. True) (\<lambda>_. True) 8 (replicate 8 ()) (TempSensor s)"
  by (simp add: table_wf_def smart_log_wf_def)

lemma length_smart_log_bytes:
  "smart_log_pads p \<Longrightarrow> smart_log_wf s \<Longrightarrow> length (smart_log_bytes p s) = 512"
  using ctr.length_encode_table [OF counters_table]
    sensor.length_encode_table [OF sensors_table]
  by (cases p) (simp add: layout_defs)

lemma smart_log_body_bytes:
  assumes "smart_log_pads p" and "smart_log_wf s"
  shows "smart_log_body (smart_log_bytes p s) = Some s"
proof -
  obtain r his tail where p: "p = (r, his, tail)" by (cases p) auto
  let ?data = "smart_log_bytes p s"
  let ?head = "[CriticalWarning s] @ le_bytes 2 (TemperatureKelvin s) @
    [AvailableSpare s, SpareThreshold s, PercentageUsed s] @ r"
  let ?ctrs = "encode_table counter_bytes his (smart_log_counters s)"
  let ?times = "le_bytes 4 (WarningTempTime s) @ le_bytes 4 (CriticalCompTime s)"
  let ?temps = "encode_table (\<lambda>_. le_bytes 2) (replicate 8 ()) (TempSensor s)"
  have ctab: "table_wf counter_pads (\<lambda>_. True) 10 his (smart_log_counters s)"
    using assms p by (auto intro: counters_table)
  have stab: "table_wf (\<lambda>_. True) (\<lambda>_. True) 8 (replicate 8 ()) (TempSensor s)"
    using assms(2) by (rule sensors_table)
  have len: "length r = 26" "length ?ctrs = 160" "length ?head = 32"
    using ctr.length_encode_table [OF ctab] assms(1) p by simp_all
  have "fill 10 (\<lambda>i. counter_at (?head @ ?ctrs @ (?times @ ?temps @ tail)) (32 + i * 16)) =
      Some (smart_log_counters s)"
    by (rule ctr.fill_encode_table [OF ctab len(3)])
  then have "fill 10 (\<lambda>i. counter_at ?data (32 + i * 16)) = Some (smart_log_counters s)"
    by (simp add: p layout_defs)
  from fill_nth [OF this] have c: "counter_at ?data (32 + i * 16) = Some (smart_log_counters s ! i)"
    if "i < 10" for i using that by blast
  have counters: "counter_at ?data 32 = Some (DataUnitsRead s)"
    "counter_at ?data 48 = Some (DataUnitsWritten s)" "counter_at ?data 64 = Some (HostReads s)"
    "counter_at ?data 80 = Some (HostWrites s)" "counter_at ?data 96 = Some (ControllerBusyTime s)"
    "counter_at ?data 112 = Some (PowerCycles s)" "counter_at ?data 128 = Some (PowerOnHours s)"
    "counter_at ?data 144 = Some (UnsafeShutdowns s)" "counter_at ?data 160 = Some (MediaErrors s)"
    "counter_at ?data 176 = Some (NumErrLogEntries s)"
    using c [of 0] c [of 1] c [of 2] c [of 3] c [of 4] c [of 5] c [of 6] c [of 7] c [of 8] c [of 9]
    by (simp_all add: smart_log_counters_def)
  have "fill 8 (\<lambda>i. read_sensor ((?head @ ?ctrs @ ?times) @ ?temps @ tail) (200 + i * 2)) =
      Some (TempSensor s)"
    by (rule sensor.fill_encode_table [OF stab]) (simp add: len)
  then have temps: "fill 8 (\<lambda>i. read_sensor ?data (200 + i * 2)) = Some (TempSensor s)"
    by (simp add: p layout_defs)
  have "index ?data 0 = Some (CriticalWarning s)" "u16_at ?data 1 = Some (TemperatureKelvin s)"
    "index ?data 3 = Some (AvailableSpare s)" "index ?data 4 = Some (SpareThreshold s)"
    "index ?data 5 = Some (PercentageUsed s)" "u32_at ?data 192 = Some (WarningTempTime s)"
    "u32_at ?data 196 = Some (CriticalCompTime s)"
    by (simp_all add: p layout_defs u16_at_def u32_at_def at_simps len)
  then show ?thesis by (simp add: smart_log_body_def counters temps)
qed

lemma smart_log_surj:
  assumes "length c = 512"
  shows "\<exists>p s. smart_log_pads p \<and> smart_log_wf s \<and> c = smart_log_bytes p s"
proof -
  obtain x1 x2 x3 r ct x4 x5 ts tail where c: "c = x1 @ x2 @ x3 @ r @ ct @ x4 @ x5 @ ts @ tail"
    and len: "length x1 = 1" "length x2 = 2" "length x3 = 3" "length r = 26"
      "length ct = 10 * 16" "length x4 = 4" "length x5 = 4" "length ts = 8 * 2"
      "length tail = 296"
    using split_lengths [of c "[1, 2, 3, 26, 160, 4, 4, 16, 296]"] assms
    by (auto simp: map_eq_Cons_conv)
  obtain his cs where ctab: "table_wf counter_pads (\<lambda>_. True) 10 his cs"
    and ct: "ct = encode_table counter_bytes his cs"
    using ctr.table_surj [OF len(5)] by blast
  obtain us :: "unit list" and tl :: "u16 list" where stab: "table_wf (\<lambda>_. True) (\<lambda>_. True) 8 us tl"
    and ts: "ts = encode_table (\<lambda>_. le_bytes 2) us tl"
    using sensor.table_surj [OF len(8)] by blast
  have us: "us = replicate 8 ()" using stab by (intro replicate_eqI) (auto simp: table_wf_def)
  obtain c0 c1 c2 c3 c4 c5 c6 c7 c8 c9 where cs: "cs = [c0, c1, c2, c3, c4, c5, c6, c7, c8, c9]"
    using ctab by (auto simp: table_wf_def numeral_eq_Suc length_Suc_conv)
  obtain cw sp th us' where b: "x1 = [cw]" "x3 = [sp, th, us']"
    using len(1,3) by (auto simp: numeral_eq_Suc length_Suc_conv)
  obtain tk where tk: "x2 = le_bytes 2 (tk :: u16)" using le_bytes_surj(1) len(2) by blast
  obtain w where w: "x4 = le_bytes 4 (w :: u32)" using le_bytes_surj(2) len(6) by blast
  obtain cc where cc: "x5 = le_bytes 4 (cc :: u32)" using le_bytes_surj(2) len(7) by blast
  let ?s = "\<lparr>CriticalWarning = cw, TemperatureKelvin = tk, AvailableSpare = sp,
    SpareThreshold = th, PercentageUsed = us', DataUnitsRead = c0, DataUnitsWritten = c1,
    HostReads = c2, HostWrites = c3, ControllerBusyTime = c4, PowerCycles = c5,
    PowerOnHours = c6, UnsafeShutdowns = c7, MediaErrors = c8, NumErrLogEntries = c9,
    WarningTempTime = w, CriticalCompTime = cc, TempSensor = tl\<rparr>"
  have "c = smart_log_bytes (r, his, tail) ?s"
    by (simp add: c ct ts us cs b tk w cc layout_defs smart_log_counters_def)
  moreover have "smart_log_pads (r, his, tail)" "smart_log_wf ?s"
    using ctab stab len by (simp_all add: table_wf_def smart_log_wf_def)
  ultimately show ?thesis by blast
qed

interpretation smart_log: response_layout 512 "\<lambda>_. True" smart_log_body ParseSmartLog
  "WrongLength ''NVMe SMART log'' 512" "ChecksumError ''NVMe SMART log''"
  smart_log_bytes smart_log_pads smart_log_wf
  by unfold_locales
    (simp add: ParseSmartLog_def, (fact length_smart_log_bytes smart_log_surj
      smart_log_body_bytes)+)

section \<open>Identify Controller in closed form\<close>

lemma ParseIdentifyController_eq:
  assumes "length data = 4096"
  shows "ParseIdentifyController data = Some (Inr \<lparr>
    ic_VendorID = le_word (take 2 data), ic_Subsys = le_word (take 2 (drop 2 data)),
    ic_SerialNumber = TrimRight (to_string (take 20 (drop 4 data))),
    ic_ModelNumber = TrimRight (to_string (take 40 (drop 24 data))),
    ic_FWRevision = TrimRight (to_string (take 8 (drop 64 data))),
    ic_TotalCapacityBytes = le_word (take 8 (drop 280 data)),
    ic_Version = le_word (take 4 (drop 80 data)), ic_MaxPowerStates = data ! 263 + 1\<rparr>)"
  using assms
  by (simp add: ParseIdentifyController_def slice_in index_in u16_at_def u32_at_def u64_at_def
      Uint16_le_word Uint32_le_word Uint64_le_word numeral_2_eq_2)

lemma ParseIdentifyController_total: "ParseIdentifyController data \<noteq> None"
  by (cases "length data = 4096")
    (simp add: ParseIdentifyController_eq, simp add: ParseIdentifyController_def)

lemma ParseIdentifyController_error_iff:
  "(\<exists>e. ParseIdentifyController data = Some (Inl e)) \<longleftrightarrow> length data \<noteq> 4096"
  by (cases "length data = 4096")
    (simp add: ParseIdentifyController_eq, simp add: ParseIdentifyController_def)

section \<open>The field table\<close>

definition nvme_lookup :: "SmartLog \<Rightarrow> string \<Rightarrow> u64 option" where
  "nvme_lookup s name = (case FieldValue s name of (v, ok) \<Rightarrow> if ok then Some v else None)"

definition nvme_values :: "SmartLog \<Rightarrow> u64 list" where
  "nvme_values s = map (\<lambda>(n, get). get s) smartLogFields"

lemma field_value_loop_map_of:
  "field_value_loop fs s name =
     (case map_of fs name of None \<Rightarrow> (0, False) | Some get \<Rightarrow> (get s, True))"
  by (induction fs s name rule: field_value_loop.induct) auto

lemma nvme_lookup_map_of: "nvme_lookup s name = map_option (\<lambda>get. get s) (map_of smartLogFields name)"
  by (simp add: nvme_lookup_def FieldValue_def field_value_loop_map_of split: option.splits)

lemma field_names_distinct: "distinct (map fst smartLogFields)"
  by code_simp

interpretation nvme: keyed_table FieldNames nvme_lookup nvme_values
proof
  fix s n i
  show "nvme_lookup s n \<noteq> None \<longleftrightarrow> n \<in> set (FieldNames s)"
    by (simp add: nvme_lookup_map_of FieldNames_def map_of_eq_None_iff)
  show "distinct (FieldNames s)" by (simp add: FieldNames_def field_names_distinct)
  show "length (nvme_values s) = length (FieldNames s)"
    by (simp add: FieldNames_def nvme_values_def)
  assume "i < length (FieldNames s)"
  then have i: "i < length smartLogFields" by (simp add: FieldNames_def)
  then have "map_of smartLogFields (fst (smartLogFields ! i)) = Some (snd (smartLogFields ! i))"
    by (simp add: field_names_distinct)
  with i show "nvme_lookup s (FieldNames s ! i) = Some (nvme_values s ! i)"
    by (simp add: nvme_lookup_map_of FieldNames_def nvme_values_def split: prod.splits)
qed

section \<open>Properties\<close>

text \<open>
  C27. \<open>ParseSmartLog\<close> accepts every response of 512 bytes and reads back the Health log it
  encodes; of each 128-bit counter it keeps the low 64 bits, whatever the high half holds.
\<close>

theorem ParseSmartLog_codec:
  "(ParseSmartLog data = Some (Inr s) \<longleftrightarrow>
     smart_log_wf s \<and> (\<exists>p. smart_log_pads p \<and> data = smart_log_bytes p s)) \<and>
   ((\<exists>s. ParseSmartLog data = Some (Inr s)) \<longleftrightarrow> length data = 512) \<and>
   ParseSmartLog data \<noteq> None"
  using smart_log.parse_ok_iff [of data s] smart_log.parse_cases [of data] by auto

text \<open>
  C28. \<open>ParseErrorLog\<close> accepts exactly the concatenations of 64-byte entries, of any number
  (also none), and gives the entries back in order; it never panics.
\<close>

theorem ParseErrorLog_codec:
  "(ParseErrorLog data = Some (Inr es) \<longleftrightarrow>
     (\<exists>ps. table_wf nvme_error_pads (\<lambda>_. True) (length es) ps es \<and>
       data = encode_table nvme_error_bytes ps es)) \<and>
   (ParseErrorLog data = Some (Inl e) \<longleftrightarrow>
     \<not> 64 dvd length data \<and> e = NotMultiple ''NVMe error log'' (length data) 64) \<and>
   ParseErrorLog data \<noteq> None"
  using ParseErrorLog_iff [of data es] ParseErrorLog_total [of data]
  by (auto simp: ParseErrorLog_def mod_eq_0_iff_dvd split: if_splits bind_splits)

text \<open>
  \<open>ParseIdentifyController\<close> never panics, fails exactly on responses that have not 4096
  bytes, and reports as capacity the 64-bit little-endian number at bytes 280 to 287.
\<close>

lemma ParseIdentifyController_total_capacity:
  "if length data = 4096
   then \<exists>ic. ParseIdentifyController data = Some (Inr ic) \<and>
     unat (ic_TotalCapacityBytes ic) = le_val (take 8 (drop 280 data)) \<and>
     unat (ic_MaxPowerStates ic) = (unat (data ! 263) + 1) mod 256
   else ParseIdentifyController data =
     Some (Inl (WrongLength ''identify controller'' 4096 (length data)))"
proof (cases "length data = 4096")
  case True
  then show ?thesis by (simp add: ParseIdentifyController_eq unat_le_word unat_word_ariths)
qed (simp add: ParseIdentifyController_def)

text \<open>
  List mode and get mode agree on NVMe: \<open>FieldNames\<close> has no duplicate, \<open>FieldValue\<close>
  finds a name exactly when it is listed, and then it returns the value of that row: the
  linear search is the lookup in the table as a finite map.
\<close>

lemma FieldValue_keyed:
  "distinct (FieldNames s) \<and>
   (snd (FieldValue s name) \<longleftrightarrow> name \<in> set (FieldNames s)) \<and>
   map (FieldValue s) (FieldNames s) = map (\<lambda>v. (v, True)) (nvme_values s) \<and>
   nvme_lookup s = map_of (zip (FieldNames s) (nvme_values s))"
proof -
  have iff: "snd (FieldValue s n) \<longleftrightarrow> n \<in> set (FieldNames s)" for n
    using nvme.lookup_iff [of s n] by (auto simp: nvme_lookup_def split: prod.splits if_splits)
  have "FieldValue s (FieldNames s ! i) = (nvme_values s ! i, True)" if "i < length (FieldNames s)" for i
    using nvme.lookup_nth [OF that] by (auto simp: nvme_lookup_def split: prod.splits if_splits)
  then have "map (FieldValue s) (FieldNames s) = map (\<lambda>v. (v, True)) (nvme_values s)"
    using nvme.length_vals by (intro nth_equalityI) simp_all
  with iff show ?thesis using nvme.distinct_names nvme.lookup_eq_map_of by blast
qed

text \<open>
  The temperature is Kelvin less 273, never below -272 nor above 65262 degrees, and the
  missing value 0 K is shown as 0 degrees, like 273 K.
\<close>

lemma TemperatureCelsius_range:
  "TemperatureCelsius s \<in> {-272..65262} \<and>
   (TemperatureCelsius s = 0 \<longleftrightarrow> TemperatureKelvin s \<in> {0, 273})"
proof -
  let ?k = "TemperatureKelvin s"
  have bounds: "0 \<le> uint ?k" "uint ?k < 65536" using uint_lt2p [of ?k] by simp_all
  have zero: "?k = 0 \<longleftrightarrow> uint ?k = 0" by (simp add: uint_0_iff)
  have "?k = 273 \<longleftrightarrow> uint ?k = 273" by (simp add: word_uint_eq_iff)
  moreover have "1 \<le> uint ?k" if "?k \<noteq> 0" using that zero bounds by linarith
  ultimately show ?thesis using bounds by (auto simp: TemperatureCelsius_def)
qed

end
