(* ===== verification/Printer_Nvme.thy ===== *)
theory Printer_Nvme
  imports Printer_Ata Nvme
begin

text \<open>
  \<open>internal/printer/nvme.go\<close>: the text of \<open>gosmart <device>\<close> for an NVMe drive. Nothing
  here indexes an array, so the printers are total.
\<close>

definition nvme_major :: "IdentifyController \<Rightarrow> u32" where
  "nvme_major ic = drop_bit 16 (ic_Version ic) AND 0xffff"

definition nvme_minor :: "IdentifyController \<Rightarrow> u32" where
  "nvme_minor ic = drop_bit 8 (ic_Version ic) AND 0xff"

definition printNVMeInfo :: "IdentifyController \<Rightarrow> string" where
  "printNVMeInfo ic =
     ''=== START OF INFORMATION SECTION ==='' @ nl @
     ''Model Number:     '' @ ic_ModelNumber ic @ nl @
     ''Serial Number:    '' @ ic_SerialNumber ic @ nl @
     ''Firmware Version: '' @ ic_FWRevision ic @ nl @
     (if ic_TotalCapacityBytes ic > 0
      then ''Total NVM Capacity: '' @ formatComma (ic_TotalCapacityBytes ic) @ '' bytes ['' @
        formatCapacity (ic_TotalCapacityBytes ic) @ '']'' @ nl
      else []) @
     ''NVMe Version:     '' @ fmt_d (unat (nvme_major ic)) @ ''.'' @ fmt_d (unat (nvme_minor ic)) @ nl @
     nl"

definition printNVMeCriticalWarnings :: "u8 \<Rightarrow> string" where
  "printNVMeCriticalWarnings cw =
     when_bit cw 0x01 (''  Available spare capacity has fallen below threshold.'' @ nl) [] @
     when_bit cw 0x02 (''  Temperature is above or below threshold.'' @ nl) [] @
     when_bit cw 0x04 (''  NVM subsystem reliability has been degraded.'' @ nl) [] @
     when_bit cw 0x08 (''  Media is in read-only mode.'' @ nl) [] @
     when_bit cw 0x10 (''  Volatile memory backup device has failed.'' @ nl) []"

definition nvme_error_line :: "nat \<Rightarrow> NvmeErrorLogEntry \<Rightarrow> string" where
  "nvme_error_line i e =
     (if ne_ErrorCount e = 0 then []
      else ''  '' @ fmt_d i @ '' '' @ fmt_wd 10 (unat (ne_ErrorCount e)) @
        ''  0x'' @ fmt_0x 4 (unat (ne_SQID e)) @ '' 0x'' @ fmt_0x 4 (unat (ne_CMDID e)) @
        ''       0x'' @ fmt_0x 4 (unat (ne_StatusField e)) @
        ''      0x'' @ fmt_0x 4 (unat (ne_ParamErrorLocation e)) @
        ''  0x'' @ fmt_0x 16 (unat (ne_LBA e)) @ '' 0x'' @ fmt_0x 8 (unat (ne_NSID e)) @
        '' 0x'' @ fmt_0x 2 (unat (ne_VendorSpecific e)) @ nl)"

definition printNVMeErrorLog :: "NvmeErrorLogEntry list \<Rightarrow> string" where
  "printNVMeErrorLog entries =
     ''Error Information (NVMe Log 0x01, 16 of the most recent entries)'' @ nl @
     (if \<not> (\<exists>e \<in> set entries. ne_ErrorCount e > 0) then ''No Errors Logged'' @ nl
      else ''Num   ErrCount  SqId   CmdId  StatusField  PELocation          LBA  NSID    VS'' @ nl @
        concat (map (\<lambda>(i, e). nvme_error_line i e) (enumerate 0 entries)))"

text \<open>\<open>formatCapacity(units * 512_000)\<close>: the product is taken in \<open>uint64\<close>.\<close>

definition data_units_bytes :: "u64 \<Rightarrow> u64" where
  "data_units_bytes u = u * 512000"

definition sensor_line :: "nat \<Rightarrow> u16 \<Rightarrow> string" where
  "sensor_line i ts =
     (if ts > 0
      then ''Temperature Sensor '' @ fmt_d (i + 1) @ '':               '' @ fmt_int (uint ts - 273) @
        '' Celsius'' @ nl
      else [])"

definition printNVMeSmartSection ::
    "SmartLog option \<Rightarrow> NvmeErrorLogEntry list \<Rightarrow> string" where
  "printNVMeSmartSection sl errLog =
     ''=== START OF READ SMART DATA SECTION ==='' @ nl @
     (case sl of
        None \<Rightarrow> ''SMART/Health Information not available'' @ nl
      | Some s \<Rightarrow>
          (if CriticalWarning s \<noteq> 0
           then ''SMART overall-health self-assessment test result: FAILED!'' @ nl @
             printNVMeCriticalWarnings (CriticalWarning s)
           else ''SMART overall-health self-assessment test result: PASSED'' @ nl) @ nl @
          ''SMART/Health Information (NVMe Log 0x02)'' @ nl @
          ''Critical Warning:                   0x'' @ fmt_0x 2 (unat (CriticalWarning s)) @ nl @
          ''Temperature:                        '' @ fmt_int (TemperatureCelsius s) @ '' Celsius'' @ nl @
          ''Available Spare:                    '' @ fmt_d (unat (AvailableSpare s)) @ ''%'' @ nl @
          ''Available Spare Threshold:          '' @ fmt_d (unat (SpareThreshold s)) @ ''%'' @ nl @
          ''Percentage Used:                    '' @ fmt_d (unat (PercentageUsed s)) @ ''%'' @ nl @
          ''Data Units Read:                    '' @ formatComma (DataUnitsRead s) @ '' ['' @
            formatCapacity (data_units_bytes (DataUnitsRead s)) @ '']'' @ nl @
          ''Data Units Written:                 '' @ formatComma (DataUnitsWritten s) @ '' ['' @
            formatCapacity (data_units_bytes (DataUnitsWritten s)) @ '']'' @ nl @
          ''Host Read Commands:                 '' @ formatComma (HostReads s) @ nl @
          ''Host Write Commands:                '' @ formatComma (HostWrites s) @ nl @
          ''Controller Busy Time:               '' @ formatComma (ControllerBusyTime s) @ nl @
          ''Power Cycles:                       '' @ formatComma (PowerCycles s) @ nl @
          ''Power On Hours:                     '' @ formatComma (PowerOnHours s) @ nl @
          ''Unsafe Shutdowns:                   '' @ formatComma (UnsafeShutdowns s) @ nl @
          ''Media and Data Integrity Errors:    '' @ formatComma (MediaErrors s) @ nl @
          ''Error Information Log Entries:      '' @ formatComma (NumErrLogEntries s) @ nl @
          (if WarningTempTime s > 0
           then ''Warning  Comp. Temperature Time:    '' @ fmt_d (unat (WarningTempTime s)) @ nl
           else []) @
          (if CriticalCompTime s > 0
           then ''Critical Comp. Temperature Time:    '' @ fmt_d (unat (CriticalCompTime s)) @ nl
           else []) @
          concat (map (\<lambda>(i, ts). sensor_line i ts) (enumerate 0 (TempSensor s))) @ nl @
          printNVMeErrorLog errLog)"

definition PrintNVMeAll ::
    "string \<Rightarrow> string \<Rightarrow> IdentifyController \<Rightarrow> SmartLog option \<Rightarrow> NvmeErrorLogEntry list \<Rightarrow> string" where
  "PrintNVMeAll version path ic sl errLog =
     printHeader version path @ printNVMeInfo ic @ printNVMeSmartSection sl errLog"

section \<open>Properties\<close>

text \<open>
  C40. The bytes behind \<open>Data Units\<close> are computed in 64 bits: the capacity in brackets stands
  for 512000 bytes per unit up to 36028797018963 units, and wraps around from there on.
\<close>

theorem data_units_exact:
  "unat (data_units_bytes u) = unat u * 512000 mod 2 ^ 64 \<and>
   (unat (data_units_bytes u) = unat u * 512000 \<longleftrightarrow> unat u \<le> 36028797018963)"
proof -
  have eq: "unat (data_units_bytes u) = unat u * 512000 mod 2 ^ 64"
    by (simp add: data_units_bytes_def unat_word_ariths)
  have "unat u * 512000 mod 2 ^ 64 = unat u * 512000 \<longleftrightarrow> unat u * 512000 < 2 ^ 64"
    by (metis mod_less mod_less_divisor zero_less_numeral zero_less_power)
  then show ?thesis unfolding eq by auto
qed

lemma and_1f: "cw AND 0x1f = 0 \<longleftrightarrow>
    cw AND 0x01 = 0 \<and> cw AND 0x02 = 0 \<and> cw AND 0x04 = 0 \<and> cw AND 0x08 = 0 \<and> cw AND 0x10 = 0"
  for cw :: u8
proof -
  have "cw AND 0x1f = (cw AND 0x01) OR (cw AND 0x02) OR (cw AND 0x04) OR (cw AND 0x08) OR (cw AND 0x10)"
    by (simp flip: bit.conj_disj_distrib)
  then show ?thesis by (simp add: or_eq_0_iff)
qed

text \<open>
  A drive with any critical warning is reported as failed, but a reason is printed only
  for the warning bits 0 to 4: a warning in the other bits alone is a failure without one.
\<close>

lemma critical_warning_reasons:
  "(printNVMeCriticalWarnings cw = [] \<longleftrightarrow> cw AND 0x1f = 0) \<and>
   printNVMeCriticalWarnings 0x20 = []"
  by (simp add: printNVMeCriticalWarnings_def and_1f nl_def)

end
