(* ===== verification/Device.thy ===== *)
theory Device
  imports Go_Fmt "HOL-Library.State_Monad"
begin

text \<open>
  \<open>internal/device/device.go\<close>: the interfaces \<open>ATADevice\<close> and \<open>NVMeDevice\<close>, as records of
  actions on a world that holds the events seen by the operating system and what the
  program wrote. \<open>device_platform\<close> is the contract of a build of the package (one for Linux,
  one for Windows): what a call returns, and which handles are open afterwards.
\<close>

section \<open>The world\<close>

text \<open>
  Handles are numbers. \<open>Command h code buf\<close> is a device-control call on handle \<open>h\<close> with the
  contents of its input buffer.
\<close>

datatype event =
    Opened nat string
  | OpenFailed string
  | Command nat nat bytes
  | Closed nat

record world =
  events :: "event list"
  stdout :: string
  stderr :: string

type_synonym 'a action = "(world, 'a go) state"
type_synonym 'a call = "(go_error + 'a) action"

text \<open>The handles that are open after a sequence of events, newest first.\<close>

fun live_step :: "nat list \<Rightarrow> event \<Rightarrow> nat list" where
  "live_step hs (Opened h path) = h # hs"
| "live_step hs (Closed h) = remove1 h hs"
| "live_step hs _ = hs"

definition live :: "event list \<Rightarrow> nat list" where
  "live es = foldl live_step [] es"

lemma live_snoc [simp]: "live (es @ [e]) = live_step (live es) e"
  by (simp add: live_def)

section \<open>Sequencing\<close>

text \<open>Nothing runs after a panic; \<open>attempt\<close> is Go's \<open>x, err := m; if err != nil { return wrap(err) }\<close>.\<close>

definition ok :: "'a \<Rightarrow> 'a action" where
  "ok a = State_Monad.return (Some a)"

definition panic :: "'a action" where
  "panic = State_Monad.return None"

definition fail :: "go_error \<Rightarrow> 'a call" where
  "fail e = ok (Inl e)"

definition pure_go :: "'a go \<Rightarrow> 'a action" where
  "pure_go r = State_Monad.return r"

definition and_then :: "'a action \<Rightarrow> ('a \<Rightarrow> 'b action) \<Rightarrow> 'b action" where
  "and_then m k = do { r \<leftarrow> m; case r of None \<Rightarrow> panic | Some a \<Rightarrow> k a }"

definition attempt :: "'a call \<Rightarrow> (go_error \<Rightarrow> go_error) \<Rightarrow> ('a \<Rightarrow> 'b call) \<Rightarrow> 'b call" where
  "attempt m wrap k =
     and_then m (\<lambda>r. case r of Inl e \<Rightarrow> fail (wrap e) | Inr a \<Rightarrow> k a)"

text \<open>\<open>defer close()\<close>: it runs whatever the body did, a panic included; its result is dropped.\<close>

definition deferred :: "(world, 'c) state \<Rightarrow> 'a action \<Rightarrow> 'a action" where
  "deferred close body = do { r \<leftarrow> body; _ \<leftarrow> close; State_Monad.return r }"

definition emit :: "event \<Rightarrow> (world, unit) state" where
  "emit e = State_Monad.State (\<lambda>w. ((), w\<lparr>events := events w @ [e]\<rparr>))"

definition put_stdout :: "string \<Rightarrow> unit action" where
  "put_stdout s = State_Monad.State (\<lambda>w. (Some (), w\<lparr>stdout := stdout w @ s\<rparr>))"

definition put_stderr :: "string \<Rightarrow> unit action" where
  "put_stderr s = State_Monad.State (\<lambda>w. (Some (), w\<lparr>stderr := stderr w @ s\<rparr>))"

section \<open>The interfaces\<close>

text \<open>\<open>SmartStatus\<close> returns both its results: the flag is read even when there is an error.\<close>

record ATADevice =
  dev_Identify :: "bytes call"
  dev_SmartReadData :: "bytes call"
  dev_SmartReadThresholds :: "bytes call"
  dev_SmartStatus :: "(bool \<times> go_error option) action"
  dev_SmartReadLog :: "u8 \<Rightarrow> bytes call"
  dev_Path :: string
  dev_Close :: "(world, go_error option) state"

record NVMeDevice =
  nv_IdentifyController :: "bytes call"
  nv_GetLogPage :: "u8 \<Rightarrow> u32 \<Rightarrow> bytes call"
  nv_Path :: string
  nv_Close :: "(world, go_error option) state"

record platform =
  pf_IsNVMe :: "string \<Rightarrow> bool call"
  pf_OpenATA :: "string \<Rightarrow> ATADevice call"
  pf_OpenNVMe :: "string \<Rightarrow> NVMeDevice call"

section \<open>The contract\<close>

text \<open>\<open>ensures m Q\<close>: from any world, \<open>m\<close> ends with a result and a world that satisfy \<open>Q\<close>.\<close>

definition ensures :: "(world, 'a) state \<Rightarrow> (world \<Rightarrow> 'a \<Rightarrow> world \<Rightarrow> bool) \<Rightarrow> bool" where
  "ensures m Q \<longleftrightarrow> (\<forall>w. Q w (fst (run_state m w)) (snd (run_state m w)))"

definition same_io :: "world \<Rightarrow> world \<Rightarrow> bool" where
  "same_io w w' \<longleftrightarrow> stdout w' = stdout w \<and> stderr w' = stderr w"

definition same_handles :: "world \<Rightarrow> world \<Rightarrow> bool" where
  "same_handles w w' \<longleftrightarrow> live (events w') = live (events w)"

text \<open>A call that keeps the open handles, prints nothing, and returns an error or a \<open>good\<close> value.\<close>

definition call_ok :: "('a \<Rightarrow> bool) \<Rightarrow> 'a call \<Rightarrow> bool" where
  "call_ok good m \<longleftrightarrow> ensures m (\<lambda>w r w'. same_io w w' \<and> same_handles w w' \<and>
     ((\<exists>e. r = Some (Inl e)) \<or> (\<exists>a. r = Some (Inr a) \<and> good a)))"

definition close_ok :: "nat \<Rightarrow> (world, go_error option) state \<Rightarrow> bool" where
  "close_ok h m \<longleftrightarrow> ensures m (\<lambda>w r w'. same_io w w' \<and>
     live (events w') = remove1 h (live (events w)))"

definition ata_device_ok :: "nat \<Rightarrow> ATADevice \<Rightarrow> bool" where
  "ata_device_ok h d \<longleftrightarrow>
     call_ok (\<lambda>b. length b = 512) (dev_Identify d) \<and>
     call_ok (\<lambda>b. length b = 512) (dev_SmartReadData d) \<and>
     call_ok (\<lambda>b. length b = 512) (dev_SmartReadThresholds d) \<and>
     (\<forall>a. call_ok (\<lambda>b. length b = 512) (dev_SmartReadLog d a)) \<and>
     ensures (dev_SmartStatus d) (\<lambda>w r w'. same_io w w' \<and> same_handles w w' \<and>
       (\<exists>failing err. r = Some (failing, err) \<and> (failing \<longrightarrow> err = None))) \<and>
     close_ok h (dev_Close d)"

definition nvme_device_ok :: "nat \<Rightarrow> NVMeDevice \<Rightarrow> bool" where
  "nvme_device_ok h d \<longleftrightarrow>
     call_ok (\<lambda>b. length b = 4096) (nv_IdentifyController d) \<and>
     (\<forall>l size. size \<noteq> 0 \<longrightarrow> call_ok (\<lambda>b. length b = unat size) (nv_GetLogPage d l size)) \<and>
     close_ok h (nv_Close d)"

text \<open>Opening either fails and leaves the handles alone, or returns a device on one new handle.\<close>

definition open_ok :: "(nat \<Rightarrow> 'd \<Rightarrow> bool) \<Rightarrow> 'd call \<Rightarrow> bool" where
  "open_ok dev_ok m \<longleftrightarrow> ensures m (\<lambda>w r w'. same_io w w' \<and>
     ((\<exists>e. r = Some (Inl e)) \<and> same_handles w w' \<or>
      (\<exists>d h. r = Some (Inr d) \<and> dev_ok h d \<and> live (events w') = h # live (events w))))"

locale device_platform =
  fixes P :: platform
  assumes IsNVMe_ok: "call_ok (\<lambda>_. True) (pf_IsNVMe P path)"
    and OpenATA_ok: "open_ok ata_device_ok (pf_OpenATA P path)"
    and OpenNVMe_ok: "open_ok nvme_device_ok (pf_OpenNVMe P path)"

section \<open>Rules\<close>

lemma run_basic [simp]:
  "run_state (ok a) w = (Some a, w)" "run_state panic w = (None, w)"
  "run_state (fail e) w = (Some (Inl e), w)" "run_state (pure_go r) w = (r, w)"
  "run_state (emit ev) w = ((), w\<lparr>events := events w @ [ev]\<rparr>)"
  "run_state (put_stdout s) w = (Some (), w\<lparr>stdout := stdout w @ s\<rparr>)"
  "run_state (put_stderr s) w = (Some (), w\<lparr>stderr := stderr w @ s\<rparr>)"
  by (simp_all add: ok_def panic_def fail_def pure_go_def emit_def put_stdout_def put_stderr_def)

lemma run_and_then:
  "run_state (and_then m k) w =
     (case run_state m w of (None, w') \<Rightarrow> (None, w') | (Some a, w') \<Rightarrow> run_state (k a) w')"
  by (simp add: and_then_def split: prod.splits option.splits)

lemma run_attempt:
  "run_state (attempt m wrap k) w =
     (case run_state m w of
        (None, w') \<Rightarrow> (None, w')
      | (Some (Inl e), w') \<Rightarrow> (Some (Inl (wrap e)), w')
      | (Some (Inr a), w') \<Rightarrow> run_state (k a) w')"
  by (simp add: attempt_def run_and_then split: prod.splits option.splits sum.splits)

lemma run_deferred:
  "run_state (deferred close body) w =
     (case run_state body w of (r, w') \<Rightarrow> (r, snd (run_state close w')))"
  by (simp add: deferred_def split: prod.splits)

lemma ensuresD: "ensures m Q \<Longrightarrow> run_state m w = (r, w') \<Longrightarrow> Q w r w'"
  unfolding ensures_def by (metis fst_conv snd_conv)

lemma ensuresI: "(\<And>w r w'. run_state m w = (r, w') \<Longrightarrow> Q w r w') \<Longrightarrow> ensures m Q"
  unfolding ensures_def by (metis prod.collapse)

lemma same_io_trans: "same_io a b \<Longrightarrow> same_io b c \<Longrightarrow> same_io a c"
  by (simp add: same_io_def)

lemma same_handles_trans: "same_handles a b \<Longrightarrow> same_handles b c \<Longrightarrow> same_handles a c"
  by (simp add: same_handles_def)

lemma same_refl [simp]: "same_io w w" "same_handles w w"
  by (simp_all add: same_io_def same_handles_def)

lemma call_ok_attempt_wrap:
  assumes "call_ok good m"
  shows "call_ok good (attempt m wrap (\<lambda>a. ok (Inr a)))"
  unfolding call_ok_def
proof (rule ensuresI)
  fix w r w'
  assume run: "run_state (attempt m wrap (\<lambda>a. ok (Inr a))) w = (r, w')"
  obtain r1 w1 where m: "run_state m w = (r1, w1)" by fastforce
  from ensuresD [OF assms [unfolded call_ok_def] m] run m
  show "same_io w w' \<and> same_handles w w' \<and>
      ((\<exists>e. r = Some (Inl e)) \<or> (\<exists>a. r = Some (Inr a) \<and> good a))"
    by (auto simp: run_attempt)
qed

section \<open>Rules for the callers\<close>

text \<open>\<open>grows\<close>: what was written before stays in front.\<close>

definition grows :: "string \<Rightarrow> string \<Rightarrow> bool" where
  "grows s t \<longleftrightarrow> (\<exists>u. t = s @ u)"

text \<open>A step of a caller: no panic, nothing on standard output, the open handles kept.\<close>

definition step_ok :: "('a \<Rightarrow> bool) \<Rightarrow> 'a action \<Rightarrow> bool" where
  "step_ok good m \<longleftrightarrow> ensures m (\<lambda>w r w'. stdout w' = stdout w \<and> grows (stderr w) (stderr w') \<and>
     same_handles w w' \<and> (\<exists>a. r = Some a \<and> good a))"

text \<open>
  A whole mode: it returns (no panic), every handle it opened is closed, and standard output
  grows on success only.
\<close>

definition mode_ok :: "unit call \<Rightarrow> bool" where
  "mode_ok m \<longleftrightarrow> ensures m (\<lambda>w r w'. same_handles w w' \<and> grows (stderr w) (stderr w') \<and>
     ((\<exists>e. r = Some (Inl e)) \<and> stdout w' = stdout w \<or>
      r = Some (Inr ()) \<and> grows (stdout w) (stdout w')))"

named_theorems modes \<open>rules that decompose a mode into its steps\<close>

lemma grows_refl [simp]: "grows s s"
  by (simp add: grows_def)

lemma grows_append [simp]: "grows s (s @ t)"
  by (simp add: grows_def)

lemma grows_trans: "grows a b \<Longrightarrow> grows b c \<Longrightarrow> grows a c"
  by (auto simp: grows_def)

lemma ensures_and_then:
  assumes "ensures m (\<lambda>w r w'. \<exists>a. r = Some a \<and> Q w a w')"
    and "\<And>a. ensures (k a) (\<lambda>w1 r w'. \<forall>w. Q w a w1 \<longrightarrow> R w r w')"
  shows "ensures (and_then m k) R"
proof (rule ensuresI)
  fix w r w'
  assume run: "run_state (and_then m k) w = (r, w')"
  obtain r1 w1 where m: "run_state m w = (r1, w1)" by fastforce
  from ensuresD [OF assms(1) m] obtain a where a: "r1 = Some a" "Q w a w1" by blast
  with run m have "run_state (k a) w1 = (r, w')" by (simp add: run_and_then)
  from ensuresD [OF assms(2) this] a(2) show "R w r w'" by blast
qed

lemma ensures_mono: "ensures m Q \<Longrightarrow> (\<And>w r w'. Q w r w' \<Longrightarrow> R w r w') \<Longrightarrow> ensures m R"
  by (simp add: ensures_def)

lemma mode_ok_and_then [modes]:
  assumes "step_ok good m" and "\<And>a. good a \<Longrightarrow> mode_ok (k a)"
  shows "mode_ok (and_then m k)"
  unfolding mode_ok_def
proof (rule ensures_and_then)
  show "ensures m (\<lambda>w r w'. \<exists>a. r = Some a \<and> (good a \<and> stdout w' = stdout w \<and>
      grows (stderr w) (stderr w') \<and> same_handles w w'))"
    using assms(1) unfolding step_ok_def by (rule ensures_mono) blast
  fix a
  show "ensures (k a) (\<lambda>w1 r w'. \<forall>w. good a \<and> stdout w1 = stdout w \<and>
      grows (stderr w) (stderr w1) \<and> same_handles w w1 \<longrightarrow>
      same_handles w w' \<and> grows (stderr w) (stderr w') \<and>
      ((\<exists>e. r = Some (Inl e)) \<and> stdout w' = stdout w \<or>
       r = Some (Inr ()) \<and> grows (stdout w) (stdout w')))"
  proof (cases "good a")
    case True
    from assms(2) [OF this, unfolded mode_ok_def] show ?thesis
      by (rule ensures_mono) (fastforce intro: grows_trans same_handles_trans)
  qed (simp add: ensures_def)
qed

lemma step_ok_call: "call_ok good m \<Longrightarrow> step_ok (\<lambda>r. \<forall>a. r = Inr a \<longrightarrow> good a) m"
  unfolding call_ok_def step_ok_def by (erule ensures_mono) (auto simp: same_io_def)

lemma mode_ok_fail [modes]: "mode_ok (fail e)"
  by (simp add: mode_ok_def ensures_def)

lemma mode_ok_attempt [modes]:
  assumes "call_ok good m" and "\<And>a. good a \<Longrightarrow> mode_ok (k a)"
  shows "mode_ok (attempt m wrap k)"
  unfolding attempt_def
  by (rule mode_ok_and_then [OF step_ok_call [OF assms(1)]])
    (auto split: sum.splits intro: mode_ok_fail assms(2))

lemma call_ok_pure [modes]:
  "r \<noteq> None \<Longrightarrow> (\<And>a. r = Some (Inr a) \<Longrightarrow> good a) \<Longrightarrow> call_ok good (pure_go r)"
  by (cases r; cases "the r") (auto simp: call_ok_def ensures_def)

lemma call_ok_value [modes]: "(\<And>a. r = Inr a \<Longrightarrow> good a) \<Longrightarrow> call_ok good (ok r)"
  by (cases r) (auto simp: call_ok_def ensures_def)

lemma step_ok_pure [modes]: "r \<noteq> None \<Longrightarrow> (\<And>a. r = Some a \<Longrightarrow> good a) \<Longrightarrow> step_ok good (pure_go r)"
  by (auto simp: step_ok_def ensures_def)

lemma mode_ok_open [modes]:
  assumes "open_ok dev_ok m"
    and "\<And>h d. dev_ok h d \<Longrightarrow> close_ok h (close d)"
    and "\<And>h d. dev_ok h d \<Longrightarrow> mode_ok (body d)"
  shows "mode_ok (attempt m wrap (\<lambda>d. deferred (close d) (body d)))"
  unfolding mode_ok_def
proof (rule ensuresI)
  fix w r w'
  assume run: "run_state (attempt m wrap (\<lambda>d. deferred (close d) (body d))) w = (r, w')"
  obtain r1 w1 where m: "run_state m w = (r1, w1)" by fastforce
  let ?goal = "same_handles w w' \<and> grows (stderr w) (stderr w') \<and>
      ((\<exists>e. r = Some (Inl e)) \<and> stdout w' = stdout w \<or>
       r = Some (Inr ()) \<and> grows (stdout w) (stdout w'))"
  from ensuresD [OF assms(1) [unfolded open_ok_def] m]
  consider e where "r1 = Some (Inl e)" "same_handles w w1" "same_io w w1"
    | d h where "r1 = Some (Inr d)" "dev_ok h d" "live (events w1) = h # live (events w)"
      "same_io w w1"
    by blast
  then show ?goal
  proof cases
    case 1
    with run m show ?thesis by (auto simp: run_attempt same_io_def)
  next
    case 2
    obtain r2 w2 where b: "run_state (body d) w1 = (r2, w2)" by fastforce
    obtain r3 w3 where c: "run_state (close d) w2 = (r3, w3)" by fastforce
    have rw: "r = r2" "w' = w3" using run m b c 2(1) by (simp_all add: run_attempt run_deferred)
    note bo = ensuresD [OF assms(3) [OF 2(2), unfolded mode_ok_def] b]
    note co = ensuresD [OF assms(2) [OF 2(2), unfolded close_ok_def] c]
    have "live (events w2) = h # live (events w)" using bo 2(3) by (simp add: same_handles_def)
    then have "same_handles w w'" using co by (simp add: same_handles_def rw)
    with bo co 2(4) show ?thesis by (auto simp: same_io_def rw)
  qed
qed

end
