(* ===== verification/Cmd_Main.thy ===== *)
theory Cmd_Main
  imports Printer_Nvme Device
begin

text \<open>
  \<open>cmd/gosmart/main.go\<close>, the three modes: \<open>run\<close> (full report), \<open>runList\<close> and \<open>runGet\<close>,
  each for ATA and NVMe devices, over an arbitrary platform. A mode is a call that returns
  nil (\<open>Inr ()\<close>) or an error and acts on the world: device commands, standard output and
  the warnings on standard error. The lemmas inside \<open>device_platform\<close> hold for every build.
\<close>

section \<open>Pieces\<close>

text \<open>\<open>el, _ = parse(data)\<close> after \<open>err == nil\<close>: an error of either step leaves a nil pointer.\<close>

definition optional_log :: "bytes call \<Rightarrow> (bytes \<Rightarrow> (go_error + 'a) go) \<Rightarrow> 'a option action" where
  "optional_log m parse =
     and_then m (\<lambda>r. case r of
         Inl e \<Rightarrow> ok None
       | Inr data \<Rightarrow> and_then (pure_go (parse data)) (\<lambda>p. case p of
           Inl e \<Rightarrow> ok None
         | Inr v \<Rightarrow> ok (Some v)))"

definition print_line :: "string \<Rightarrow> unit action" where
  "print_line s = put_stdout (s @ nl)"

fun print_lines :: "string list \<Rightarrow> unit action" where
  "print_lines [] = ok ()"
| "print_lines (s # ss) = and_then (print_line s) (\<lambda>_. print_lines ss)"

definition finish :: "unit action \<Rightarrow> unit call" where
  "finish m = and_then m (\<lambda>_. ok (Inr ()))"

definition isNVMePath :: "platform \<Rightarrow> string \<Rightarrow> bool call" where
  "isNVMePath P path =
     attempt (pf_IsNVMe P path) (Wrapped ''detect device type'') (\<lambda>b. ok (Inr b))"

section \<open>Full output\<close>

text \<open>The error of \<open>SmartStatus\<close> is a warning: the flag is still used.\<close>

definition smart_status_warned :: "ATADevice \<Rightarrow> bool action" where
  "smart_status_warned dev =
     and_then (dev_SmartStatus dev) (\<lambda>(failing, err).
     case err of
       None \<Rightarrow> ok failing
     | Some e \<Rightarrow> and_then (put_stderr (''Warning: SMART STATUS: '' @ error_message e @ nl))
         (\<lambda>_. ok failing))"

definition ata_report :: "string \<Rightarrow> string \<Rightarrow> ATADevice \<Rightarrow> unit call" where
  "ata_report version path dev =
     attempt (dev_Identify dev) (Wrapped ''IDENTIFY DEVICE'') (\<lambda>idData.
     attempt (pure_go (ParseIdentify idData)) id (\<lambda>i.
     attempt (dev_SmartReadData dev) (Wrapped ''SMART READ DATA'') (\<lambda>svData.
     attempt (pure_go (ParseSmartValues svData)) id (\<lambda>sv.
     attempt (dev_SmartReadThresholds dev) (Wrapped ''SMART READ THRESHOLDS'') (\<lambda>stData.
     attempt (pure_go (ParseSmartThresholds stData)) id (\<lambda>st.
     and_then (smart_status_warned dev) (\<lambda>smartFailing.
     and_then (optional_log (dev_SmartReadLog dev SmartReadLogAddrError) ParseSmartErrorLog) (\<lambda>el.
     and_then (optional_log (dev_SmartReadLog dev SmartReadLogAddrSelfTest) ParseSmartSelfTestLog)
       (\<lambda>sl.
     and_then (optional_log (dev_SmartReadLog dev SmartReadLogAddrSelective)
         ParseSmartSelectiveSelfTestLog) (\<lambda>selSl.
     and_then (pure_go (PrintATAAll version path i (Some sv) (Some st) smartFailing el sl selSl))
       (\<lambda>out. finish (put_stdout out))))))))))))"

definition runATA :: "platform \<Rightarrow> string \<Rightarrow> string \<Rightarrow> unit call" where
  "runATA P version path =
     attempt (pf_OpenATA P path) (Wrapped ''open ATA device'') (\<lambda>dev.
       deferred (dev_Close dev) (ata_report version path dev))"

text \<open>A nil slice and an empty slice print alike, so the missing error log is the empty list.\<close>

definition nvme_report :: "string \<Rightarrow> string \<Rightarrow> NVMeDevice \<Rightarrow> unit call" where
  "nvme_report version path dev =
     attempt (nv_IdentifyController dev) (Wrapped ''NVMe Identify Controller'') (\<lambda>icData.
     attempt (pure_go (ParseIdentifyController icData)) id (\<lambda>ic.
     and_then (optional_log (nv_GetLogPage dev 0x02 512) ParseSmartLog) (\<lambda>sl.
     and_then (optional_log (nv_GetLogPage dev 0x01 (16 * 64)) ParseErrorLog) (\<lambda>entries.
     finish (put_stdout (PrintNVMeAll version path ic sl
       (case entries of None \<Rightarrow> [] | Some es \<Rightarrow> es)))))))"

definition runNVMe :: "platform \<Rightarrow> string \<Rightarrow> string \<Rightarrow> unit call" where
  "runNVMe P version path =
     attempt (pf_OpenNVMe P path) (Wrapped ''open NVMe device'') (\<lambda>dev.
       deferred (nv_Close dev) (nvme_report version path dev))"

definition run :: "platform \<Rightarrow> string \<Rightarrow> string \<Rightarrow> unit call" where
  "run P version path =
     attempt (isNVMePath P path) id (\<lambda>nvmeDev.
       if nvmeDev then runNVMe P version path else runATA P version path)"

section \<open>List mode\<close>

text \<open>The part \<open>listATA\<close> and \<open>getATA\<close> have in common: the attributes and the rotation rate.\<close>

definition ata_values :: "ATADevice \<Rightarrow> (SmartValues \<times> int \<Rightarrow> 'b call) \<Rightarrow> 'b call" where
  "ata_values dev k =
     attempt (dev_Identify dev) (Wrapped ''IDENTIFY DEVICE'') (\<lambda>idData.
     attempt (pure_go (ParseIdentify idData)) id (\<lambda>i.
     attempt (dev_SmartReadData dev) (Wrapped ''SMART READ DATA'') (\<lambda>svData.
     attempt (pure_go (ParseSmartValues svData)) id (\<lambda>sv. k (sv, id_RPM i)))))"

definition nvme_smart_log :: "NVMeDevice \<Rightarrow> (SmartLog \<Rightarrow> 'b call) \<Rightarrow> 'b call" where
  "nvme_smart_log dev k =
     attempt (nv_GetLogPage dev 0x02 512) (Wrapped ''NVMe SMART log'') (\<lambda>slData.
     attempt (pure_go (ParseSmartLog slData)) id k)"

definition listATA :: "platform \<Rightarrow> string \<Rightarrow> unit call" where
  "listATA P path =
     attempt (pf_OpenATA P path) (Wrapped ''open ATA device'') (\<lambda>dev.
       deferred (dev_Close dev)
         (ata_values dev (\<lambda>(sv, rpm). finish (print_lines (AttrNames sv rpm)))))"

definition listNVMe :: "platform \<Rightarrow> string \<Rightarrow> unit call" where
  "listNVMe P path =
     attempt (pf_OpenNVMe P path) (Wrapped ''open NVMe device'') (\<lambda>dev.
       deferred (nv_Close dev)
         (nvme_smart_log dev (\<lambda>sl. finish (print_lines (FieldNames sl)))))"

definition runList :: "platform \<Rightarrow> string \<Rightarrow> unit call" where
  "runList P path =
     attempt (isNVMePath P path) id (\<lambda>nvmeDev.
       if nvmeDev then listNVMe P path else listATA P path)"

section \<open>Get mode\<close>

definition getATA :: "platform \<Rightarrow> string \<Rightarrow> string \<Rightarrow> unit call" where
  "getATA P path field =
     attempt (pf_OpenATA P path) (Wrapped ''open ATA device'') (\<lambda>dev.
       deferred (dev_Close dev)
         (ata_values dev (\<lambda>r.
          attempt (ok (get_field ata_lookup r field)) id (\<lambda>a.
          and_then (pure_go (RawValue48 a)) (\<lambda>v. finish (print_line (fmt_d (unat v))))))))"

definition getNVMe :: "platform \<Rightarrow> string \<Rightarrow> string \<Rightarrow> unit call" where
  "getNVMe P path field =
     attempt (pf_OpenNVMe P path) (Wrapped ''open NVMe device'') (\<lambda>dev.
       deferred (nv_Close dev)
         (nvme_smart_log dev (\<lambda>sl.
          attempt (ok (get_field nvme_lookup sl field)) id (\<lambda>v.
          finish (print_line (fmt_d (unat v)))))))"

definition runGet :: "platform \<Rightarrow> string \<Rightarrow> string \<Rightarrow> unit call" where
  "runGet P path field =
     attempt (isNVMePath P path) id (\<lambda>nvmeDev.
       if nvmeDev then getNVMe P path field else getATA P path field)"

section \<open>The command line\<close>

text \<open>The \<open>switch\<close> of \<open>main\<close> on the parsed flags: a mode, or the usage text and exit code 1.\<close>

datatype command = Full string | ListNames string | Get string string | Usage

definition dispatch :: "bool \<Rightarrow> string list \<Rightarrow> command" where
  "dispatch list args =
     (if list \<and> length args = 1 then ListNames (args ! 0)
      else if \<not> list \<and> length args = 2 then Get (args ! 0) (args ! 1)
      else if \<not> list \<and> length args = 1 then Full (args ! 0)
      else Usage)"

definition usage_text :: string where
  "usage_text =
     ''Usage: gosmart [options] <device>'' @ nl @
     ''       gosmart [options] -l <device>'' @ nl @
     ''       gosmart [options] <device> <field>'' @ nl @ nl @
     ''Options:'' @ nl @
     ''  -l                     List available SMART field names'' @ nl @
     ''  -t, --timeout <secs>   Timeout in seconds (default 5, 0 = no limit)'' @ nl"

definition usage :: "unit action" where
  "usage = put_stderr usage_text"

fun mode_of :: "platform \<Rightarrow> string \<Rightarrow> command \<Rightarrow> unit call option" where
  "mode_of P version (Full path) = Some (run P (''gosmart '' @ version) path)"
| "mode_of P version (ListNames path) = Some (runList P path)"
| "mode_of P version (Get path field) = Some (runGet P path field)"
| "mode_of P version Usage = None"

section \<open>Every mode is safe on every platform\<close>

lemma mode_ok_finish [modes]: "mode_ok (finish (put_stdout s))"
  by (simp add: mode_ok_def ensures_def finish_def run_and_then same_handles_def)

lemma run_print_lines:
  "run_state (print_lines ss) w = (Some (), w\<lparr>stdout := stdout w @ concat (map (\<lambda>s. s @ nl) ss)\<rparr>)"
  by (induction ss arbitrary: w) (simp_all add: run_and_then print_line_def)

lemma mode_ok_lines [modes]: "mode_ok (finish (print_lines ss))" "mode_ok (finish (print_line s))"
  by (simp_all add: mode_ok_def ensures_def finish_def run_and_then same_handles_def
      run_print_lines print_line_def)

lemma step_ok_optional [modes]:
  assumes "call_ok g m" and "\<And>d. parse d \<noteq> None" and "\<And>d a. parse d = Some (Inr a) \<Longrightarrow> good a"
  shows "step_ok (pred_option good) (optional_log m parse)"
  unfolding step_ok_def
proof (rule ensuresI)
  fix w r w'
  assume run: "run_state (optional_log m parse) w = (r, w')"
  obtain r1 w1 where m: "run_state m w = (r1, w1)" by fastforce
  from ensuresD [OF assms(1) [unfolded call_ok_def] m]
  have io: "stdout w1 = stdout w" "stderr w1 = stderr w" "same_handles w w1"
    and r1: "(\<exists>e. r1 = Some (Inl e)) \<or> (\<exists>d. r1 = Some (Inr d))"
    by (auto simp: same_io_def)
  from r1 have "\<exists>a. r = Some a \<and> pred_option good a \<and> w' = w1"
  proof (elim disjE exE)
    fix d assume r1: "r1 = Some (Inr d)"
    obtain p where p: "parse d = Some p" using assms(2) by blast
    show ?thesis
      using run m r1 p assms(3) [of d] by (cases p) (auto simp: optional_log_def run_and_then)
  qed (use run m in \<open>auto simp: optional_log_def run_and_then\<close>)
  with io show "stdout w' = stdout w \<and> grows (stderr w) (stderr w') \<and> same_handles w w' \<and>
      (\<exists>a. r = Some a \<and> pred_option good a)"
    by auto
qed

lemma step_ok_warned [modes]:
  assumes "ata_device_ok h dev"
  shows "step_ok (\<lambda>_. True) (smart_status_warned dev)"
  unfolding step_ok_def
proof (rule ensuresI)
  fix w r w'
  assume run: "run_state (smart_status_warned dev) w = (r, w')"
  obtain r1 w1 where m: "run_state (dev_SmartStatus dev) w = (r1, w1)" by fastforce
  have "ensures (dev_SmartStatus dev) (\<lambda>w r w'. same_io w w' \<and> same_handles w w' \<and>
      (\<exists>failing err. r = Some (failing, err) \<and> (failing \<longrightarrow> err = None)))"
    using assms by (simp add: ata_device_ok_def)
  from ensuresD [OF this m] run m
  show "stdout w' = stdout w \<and> grows (stderr w) (stderr w') \<and> same_handles w w' \<and>
      (\<exists>a. r = Some a \<and> True)"
    by (auto simp: smart_status_warned_def run_and_then same_io_def same_handles_def
        split: option.splits)
qed

lemma parse_totals:
  "ParseSmartErrorLog d \<noteq> None" "ParseSmartSelfTestLog d \<noteq> None"
  "ParseSmartSelectiveSelfTestLog d \<noteq> None" "ParseSmartValues d \<noteq> None"
  "ParseSmartThresholds d \<noteq> None" "ParseSmartLog d \<noteq> None"
  by (rule error_log.parse_total self_test_log.parse_total selective_log.parse_total
      smart_values.parse_total smart_thresholds.parse_total smart_log.parse_total)+

lemma parse_wfs:
  "ParseSmartValues d = Some (Inr sv) \<Longrightarrow> smart_values_wf sv"
  "ParseSmartThresholds d = Some (Inr st) \<Longrightarrow> smart_thresholds_wf st"
  "ParseSmartErrorLog d = Some (Inr el) \<Longrightarrow> error_log_wf el"
  by (simp_all add: smart_values.parse_ok_iff smart_thresholds.parse_ok_iff error_log.parse_ok_iff)

lemma mode_ok_parse [modes]:
  assumes "r \<noteq> None" and "\<And>a. r = Some (Inr a) \<Longrightarrow> mode_ok (k a)"
  shows "mode_ok (attempt (pure_go r) wrap k)"
  by (rule mode_ok_attempt [OF call_ok_pure [where good = "\<lambda>a. r = Some (Inr a)"]])
    (use assms in auto)

lemma mode_ok_optional [modes]:
  assumes "call_ok g m" and "\<And>d. parse d \<noteq> None"
    and "\<And>x. pred_option (\<lambda>a. \<exists>d. parse d = Some (Inr a)) x \<Longrightarrow> mode_ok (k x)"
  shows "mode_ok (and_then (optional_log m parse) k)"
  by (rule mode_ok_and_then [OF step_ok_optional [OF assms(1),
      where good = "\<lambda>a. \<exists>d. parse d = Some (Inr a)"]]) (use assms(2,3) in auto)

lemma ata_device_calls:
  assumes "ata_device_ok h dev"
  shows "call_ok (\<lambda>b. length b = 512) (dev_Identify dev)"
    "call_ok (\<lambda>b. length b = 512) (dev_SmartReadData dev)"
    "call_ok (\<lambda>b. length b = 512) (dev_SmartReadThresholds dev)"
    "call_ok (\<lambda>b. length b = 512) (dev_SmartReadLog dev a)" "close_ok h (dev_Close dev)"
  using assms by (simp_all add: ata_device_ok_def)

lemma nvme_device_calls:
  assumes "nvme_device_ok h dev"
  shows "call_ok (\<lambda>b. length b = 4096) (nv_IdentifyController dev)"
    "n \<noteq> 0 \<Longrightarrow> call_ok (\<lambda>b. length b = unat n) (nv_GetLogPage dev l n)"
    "close_ok h (nv_Close dev)"
  using assms by (simp_all add: nvme_device_ok_def)

lemma print_total:
  assumes "ParseSmartValues d1 = Some (Inr sv)" and "ParseSmartThresholds d2 = Some (Inr st)"
    and "pred_option (\<lambda>a. \<exists>d. ParseSmartErrorLog d = Some (Inr a)) el"
  shows "PrintATAAll version path i (Some sv) (Some st) failing el sl ssl \<noteq> None"
  using assms by (intro PrintATAAll_total) (auto simp: parse_wfs elim!: option.pred_mono_strong)

lemma ata_report_ok [modes]:
  assumes dev: "ata_device_ok h dev"
  shows "mode_ok (ata_report version path dev)"
  unfolding ata_report_def
  by (intro mode_ok_attempt [OF ata_device_calls(1) [OF dev]]
      mode_ok_attempt [OF ata_device_calls(2) [OF dev]]
      mode_ok_attempt [OF ata_device_calls(3) [OF dev]]
      mode_ok_optional [OF ata_device_calls(4) [OF dev]]
      mode_ok_and_then [OF step_ok_warned [OF dev]]
      mode_ok_and_then [OF step_ok_pure [OF print_total, where good = "\<lambda>_. True"]]
      mode_ok_parse mode_ok_finish ParseIdentify_total parse_totals TrueI)

lemma nvme_report_ok [modes]:
  assumes dev: "nvme_device_ok h dev"
  shows "mode_ok (nvme_report version path dev)"
  unfolding nvme_report_def
  by (intro mode_ok_attempt [OF nvme_device_calls(1) [OF dev]]
      mode_ok_optional [OF nvme_device_calls(2) [OF dev]]
      mode_ok_parse mode_ok_finish ParseIdentifyController_total parse_totals
      ParseErrorLog_total) simp_all

lemma ata_values_ok [modes]:
  assumes dev: "ata_device_ok h dev"
    and "\<And>d sv rpm. ParseSmartValues d = Some (Inr sv) \<Longrightarrow> mode_ok (k (sv, rpm))"
  shows "mode_ok (ata_values dev k)"
  unfolding ata_values_def
  by (intro mode_ok_attempt [OF ata_device_calls(1) [OF dev]]
      mode_ok_attempt [OF ata_device_calls(2) [OF dev]] mode_ok_parse
      ParseIdentify_total parse_totals) (rule assms(2))

lemma nvme_smart_log_ok [modes]:
  assumes dev: "nvme_device_ok h dev" and "\<And>sl. mode_ok (k sl)"
  shows "mode_ok (nvme_smart_log dev k)"
  unfolding nvme_smart_log_def
  by (intro mode_ok_attempt [OF nvme_device_calls(2) [OF dev]] mode_ok_parse parse_totals assms(2))
    simp

text \<open>An attribute that a lookup finds has a complete raw value.\<close>

lemma get_raw_ok:
  assumes "ParseSmartValues d = Some (Inr sv)"
  shows "mode_ok (attempt (ok (get_field ata_lookup (sv, rpm) field)) id (\<lambda>a.
    and_then (pure_go (RawValue48 a)) (\<lambda>v. finish (print_line (fmt_d (unat v))))))"
proof (rule mode_ok_attempt [OF call_ok_value [where good = attribute_wf]])
  fix a assume "get_field ata_lookup (sv, rpm) field = Inr a"
  then have "a \<in> set (sv_Attributes sv)"
    by (auto simp: get_field_def ata_lookup_def AttrByName_find find_Some_iff
        split: option.splits)
  then show "attribute_wf a" using parse_wfs(1) [OF assms] by (simp add: smart_values_wf_def)
next
  fix a assume "attribute_wf a"
  then show "mode_ok (and_then (pure_go (RawValue48 a)) (\<lambda>v. finish (print_line (fmt_d (unat v)))))"
    by (intro mode_ok_and_then [OF step_ok_pure [where good = "\<lambda>_. True"]] mode_ok_lines)
      (simp_all add: RawValue48_eq)
qed

definition all_modes :: "platform \<Rightarrow> string \<Rightarrow> string \<Rightarrow> string \<Rightarrow> unit call list" where
  "all_modes P version path field = [run P version path, runList P path, runGet P path field]"

lemma mode_okD:
  assumes "mode_ok m"
  shows "fst (run_state m w) \<noteq> None"
    and "live (events (snd (run_state m w))) = live (events w)"
    and "if fst (run_state m w) = Some (Inr ()) then grows (stdout w) (stdout (snd (run_state m w)))
      else stdout (snd (run_state m w)) = stdout w"
  using ensuresD [OF assms [unfolded mode_ok_def] surjective_pairing [of "run_state m w"]]
  by (auto simp: same_handles_def)

context device_platform
begin

lemma isNVMePath_ok: "call_ok (\<lambda>_. True) (isNVMePath P path)"
  unfolding isNVMePath_def by (rule call_ok_attempt_wrap [OF IsNVMe_ok])

lemma run_ok: "mode_ok (run P version path)"
  unfolding run_def runATA_def runNVMe_def
  by (rule mode_ok_attempt [OF isNVMePath_ok])
    (auto intro!: mode_ok_open [OF OpenATA_ok] mode_ok_open [OF OpenNVMe_ok]
      intro: ata_report_ok nvme_report_ok ata_device_calls nvme_device_calls)

lemma runList_ok: "mode_ok (runList P path)"
  unfolding runList_def listATA_def listNVMe_def
  by (rule mode_ok_attempt [OF isNVMePath_ok])
    (auto intro!: mode_ok_open [OF OpenATA_ok] mode_ok_open [OF OpenNVMe_ok]
      intro: ata_values_ok nvme_smart_log_ok mode_ok_lines ata_device_calls nvme_device_calls)

lemma runGet_ok: "mode_ok (runGet P path field)"
  unfolding runGet_def getATA_def getNVMe_def
  by (rule mode_ok_attempt [OF isNVMePath_ok])
    (auto intro!: mode_ok_open [OF OpenATA_ok] mode_ok_open [OF OpenNVMe_ok]
      intro: ata_values_ok nvme_smart_log_ok get_raw_ok mode_ok_lines
        mode_ok_attempt [OF call_ok_value [where good = "\<lambda>_. True"]]
        ata_device_calls nvme_device_calls)

lemma all_modes_ok: "list_all mode_ok (all_modes P version path field)"
  by (simp add: all_modes_def run_ok runList_ok runGet_ok)

end

section \<open>Properties\<close>

text \<open>
  The command line decides the mode by the flag and the number of arguments alone, and
  every other command line ends in the usage text: no arguments, more than two, or two
  arguments with \<open>-l\<close>.
\<close>

lemma dispatch_usage_iff:
  "(dispatch list args = Usage \<longleftrightarrow> length args \<notin> {1, 2} \<or> length args = 2 \<and> list) \<and>
   (mode_of P version (dispatch list args) = None \<longleftrightarrow> dispatch list args = Usage)"
  by (auto simp: dispatch_def)

end
