(* ===== verification/Cmd_Results.thy ===== *)
theory Cmd_Results
  imports Cmd_Main
begin

text \<open>
  What the modes of \<open>cmd/gosmart\<close> print, as a function of what the drive answers. \<open>yields\<close>
  says that a call returns the same result and writes the same text whenever it is made; a
  drive is attached to a platform when opening it and asking it yield fixed answers. The
  lemmas follow a mode step by step to its output.
\<close>

section \<open>Calls with a fixed outcome\<close>

definition yields :: "(world, 'a) state \<Rightarrow> 'a \<Rightarrow> string \<Rightarrow> string \<Rightarrow> bool" where
  "yields m r out err \<longleftrightarrow> (\<forall>w. fst (run_state m w) = r \<and>
     stdout (snd (run_state m w)) = stdout w @ out \<and> stderr (snd (run_state m w)) = stderr w @ err)"

definition silent :: "(world, 'a) state \<Rightarrow> bool" where
  "silent m \<longleftrightarrow> (\<forall>w. same_io w (snd (run_state m w)))"

lemma yieldsI:
  assumes "\<And>w. \<exists>w'. run_state m w = (r, w') \<and> stdout w' = stdout w @ out \<and> stderr w' = stderr w @ err"
  shows "yields m r out err"
  unfolding yields_def
proof
  fix w
  from assms [of w] obtain w' where "run_state m w = (r, w')" "stdout w' = stdout w @ out"
    "stderr w' = stderr w @ err" by blast
  then show "fst (run_state m w) = r \<and> stdout (snd (run_state m w)) = stdout w @ out \<and>
      stderr (snd (run_state m w)) = stderr w @ err" by simp
qed

lemma yieldsD:
  "yields m r out err \<Longrightarrow>
     \<exists>w'. run_state m w = (r, w') \<and> stdout w' = stdout w @ out \<and> stderr w' = stderr w @ err"
  unfolding yields_def by (metis prod.collapse)

lemma yields_and_then:
  assumes "yields m (Some a) o1 e1" and "yields (k a) r o2 e2"
  shows "yields (and_then m k) r (o1 @ o2) (e1 @ e2)"
proof (rule yieldsI)
  fix w
  obtain w1 where w1: "run_state m w = (Some a, w1)" "stdout w1 = stdout w @ o1"
    "stderr w1 = stderr w @ e1" using yieldsD [OF assms(1)] by blast
  moreover obtain w2 where "run_state (k a) w1 = (r, w2)" "stdout w2 = stdout w1 @ o2"
    "stderr w2 = stderr w1 @ e2" using yieldsD [OF assms(2)] by blast
  ultimately show "\<exists>w'. run_state (and_then m k) w = (r, w') \<and>
      stdout w' = stdout w @ o1 @ o2 \<and> stderr w' = stderr w @ e1 @ e2"
    by (simp add: run_and_then)
qed

text \<open>Most steps write nothing.\<close>

lemma yields_then:
  "yields m (Some a) [] e1 \<Longrightarrow> yields (k a) r out e2 \<Longrightarrow> yields (and_then m k) r out (e1 @ e2)"
  using yields_and_then [of m a "[]"] by simp

lemma yields_attempt:
  "yields m (Some (Inr a)) [] [] \<Longrightarrow> yields (k a) r out err \<Longrightarrow> yields (attempt m wrap k) r out err"
  unfolding attempt_def
  using yields_then [of m "Inr a" "[]" "\<lambda>x. case x of Inl e \<Rightarrow> fail (wrap e) | Inr b \<Rightarrow> k b"]
  by simp

lemma yields_parse:
  "p = Some (Inr a) \<Longrightarrow> yields (k a) r out err \<Longrightarrow>
     yields (attempt (pure_go p) wrap k) r out err"
  by (rule yields_attempt) (simp_all add: yields_def)

lemma yields_deferred:
  assumes "yields body r out err" and "silent close"
  shows "yields (deferred close body) r out err"
proof (rule yieldsI)
  fix w
  obtain w1 where "run_state body w = (r, w1)" "stdout w1 = stdout w @ out"
    "stderr w1 = stderr w @ err" using yieldsD [OF assms(1)] by blast
  with assms(2) show "\<exists>w'. run_state (deferred close body) w = (r, w') \<and>
      stdout w' = stdout w @ out \<and> stderr w' = stderr w @ err"
    by (simp add: run_deferred silent_def same_io_def)
qed

lemma yields_basic:
  "yields (ok a) (Some a) [] []" "yields (pure_go x) x [] []"
  "yields (put_stderr s) (Some ()) [] s" "yields (finish (put_stdout s)) (Some (Inr ())) s []"
  "yields (finish (print_lines ss)) (Some (Inr ())) (concat (map (\<lambda>s. s @ nl) ss)) []"
  "yields (finish (print_line s)) (Some (Inr ())) (s @ nl) []"
  by (simp_all add: yields_def finish_def run_and_then run_print_lines print_line_def)

section \<open>ATA drives\<close>

text \<open>
  \<open>path\<close> is an ATA drive on platform \<open>P\<close>: opening gives \<open>dev\<close>, which answers IDENTIFY
  DEVICE with \<open>idd\<close> and SMART READ DATA with \<open>svd\<close>, and these parse to \<open>i\<close> and \<open>sv\<close>.
\<close>

definition attached_ata ::
    "platform \<Rightarrow> string \<Rightarrow> ATADevice \<Rightarrow> IdentifyInfo \<Rightarrow> SmartValues \<Rightarrow> bool" where
  "attached_ata P path dev i sv \<longleftrightarrow>
     yields (pf_IsNVMe P path) (Some (Inr False)) [] [] \<and>
     yields (pf_OpenATA P path) (Some (Inr dev)) [] [] \<and> silent (dev_Close dev) \<and>
     (\<exists>idd. yields (dev_Identify dev) (Some (Inr idd)) [] [] \<and> ParseIdentify idd = Some (Inr i)) \<and>
     (\<exists>svd. yields (dev_SmartReadData dev) (Some (Inr svd)) [] [] \<and>
       ParseSmartValues svd = Some (Inr sv))"

lemma isNVMePath_yields:
  assumes "yields (pf_IsNVMe P path) (Some (Inr b)) [] []"
  shows "yields (isNVMePath P path) (Some (Inr b)) [] []"
  unfolding isNVMePath_def by (rule yields_attempt [OF assms yields_basic(1)])

lemma on_ata_drive:
  assumes dev: "attached_ata P path dev i sv" and body: "yields (body dev) r out err"
  shows "yields (attempt (isNVMePath P path) id (\<lambda>n. if n then other else
      attempt (pf_OpenATA P path) wrap (\<lambda>dev. deferred (dev_Close dev) (body dev)))) r out err"
proof (rule yields_attempt [OF isNVMePath_yields])
  show "yields (pf_IsNVMe P path) (Some (Inr False)) [] []"
    using dev by (simp add: attached_ata_def)
  have "yields (attempt (pf_OpenATA P path) wrap (\<lambda>dev. deferred (dev_Close dev) (body dev)))
      r out err"
    using dev body by (intro yields_attempt [where a = dev] yields_deferred)
      (simp_all add: attached_ata_def)
  then show "yields (if False then other else attempt (pf_OpenATA P path) wrap
      (\<lambda>dev. deferred (dev_Close dev) (body dev))) r out err" by simp
qed

lemma ata_values_yields:
  assumes "attached_ata P path dev i sv" and "yields (k (sv, id_RPM i)) r out err"
  shows "yields (ata_values dev k) r out err"
proof -
  from assms(1) obtain idd svd where
    "yields (dev_Identify dev) (Some (Inr idd)) [] []" "ParseIdentify idd = Some (Inr i)"
    "yields (dev_SmartReadData dev) (Some (Inr svd)) [] []" "ParseSmartValues svd = Some (Inr sv)"
    by (auto simp: attached_ata_def)
  then show ?thesis
    unfolding ata_values_def using assms(2) by (blast intro: yields_attempt yields_parse)
qed

lemma runList_ata:
  assumes "attached_ata P path dev i sv"
  shows "yields (runList P path) (Some (Inr ()))
    (concat (map (\<lambda>n. n @ nl) (AttrNames sv (id_RPM i)))) []"
  unfolding runList_def listATA_def
  by (intro on_ata_drive [OF assms] ata_values_yields [OF assms])
    (simp add: yields_basic)

lemma attached_ata_wf: "attached_ata P path dev i sv \<Longrightarrow> smart_values_wf sv"
  by (auto simp: attached_ata_def parse_wfs)

lemma runGet_ata:
  assumes dev: "attached_ata P path dev i sv"
  shows "yields (runGet P path field)
    (Some (if AttrByName sv field (id_RPM i) = None then Inl (FieldNotFound field) else Inr ()))
    (case AttrByName sv field (id_RPM i) of None \<Rightarrow> []
     | Some a \<Rightarrow> fmt_d (le_val (attr_Raw a)) @ nl) []"
  unfolding runGet_def getATA_def
proof (intro on_ata_drive [OF dev] ata_values_yields [OF dev])
  show "yields (attempt (ok (get_field ata_lookup (sv, id_RPM i) field)) id
      (\<lambda>a. and_then (pure_go (RawValue48 a)) (\<lambda>v. finish (print_line (fmt_d (unat v))))))
    (Some (if AttrByName sv field (id_RPM i) = None then Inl (FieldNotFound field) else Inr ()))
    (case AttrByName sv field (id_RPM i) of None \<Rightarrow> []
     | Some a \<Rightarrow> fmt_d (le_val (attr_Raw a)) @ nl) []"
  proof (cases "AttrByName sv field (id_RPM i)")
    case None
    then show ?thesis by (simp add: yields_def run_attempt get_field_def ata_lookup_def)
  next
    case (Some a)
    then have "a \<in> set (sv_Attributes sv)" by (auto simp: AttrByName_find find_Some_iff)
    then have wf: "attribute_wf a"
      using attached_ata_wf [OF dev] by (simp add: smart_values_wf_def)
    then have "unat (le_word (attr_Raw a) :: u64) = le_val (attr_Raw a)"
      by (simp add: attribute_wf_def unat_le_word)
    with Some wf show ?thesis
      by (simp add: yields_def run_attempt run_and_then get_field_def ata_lookup_def
          RawValue48_eq finish_def print_line_def)
  qed
qed

section \<open>The full ATA report\<close>

text \<open>A log that could not be read or parsed is missing from the report.\<close>

definition read_log :: "go_error + bytes \<Rightarrow> (bytes \<Rightarrow> (go_error + 'a) go) \<Rightarrow> 'a option" where
  "read_log reply parse =
     (case reply of Inl e \<Rightarrow> None
      | Inr d \<Rightarrow> (case parse d of Some (Inr v) \<Rightarrow> Some v | _ \<Rightarrow> None))"

definition status_warning :: "go_error option \<Rightarrow> string" where
  "status_warning err =
     (case err of None \<Rightarrow> [] | Some e \<Rightarrow> ''Warning: SMART STATUS: '' @ error_message e @ nl)"

lemma optional_log_yields:
  assumes "yields m (Some reply) [] []" and "\<And>d. parse d \<noteq> None"
  shows "yields (optional_log m parse) (Some (read_log reply parse)) [] []"
proof -
  have "yields (case reply of Inl e \<Rightarrow> ok None
      | Inr d \<Rightarrow> and_then (pure_go (parse d)) (case_sum (\<lambda>e. ok None) (\<lambda>v. ok (Some v))))
    (Some (read_log reply parse)) [] []"
  proof (cases reply)
    case (Inr d)
    with assms(2) [of d] show ?thesis
      by (auto simp: yields_def read_log_def run_and_then split: option.splits sum.splits)
  qed (simp add: read_log_def yields_basic)
  then show ?thesis
    unfolding optional_log_def using yields_then [OF assms(1)] by fastforce
qed

lemma smart_status_yields:
  assumes "yields (dev_SmartStatus dev) (Some (failing, err)) [] []"
  shows "yields (smart_status_warned dev) (Some failing) [] (status_warning err)"
proof -
  have "yields (case err of None \<Rightarrow> ok failing
      | Some e \<Rightarrow> and_then (put_stderr (''Warning: SMART STATUS: '' @ error_message e @ nl))
          (\<lambda>_. ok failing)) (Some failing) [] (status_warning err)"
    by (cases err) (simp_all add: yields_def run_and_then status_warning_def)
  then show ?thesis
    unfolding smart_status_warned_def
    by (intro yields_then [OF assms, where ?e2.0 = "status_warning err", simplified])
      (simp only: prod.case)
qed

text \<open>The rest of the answers: thresholds, SMART status, and the three logs.\<close>

definition answers_smart ::
    "ATADevice \<Rightarrow> SmartThresholds \<Rightarrow> bool \<times> go_error option \<Rightarrow> (u8 \<Rightarrow> go_error + bytes) \<Rightarrow> bool" where
  "answers_smart dev st status logs \<longleftrightarrow>
     (\<exists>std. yields (dev_SmartReadThresholds dev) (Some (Inr std)) [] [] \<and>
       ParseSmartThresholds std = Some (Inr st)) \<and>
     yields (dev_SmartStatus dev) (Some status) [] [] \<and>
     (\<forall>a. yields (dev_SmartReadLog dev a) (Some (logs a)) [] [])"

definition report_text ::
    "string \<Rightarrow> string \<Rightarrow> IdentifyInfo \<Rightarrow> SmartValues \<Rightarrow> SmartThresholds \<Rightarrow> bool \<Rightarrow>
     (u8 \<Rightarrow> go_error + bytes) \<Rightarrow> string go" where
  "report_text version path i sv st failing logs =
     PrintATAAll version path i (Some sv) (Some st) failing
       (read_log (logs 1) ParseSmartErrorLog) (read_log (logs 6) ParseSmartSelfTestLog)
       (read_log (logs 9) ParseSmartSelectiveSelfTestLog)"

lemma read_log_parsed: "pred_option (\<lambda>a. \<exists>d. parse d = Some (Inr a)) (read_log reply parse)"
  by (auto simp: read_log_def split: sum.splits option.splits)

lemma report_text_total:
  assumes "attached_ata P path dev i sv" and "answers_smart dev st status logs"
  shows "\<exists>out. report_text version path' i sv st failing logs = Some out"
  using assms print_total [OF _ _ read_log_parsed]
  by (auto simp: attached_ata_def answers_smart_def report_text_def)

lemma run_ata:
  assumes dev: "attached_ata P path dev i sv" and smart: "answers_smart dev st (failing, err) logs"
    and out: "report_text version path i sv st failing logs = Some out"
  shows "yields (run P version path) (Some (Inr ())) out (status_warning err)"
proof -
  from dev obtain idd svd where ans:
    "yields (dev_Identify dev) (Some (Inr idd)) [] []" "ParseIdentify idd = Some (Inr i)"
    "yields (dev_SmartReadData dev) (Some (Inr svd)) [] []" "ParseSmartValues svd = Some (Inr sv)"
    by (auto simp: attached_ata_def)
  from smart obtain std where thr:
    "yields (dev_SmartReadThresholds dev) (Some (Inr std)) [] []"
    "ParseSmartThresholds std = Some (Inr st)"
    by (auto simp: answers_smart_def)
  have logs: "yields (dev_SmartReadLog dev a) (Some (logs a)) [] []" for a
    using smart by (simp add: answers_smart_def)
  have status: "yields (smart_status_warned dev) (Some failing) [] (status_warning err)"
    using smart by (intro smart_status_yields) (simp add: answers_smart_def)
  have print: "yields (and_then (pure_go (PrintATAAll version path i (Some sv) (Some st) failing
      (read_log (logs 1) ParseSmartErrorLog) (read_log (logs 6) ParseSmartSelfTestLog)
      (read_log (logs 9) ParseSmartSelectiveSelfTestLog))) (\<lambda>out. finish (put_stdout out)))
      (Some (Inr ())) out []"
    using out by (simp add: report_text_def yields_def run_and_then finish_def)
  note log_steps = yields_then [OF optional_log_yields [OF logs parse_totals(1)]]
    yields_then [OF optional_log_yields [OF logs parse_totals(2)]]
    yields_then [OF optional_log_yields [OF logs parse_totals(3)]]
  have tail: "yields (and_then (optional_log (dev_SmartReadLog dev SmartReadLogAddrError)
        ParseSmartErrorLog) (\<lambda>el.
      and_then (optional_log (dev_SmartReadLog dev SmartReadLogAddrSelfTest) ParseSmartSelfTestLog)
        (\<lambda>sl.
      and_then (optional_log (dev_SmartReadLog dev SmartReadLogAddrSelective)
        ParseSmartSelectiveSelfTestLog) (\<lambda>selSl.
      and_then (pure_go (PrintATAAll version path i (Some sv) (Some st) failing el sl selSl))
        (\<lambda>out. finish (put_stdout out)))))) (Some (Inr ())) out ([] @ [] @ [] @ [])"
    by (rule log_steps log_steps(2) log_steps(3))+
      (use print in \<open>simp add: SmartReadLogAddrError_def SmartReadLogAddrSelfTest_def
        SmartReadLogAddrSelective_def\<close>)
  have "yields (ata_report version path dev) (Some (Inr ())) out (status_warning err @ [] @ [] @ [] @ [])"
    unfolding ata_report_def
    by (rule yields_attempt [OF ans(1)] yields_parse [OF ans(2)] yields_attempt [OF ans(3)]
        yields_parse [OF ans(4)] yields_attempt [OF thr(1)] yields_parse [OF thr(2)]
        yields_then [OF status] tail)+
  then show ?thesis
    unfolding run_def runNVMe_def runATA_def by (intro on_ata_drive [OF dev]) simp
qed

text \<open>The verdict line of a report.\<close>

definition verdict_line :: "bool \<Rightarrow> string" where
  "verdict_line failing =
     ''SMART overall-health self-assessment test result: '' @
     (if failing then ''FAILED!'' else ''PASSED'') @ nl"

lemma report_verdict:
  assumes "report_text version path i sv st failing logs = Some out"
  shows "\<exists>pre post. out = pre @ verdict_line failing @ post"
proof -
  from assms obtain smart where out: "out = printHeader version path @ printATAInfo i @ smart"
    and "printSMARTSection i (Some sv) (Some st) failing (read_log (logs 1) ParseSmartErrorLog)
      (read_log (logs 6) ParseSmartSelfTestLog) (read_log (logs 9) ParseSmartSelectiveSelfTestLog) =
        Some smart"
    by (auto simp: report_text_def PrintATAAll_def split: bind_splits)
  then have "\<exists>post. smart = (''=== START OF READ SMART DATA SECTION ==='' @ nl) @
      verdict_line failing @ post"
    by (cases failing)
      (auto simp: printSMARTSection_def verdict_line_def split: bind_splits)
  then obtain post where "smart = (''=== START OF READ SMART DATA SECTION ==='' @ nl) @
      verdict_line failing @ post" ..
  then have "out = (printHeader version path @ printATAInfo i @
      ''=== START OF READ SMART DATA SECTION ==='' @ nl) @ verdict_line failing @ post"
    using out by simp
  then show ?thesis by blast
qed

section \<open>NVMe drives\<close>

definition attached_nvme :: "platform \<Rightarrow> string \<Rightarrow> NVMeDevice \<Rightarrow> SmartLog \<Rightarrow> bool" where
  "attached_nvme P path dev s \<longleftrightarrow>
     yields (pf_IsNVMe P path) (Some (Inr True)) [] [] \<and>
     yields (pf_OpenNVMe P path) (Some (Inr dev)) [] [] \<and> silent (nv_Close dev) \<and>
     (\<exists>sld. yields (nv_GetLogPage dev 0x02 512) (Some (Inr sld)) [] [] \<and>
       ParseSmartLog sld = Some (Inr s))"

lemma on_nvme_drive:
  assumes dev: "attached_nvme P path dev s" and body: "yields (k s) r out err"
  shows "yields (attempt (isNVMePath P path) id (\<lambda>n. if n then
      attempt (pf_OpenNVMe P path) wrap (\<lambda>dev. deferred (nv_Close dev) (nvme_smart_log dev k))
      else other)) r out err"
proof (rule yields_attempt [OF isNVMePath_yields])
  show "yields (pf_IsNVMe P path) (Some (Inr True)) [] []"
    using dev by (simp add: attached_nvme_def)
  from dev obtain sld where sld: "yields (nv_GetLogPage dev 0x02 512) (Some (Inr sld)) [] []"
    "ParseSmartLog sld = Some (Inr s)" by (auto simp: attached_nvme_def)
  have "yields (nvme_smart_log dev k) r out err"
    unfolding nvme_smart_log_def
    by (rule yields_attempt [OF sld(1)], rule yields_parse [OF sld(2)], rule body)
  then have "yields (attempt (pf_OpenNVMe P path) wrap
      (\<lambda>dev. deferred (nv_Close dev) (nvme_smart_log dev k))) r out err"
    using dev by (intro yields_attempt [where a = dev] yields_deferred)
      (simp_all add: attached_nvme_def)
  then show "yields (if True then attempt (pf_OpenNVMe P path) wrap
      (\<lambda>dev. deferred (nv_Close dev) (nvme_smart_log dev k)) else other) r out err" by simp
qed

lemma runList_nvme:
  assumes "attached_nvme P path dev s"
  shows "yields (runList P path) (Some (Inr ()))
    (concat (map (\<lambda>n. n @ nl) (map fst smartLogFields))) []"
  unfolding runList_def listNVMe_def
  by (intro on_nvme_drive [OF assms]) (simp only: FieldNames_def yields_basic)

lemma runGet_nvme:
  assumes "attached_nvme P path dev s"
  shows "yields (runGet P path field)
    (Some (case map_of smartLogFields field of None \<Rightarrow> Inl (FieldNotFound field) | Some _ \<Rightarrow> Inr ()))
    (case map_of smartLogFields field of None \<Rightarrow> []
     | Some get \<Rightarrow> fmt_d (unat (get s)) @ nl) []"
  unfolding runGet_def getNVMe_def
  by (intro on_nvme_drive [OF assms])
    (simp add: get_field_def nvme_lookup_map_of yields_def run_attempt finish_def run_and_then
      print_line_def split: option.splits)

section \<open>The full NVMe report\<close>

text \<open>\<open>path\<close> is an NVMe drive on \<open>P\<close> whose controller identifies as \<open>ic\<close>; \<open>logs\<close> are its log pages.\<close>

definition answers_nvme ::
    "platform \<Rightarrow> string \<Rightarrow> NVMeDevice \<Rightarrow> IdentifyController \<Rightarrow> (u8 \<Rightarrow> u32 \<Rightarrow> go_error + bytes) \<Rightarrow> bool"
  where
  "answers_nvme P path dev ic logs \<longleftrightarrow>
     yields (pf_IsNVMe P path) (Some (Inr True)) [] [] \<and>
     yields (pf_OpenNVMe P path) (Some (Inr dev)) [] [] \<and> silent (nv_Close dev) \<and>
     (\<exists>icd. yields (nv_IdentifyController dev) (Some (Inr icd)) [] [] \<and>
       ParseIdentifyController icd = Some (Inr ic)) \<and>
     yields (nv_GetLogPage dev 2 512) (Some (logs 2 512)) [] [] \<and>
     yields (nv_GetLogPage dev 1 1024) (Some (logs 1 1024)) [] []"

definition health_log :: "(u8 \<Rightarrow> u32 \<Rightarrow> go_error + bytes) \<Rightarrow> SmartLog option" where
  "health_log logs = read_log (logs 2 512) ParseSmartLog"

definition error_entries :: "(u8 \<Rightarrow> u32 \<Rightarrow> go_error + bytes) \<Rightarrow> NvmeErrorLogEntry list" where
  "error_entries logs = (case read_log (logs 1 1024) ParseErrorLog of None \<Rightarrow> [] | Some es \<Rightarrow> es)"

lemma run_nvme:
  assumes dev: "answers_nvme P path dev ic logs"
  shows "yields (run P version path) (Some (Inr ()))
    (PrintNVMeAll version path ic (health_log logs) (error_entries logs)) []"
proof -
  from dev obtain icd where
    icd: "yields (nv_IdentifyController dev) (Some (Inr icd)) [] []"
      "ParseIdentifyController icd = Some (Inr ic)" by (auto simp: answers_nvme_def)
  from dev have pages: "yields (nv_GetLogPage dev 2 512) (Some (logs 2 512)) [] []"
    "yields (nv_GetLogPage dev 1 (16 * 64)) (Some (logs 1 1024)) [] []"
    by (simp_all add: answers_nvme_def)
  have "yields (nvme_report version path dev) (Some (Inr ()))
      (PrintNVMeAll version path ic (health_log logs) (error_entries logs)) ([] @ [] @ [])"
    unfolding nvme_report_def health_log_def error_entries_def
    by (rule yields_attempt [OF icd(1)] yields_parse [OF icd(2)]
        yields_then [OF optional_log_yields [OF pages(1)]]
        yields_then [OF optional_log_yields [OF pages(2)]] parse_totals ParseErrorLog_total
        yields_basic)+
  then have "yields (runNVMe P version path) (Some (Inr ()))
      (PrintNVMeAll version path ic (health_log logs) (error_entries logs)) []"
    unfolding runNVMe_def using dev
    by (intro yields_attempt [where a = dev] yields_deferred) (simp_all add: answers_nvme_def)
  moreover have "yields (isNVMePath P path) (Some (Inr True)) [] []"
    using dev by (intro isNVMePath_yields) (simp add: answers_nvme_def)
  ultimately show ?thesis unfolding run_def by (intro yields_attempt [where a = True]) simp_all
qed

text \<open>The critical warning is the first byte of the health log.\<close>

lemma smart_log_first:
  assumes "ParseSmartLog d = Some (Inr s)"
  shows "CriticalWarning s = hd d"
proof -
  from assms obtain r his tail where "d = smart_log_bytes (r, his, tail) s"
    by (auto simp: smart_log.parse_ok_iff)
  then show ?thesis by (simp add: smart_log_bytes.simps)
qed

lemma nvme_section_verdict:
  "case health of
     None \<Rightarrow> printNVMeSmartSection health errs =
       ''=== START OF READ SMART DATA SECTION ==='' @ nl @ ''SMART/Health Information not available'' @ nl
   | Some s \<Rightarrow> \<exists>post. printNVMeSmartSection health errs =
       ''=== START OF READ SMART DATA SECTION ==='' @ nl @ verdict_line (CriticalWarning s \<noteq> 0) @ post"
  by (auto simp: printNVMeSmartSection_def verdict_line_def split: option.splits)

end
