(* ===== verification/Ata_Drive.thy ===== *)
theory Ata_Drive
  imports Cmd_Results
begin

text \<open>
  An ATA drive, apart from the operating system it is attached to: its answers to the
  commands the program sends, as a function of the ATA registers. What a build prints for a
  drive is then a function of these answers; \<open>Linux_Drive\<close> and \<open>Windows_Drive\<close> say how the
  drivers of the two systems carry them.
\<close>

section \<open>The drive\<close>

text \<open>
  \<open>drv_read\<close> maps (command, feature, LBA low, count) to the sector returned, absent when the
  drive aborts the command, when it is issued with the cylinder registers the ATA standard
  asks for, \<open>ata_signature\<close>; \<open>drv_status\<close> maps the cylinder registers (low, high) of SMART
  RETURN STATUS, whatever they are, to those it answers with.
\<close>

record ata_drive =
  drv_read :: "u8 \<times> u8 \<times> u8 \<times> u8 \<Rightarrow> bytes option"
  drv_status :: "u8 \<times> u8 \<Rightarrow> (u8 \<times> u8) option"

text \<open>SMART commands (B0h) carry the signature 4Fh/C2h; IDENTIFY DEVICE has no cylinder registers.\<close>

definition ata_signature :: "u8 \<Rightarrow> u8 \<times> u8" where
  "ata_signature command = (if command = 0xb0 then (0x4f, 0xc2) else (0, 0))"

definition drive_ok :: "ata_drive \<Rightarrow> bool" where
  "drive_ok D \<longleftrightarrow> (\<forall>regs. pred_option (\<lambda>d. length d = 512) (drv_read D regs))"

text \<open>The identification and the SMART values that the drive's sectors hold.\<close>

definition drive_values :: "ata_drive \<Rightarrow> IdentifyInfo \<Rightarrow> SmartValues \<Rightarrow> bool" where
  "drive_values D i sv \<longleftrightarrow>
     (\<exists>idd. drv_read D (0xec, 0, 0, 1) = Some idd \<and> ParseIdentify idd = Some (Inr i)) \<and>
     (\<exists>svd. drv_read D (0xb0, 0xd0, 0, 1) = Some svd \<and> ParseSmartValues svd = Some (Inr sv))"

definition drive_thresholds :: "ata_drive \<Rightarrow> SmartThresholds \<Rightarrow> bool" where
  "drive_thresholds D st \<longleftrightarrow>
     (\<exists>std. drv_read D (0xb0, 0xd1, 1, 1) = Some std \<and> ParseSmartThresholds std = Some (Inr st))"

text \<open>An aborted command is the error \<open>e\<close> of the driver.\<close>

definition drive_reply :: "ata_drive \<Rightarrow> go_error \<Rightarrow> u8 \<times> u8 \<times> u8 \<times> u8 \<Rightarrow> go_error + bytes" where
  "drive_reply D e regs = (case drv_read D regs of None \<Rightarrow> Inl e | Some d \<Rightarrow> Inr d)"

definition drive_logs :: "ata_drive \<Rightarrow> go_error \<Rightarrow> u8 \<Rightarrow> go_error + bytes" where
  "drive_logs D e a = drive_reply D e (0xb0, 0xd5, a, 1)"

lemma read_log_error: "read_log (drive_logs D e a) parse = read_log (drive_logs D e' a) parse"
  by (simp add: read_log_def drive_logs_def drive_reply_def split: option.splits)

lemma drive_sector: "drive_ok D \<Longrightarrow> drv_read D regs = Some d \<Longrightarrow> length d = 512"
  unfolding drive_ok_def by (metis option.pred_inject(2))

section \<open>The text of a report\<close>

text \<open>The full report is the header, which names the path, and a body that does not.\<close>

definition report_body ::
    "IdentifyInfo \<Rightarrow> SmartValues \<Rightarrow> SmartThresholds \<Rightarrow> bool \<Rightarrow> (u8 \<Rightarrow> go_error + bytes) \<Rightarrow> string go"
  where
  "report_body i sv st failing logs = do {
     smart \<leftarrow> printSMARTSection i (Some sv) (Some st) failing
       (read_log (logs 1) ParseSmartErrorLog) (read_log (logs 6) ParseSmartSelfTestLog)
       (read_log (logs 9) ParseSmartSelectiveSelfTestLog);
     Some (printATAInfo i @ smart) }"

lemma report_text_body:
  "report_text version path i sv st failing logs =
     map_option (\<lambda>body. printHeader version path @ body) (report_body i sv st failing logs)"
  by (simp add: report_text_def report_body_def PrintATAAll_def split: bind_splits)

lemma report_body_error:
  "report_body i sv st failing (drive_logs D e) = report_body i sv st failing (drive_logs D e')"
  unfolding report_body_def by (simp only: read_log_error [of D e _ _ e'])

section \<open>A sample drive\<close>

text \<open>
  One attribute in use, no logs, and a status that is only answered when the request carries
  the signature 4Fh/C2h.
\<close>

definition sample_drive :: "u8 \<times> u8 \<Rightarrow> ata_drive" where
  "sample_drive status = \<lparr>
     drv_read = (\<lambda>regs.
       if regs = (0xec, 0, 0, 1) then Some sample_identify
       else if regs = (0xb0, 0xd0, 0, 1) then Some sample_response
       else if regs = (0xb0, 0xd1, 1, 1) then Some (replicate 512 0)
       else None),
     drv_status = (\<lambda>cyl. if cyl = (0x4f, 0xc2) then Some status else None)\<rparr>"

lemma sample_drive_ok: "drive_ok (sample_drive status)"
  by (simp add: drive_ok_def sample_drive_def sample_identify_def sample_response_def)

lemma sample_drive_values:
  "\<exists>i sv. drive_values (sample_drive status) i sv \<and> ParseSmartValues sample_response = Some (Inr sv)"
proof -
  obtain i where "ParseIdentify sample_identify = Some (Inr i)"
    using ParseIdentify_eq [of sample_identify] by (simp add: sample_identify_def)
  moreover obtain sv where "ParseSmartValues sample_response = Some (Inr sv)"
    using sample_response_ok by blast
  ultimately show ?thesis by (auto simp: drive_values_def sample_drive_def)
qed

lemma sample_drive_thresholds: "\<exists>st. drive_thresholds (sample_drive status) st"
proof -
  obtain st where "ParseSmartThresholds (replicate 512 0) = Some (Inr st)"
    using smart_thresholds.parse_cases [of "replicate 512 0"]
    by (auto simp: validateChecksum_iff sum_list_replicate)
  then show ?thesis by (auto simp: drive_thresholds_def sample_drive_def)
qed

lemma sample_power_on_hours:
  assumes "ParseSmartValues sample_response = Some (Inr sv)"
  shows "\<exists>a. find (has_name ''Power_On_Hours'' rpm) (sv_Attributes sv) = Some a \<and>
      le_val (attr_Raw a) = 12345" (is ?found)
    and "''Power_On_Hours'' \<in> set (AttrNames sv rpm)" (is ?listed)
proof -
  have len: "0 < length (sv_Attributes sv)"
    using parse_wfs(1) [OF assms] by (simp add: smart_values_wf_def NumAttributes_def)
  then obtain a as where as: "sv_Attributes sv = a # as" by (cases "sv_Attributes sv") auto
  have a: "attr_ID a = 9" "attr_Raw a = [0x39, 0x30, 0, 0, 0, 0]"
    using sample_attributes [OF assms] as by simp_all
  have "map_option (\<lambda>d. (ad_name d, ad_flags d)) (defaultAttrDefs 9) = Some (''Power_On_Hours'', 0)"
    by code_simp
  then have "AttrName 9 rpm = ''Power_On_Hours''" by (auto simp: AttrName_def)
  with as a show ?found ?listed by (simp_all add: has_name_def AttrNames_eq)
qed

end
