(* ===== verification/Device_Linux.thy ===== *)
theory Device_Linux
  imports Device
begin

text \<open>
  \<open>internal/device/linux.go\<close> and \<open>detect_linux.go\<close>. The operating system is the parameter
  \<open>os\<close>: its answers may depend on everything that happened before (the list of events), so
  a statement about all \<open>os\<close> covers every drive and driver. A call that succeeds writes
  bytes over a prefix of the caller's buffer and never changes the buffer's length.
\<close>

section \<open>Constants\<close>

definition hdioDriveCmd :: nat where "hdioDriveCmd = 0x031f"
definition hdioDriveTask :: nat where "hdioDriveTask = 0x031e"
definition ataSmartCmd :: u8 where "ataSmartCmd = 0xb0"
definition ataIdentifyDevice :: u8 where "ataIdentifyDevice = 0xec"
definition ataSmartReadValues :: u8 where "ataSmartReadValues = 0xd0"
definition ataSmartReadThresholds :: u8 where "ataSmartReadThresholds = 0xd1"
definition ataSmartStatus :: u8 where "ataSmartStatus = 0xda"
definition ataSmartReadLog :: u8 where "ataSmartReadLog = 0xd5"
definition smartStatusCylinderLow :: u8 where "smartStatusCylinderLow = 0x4f"
definition smartStatusCylinderHigh :: u8 where "smartStatusCylinderHigh = 0xc2"
definition smartFailCylinderLow :: u8 where "smartFailCylinderLow = 0xf4"
definition smartFailCylinderHigh :: u8 where "smartFailCylinderHigh = 0x2c"
definition hdioOffset :: nat where "hdioOffset = 4"
definition nvmeIoctlAdminCmd :: nat where "nvmeIoctlAdminCmd = 0xc0484e41"
definition nvmeAdminIdentify :: u8 where "nvmeAdminIdentify = 0x06"
definition nvmeAdminGetLogPage :: u8 where "nvmeAdminGetLogPage = 0x02"

section \<open>System calls\<close>

text \<open>
  \<open>os_addr\<close> is the address of the data buffer of an admin command; \<open>os_admin\<close> gets the
  command structure and answers with the bytes it stores at that address.
\<close>

record linux_os =
  os_open :: "event list \<Rightarrow> string \<Rightarrow> go_error + nat"
  os_ioctl :: "event list \<Rightarrow> nat \<Rightarrow> nat \<Rightarrow> bytes \<Rightarrow> go_error + bytes"
  os_admin :: "event list \<Rightarrow> nat \<Rightarrow> bytes \<Rightarrow> go_error + bytes"
  os_addr :: "event list \<Rightarrow> u64"
  os_close :: "event list \<Rightarrow> nat \<Rightarrow> go_error option"

definition linux_open :: "linux_os \<Rightarrow> string \<Rightarrow> nat call" where
  "linux_open os path = State (\<lambda>w.
     case os_open os (events w) path of
       Inl e \<Rightarrow> (Some (Inl e), w\<lparr>events := events w @ [OpenFailed path]\<rparr>)
     | Inr fd \<Rightarrow> (Some (Inr fd), w\<lparr>events := events w @ [Opened fd path]\<rparr>))"

definition linux_close :: "linux_os \<Rightarrow> nat \<Rightarrow> (world, go_error option) state" where
  "linux_close os fd = State (\<lambda>w.
     (os_close os (events w) fd, w\<lparr>events := events w @ [Closed fd]\<rparr>))"

text \<open>\<open>ioctl\<close>: \<open>&arg[0]\<close> panics on an empty slice; the result is the buffer afterwards.\<close>

definition ioctl :: "linux_os \<Rightarrow> nat \<Rightarrow> nat \<Rightarrow> bytes \<Rightarrow> bytes call" where
  "ioctl os fd req arg =
     (if arg = [] then panic
      else State (\<lambda>w.
        (Some (case os_ioctl os (events w) fd req arg of
            Inl errno \<Rightarrow> Inl errno
          | Inr reply \<Rightarrow> Inr (copy_bytes arg reply)),
         w\<lparr>events := events w @ [Command fd req arg]\<rparr>)))"

section \<open>The ATA device\<close>

definition hdio_request :: "u8 \<Rightarrow> u8 \<Rightarrow> u8 \<Rightarrow> u8 \<Rightarrow> bytes" where
  "hdio_request command lbaLow feature sectorCount =
     (make_bytes (hdioOffset + 512))[0 := command, 1 := lbaLow, 2 := feature, 3 := sectorCount]"

definition hdioCmdRead :: "linux_os \<Rightarrow> nat \<Rightarrow> u8 \<Rightarrow> u8 \<Rightarrow> u8 \<Rightarrow> u8 \<Rightarrow> bytes call" where
  "hdioCmdRead os fd command lbaLow feature sectorCount =
     attempt (ioctl os fd hdioDriveCmd (hdio_request command lbaLow feature sectorCount)) id
       (\<lambda>buf. pure_go (do {
          d \<leftarrow> slice buf hdioOffset (length buf);
          Some (Inr (copy_bytes (make_bytes 512) d)) }))"

definition linux_Identify :: "linux_os \<Rightarrow> nat \<Rightarrow> bytes call" where
  "linux_Identify os fd = hdioCmdRead os fd ataIdentifyDevice 0 0 1"

definition linux_SmartReadData :: "linux_os \<Rightarrow> nat \<Rightarrow> bytes call" where
  "linux_SmartReadData os fd = hdioCmdRead os fd ataSmartCmd 0 ataSmartReadValues 1"

definition linux_SmartReadThresholds :: "linux_os \<Rightarrow> nat \<Rightarrow> bytes call" where
  "linux_SmartReadThresholds os fd = hdioCmdRead os fd ataSmartCmd 1 ataSmartReadThresholds 1"

definition linux_SmartReadLog :: "linux_os \<Rightarrow> nat \<Rightarrow> u8 \<Rightarrow> bytes call" where
  "linux_SmartReadLog os fd logAddr = hdioCmdRead os fd ataSmartCmd logAddr ataSmartReadLog 1"

text \<open>The verdict on the two cylinder registers, and the whole \<open>SmartStatus\<close>.\<close>

definition linux_status_verdict :: "u8 \<Rightarrow> u8 \<Rightarrow> bool \<times> go_error option" where
  "linux_status_verdict cylLow cylHigh =
     (if cylLow = smartStatusCylinderLow \<and> cylHigh = smartStatusCylinderHigh then (False, None)
      else if cylLow = smartFailCylinderLow \<and> cylHigh = smartFailCylinderHigh then (True, None)
      else (False, Some (AmbiguousCylinders cylLow cylHigh)))"

definition linux_status_request :: bytes where
  "linux_status_request = [ataSmartCmd, ataSmartStatus, 0, 0, 0, 0, 0]"

definition linux_SmartStatus :: "linux_os \<Rightarrow> nat \<Rightarrow> (bool \<times> go_error option) action" where
  "linux_SmartStatus os fd =
     and_then (ioctl os fd hdioDriveTask linux_status_request) (\<lambda>r. case r of
         Inl e \<Rightarrow> ok (False, Some e)
       | Inr buf \<Rightarrow> pure_go (do {
           cylLow \<leftarrow> index buf 4;
           cylHigh \<leftarrow> index buf 5;
           Some (linux_status_verdict cylLow cylHigh) }))"

definition linux_ata_device :: "linux_os \<Rightarrow> string \<Rightarrow> nat \<Rightarrow> ATADevice" where
  "linux_ata_device os path fd = \<lparr>
     dev_Identify = linux_Identify os fd,
     dev_SmartReadData = linux_SmartReadData os fd,
     dev_SmartReadThresholds = linux_SmartReadThresholds os fd,
     dev_SmartStatus = linux_SmartStatus os fd,
     dev_SmartReadLog = linux_SmartReadLog os fd,
     dev_Path = path,
     dev_Close = linux_close os fd\<rparr>"

definition linux_OpenATA :: "linux_os \<Rightarrow> string \<Rightarrow> ATADevice call" where
  "linux_OpenATA os path =
     attempt (linux_open os path) (Wrapped (''open '' @ path))
       (\<lambda>fd. ok (Inr (linux_ata_device os path fd)))"

section \<open>The NVMe device\<close>

record nvmeAdminCmdStruct =
  nc_Opcode :: u8
  nc_Flags :: u8
  nc_Rsvd1 :: u16
  nc_Nsid :: u32
  nc_Cdw2 :: u32
  nc_Cdw3 :: u32
  nc_Metadata :: u64
  nc_Addr :: u64
  nc_MetadataLen :: u32
  nc_DataLen :: u32
  nc_Cdw10 :: u32
  nc_Cdw11 :: u32
  nc_Cdw12 :: u32
  nc_Cdw13 :: u32
  nc_Cdw14 :: u32
  nc_Cdw15 :: u32
  nc_TimeoutMs :: u32
  nc_Result :: u32

text \<open>The structure in memory; every field is aligned, so there is no padding.\<close>

definition nvme_cmd_bytes :: "nvmeAdminCmdStruct \<Rightarrow> bytes" where
  "nvme_cmd_bytes c =
     [nc_Opcode c, nc_Flags c] @ le_bytes 2 (nc_Rsvd1 c) @ le_bytes 4 (nc_Nsid c) @
     le_bytes 4 (nc_Cdw2 c) @ le_bytes 4 (nc_Cdw3 c) @ le_bytes 8 (nc_Metadata c) @
     le_bytes 8 (nc_Addr c) @ le_bytes 4 (nc_MetadataLen c) @ le_bytes 4 (nc_DataLen c) @
     le_bytes 4 (nc_Cdw10 c) @ le_bytes 4 (nc_Cdw11 c) @ le_bytes 4 (nc_Cdw12 c) @
     le_bytes 4 (nc_Cdw13 c) @ le_bytes 4 (nc_Cdw14 c) @ le_bytes 4 (nc_Cdw15 c) @
     le_bytes 4 (nc_TimeoutMs c) @ le_bytes 4 (nc_Result c)"

definition nvme_command :: "u64 \<Rightarrow> u8 \<Rightarrow> u32 \<Rightarrow> u32 \<Rightarrow> u32 \<Rightarrow> nat \<Rightarrow> nvmeAdminCmdStruct" where
  "nvme_command addr opcode nsid cdw10 cdw11 len = \<lparr>
     nc_Opcode = opcode, nc_Flags = 0, nc_Rsvd1 = 0, nc_Nsid = nsid, nc_Cdw2 = 0, nc_Cdw3 = 0,
     nc_Metadata = 0, nc_Addr = addr, nc_MetadataLen = 0, nc_DataLen = of_nat len,
     nc_Cdw10 = cdw10, nc_Cdw11 = cdw11, nc_Cdw12 = 0, nc_Cdw13 = 0, nc_Cdw14 = 0, nc_Cdw15 = 0,
     nc_TimeoutMs = 0, nc_Result = 0\<rparr>"

text \<open>\<open>nvmeAdmin\<close>: \<open>&data[0]\<close> panics on an empty buffer; the result is the buffer afterwards.\<close>

definition nvmeAdmin ::
    "linux_os \<Rightarrow> nat \<Rightarrow> u8 \<Rightarrow> u32 \<Rightarrow> u32 \<Rightarrow> u32 \<Rightarrow> bytes \<Rightarrow> bytes call" where
  "nvmeAdmin os fd opcode nsid cdw10 cdw11 data =
     (if data = [] then panic
      else State (\<lambda>w.
        let cmd = nvme_cmd_bytes
          (nvme_command (os_addr os (events w)) opcode nsid cdw10 cdw11 (length data))
        in (Some (case os_admin os (events w) fd cmd of
              Inl errno \<Rightarrow> Inl errno
            | Inr reply \<Rightarrow> Inr (copy_bytes data reply)),
            w\<lparr>events := events w @ [Command fd nvmeIoctlAdminCmd cmd]\<rparr>)))"

definition linux_IdentifyController :: "linux_os \<Rightarrow> nat \<Rightarrow> bytes call" where
  "linux_IdentifyController os fd =
     attempt (nvmeAdmin os fd nvmeAdminIdentify 0 0x01 0 (make_bytes 4096))
       (Wrapped ''NVMe Identify Controller'') (\<lambda>data. ok (Inr data))"

definition log_page_numd :: "u32 \<Rightarrow> u32" where
  "log_page_numd sz = sz div 4 - 1"

definition log_page_cdw10 :: "u8 \<Rightarrow> u32 \<Rightarrow> u32" where
  "log_page_cdw10 logID sz = ucast logID OR push_bit 16 (log_page_numd sz)"

definition linux_GetLogPage :: "linux_os \<Rightarrow> nat \<Rightarrow> u8 \<Rightarrow> u32 \<Rightarrow> bytes call" where
  "linux_GetLogPage os fd logID sz =
     attempt (nvmeAdmin os fd nvmeAdminGetLogPage 0xffffffff (log_page_cdw10 logID sz) 0
         (make_bytes (unat sz)))
       (Wrapped (''NVMe Get Log Page 0x'' @ fmt_0x 2 (unat logID))) (\<lambda>data. ok (Inr data))"

definition linux_nvme_device :: "linux_os \<Rightarrow> string \<Rightarrow> nat \<Rightarrow> NVMeDevice" where
  "linux_nvme_device os path fd = \<lparr>
     nv_IdentifyController = linux_IdentifyController os fd,
     nv_GetLogPage = linux_GetLogPage os fd,
     nv_Path = path,
     nv_Close = linux_close os fd\<rparr>"

definition linux_OpenNVMe :: "linux_os \<Rightarrow> string \<Rightarrow> NVMeDevice call" where
  "linux_OpenNVMe os path =
     attempt (linux_open os path) (Wrapped (''open '' @ path))
       (\<lambda>fd. ok (Inr (linux_nvme_device os path fd)))"

section \<open>Detection and the platform\<close>

definition linux_IsNVMe :: "string \<Rightarrow> bool call" where
  "linux_IsNVMe path = ok (Inr (9 \<le> length path \<and> take 9 path = ''/dev/nvme''))"

definition linux_platform :: "linux_os \<Rightarrow> platform" where
  "linux_platform os = \<lparr>
     pf_IsNVMe = linux_IsNVMe, pf_OpenATA = linux_OpenATA os, pf_OpenNVMe = linux_OpenNVMe os\<rparr>"

section \<open>The contract holds for every operating system\<close>

lemma ioctl_ok: "arg \<noteq> [] \<Longrightarrow> call_ok (\<lambda>b. length b = length arg) (ioctl os fd req arg)"
  by (auto simp: call_ok_def ensures_def ioctl_def same_io_def same_handles_def split: sum.splits)

lemma length_hdio_request [simp]: "length (hdio_request c l f s) = 516"
  by (simp add: hdio_request_def hdioOffset_def make_bytes_def)

lemma hdioCmdRead_ok: "call_ok (\<lambda>b. length b = 512) (hdioCmdRead os fd c l f s)"
proof -
  have "hdio_request c l f s \<noteq> []" by (metis length_hdio_request list.size(3) zero_neq_numeral)
  then show ?thesis
    by (auto simp: call_ok_def ensures_def hdioCmdRead_def run_attempt ioctl_def slice_def
        hdioOffset_def make_bytes_def same_io_def same_handles_def split: sum.splits)
qed

lemma linux_SmartStatus_ok:
  "ensures (linux_SmartStatus os fd) (\<lambda>w r w'. same_io w w' \<and> same_handles w w' \<and>
     (\<exists>failing err. r = Some (failing, err) \<and> (failing \<longrightarrow> err = None)))"
  by (auto simp: ensures_def linux_SmartStatus_def run_and_then ioctl_def linux_status_request_def
      index_def linux_status_verdict_def same_io_def same_handles_def split: sum.splits)

lemma linux_close_ok: "close_ok fd (linux_close os fd)"
  by (simp add: close_ok_def ensures_def linux_close_def same_io_def)

lemma linux_ata_device_ok: "ata_device_ok fd (linux_ata_device os path fd)"
  by (simp add: ata_device_ok_def linux_ata_device_def linux_Identify_def linux_SmartReadData_def
      linux_SmartReadThresholds_def linux_SmartReadLog_def hdioCmdRead_ok linux_SmartStatus_ok
      linux_close_ok)

lemma nvmeAdmin_ok:
  "data \<noteq> [] \<Longrightarrow> call_ok (\<lambda>b. length b = length data) (nvmeAdmin os fd op ns c10 c11 data)"
  by (auto simp: call_ok_def ensures_def nvmeAdmin_def Let_def same_io_def same_handles_def
      split: sum.splits)

lemma linux_nvme_device_ok: "nvme_device_ok fd (linux_nvme_device os path fd)"
proof -
  have "call_ok (\<lambda>b. length b = 4096) (linux_IdentifyController os fd)"
    using nvmeAdmin_ok [of "make_bytes 4096"]
    by (simp add: linux_IdentifyController_def call_ok_attempt_wrap make_bytes_def)
  moreover have "call_ok (\<lambda>b. length b = unat sz) (linux_GetLogPage os fd l sz)"
    if "sz \<noteq> 0" for l sz
    using nvmeAdmin_ok [of "make_bytes (unat sz)"] that
    by (simp add: linux_GetLogPage_def call_ok_attempt_wrap make_bytes_def unat_eq_zero)
  ultimately show ?thesis
    by (simp add: nvme_device_ok_def linux_nvme_device_def linux_close_ok)
qed

lemma linux_open_ok:
  assumes "\<And>fd. dev_ok fd (mk fd)"
  shows "open_ok dev_ok (attempt (linux_open os path) wrap (\<lambda>fd. ok (Inr (mk fd))))"
  using assms
  by (auto simp: open_ok_def ensures_def run_attempt linux_open_def same_io_def same_handles_def
      split: sum.splits)

interpretation linux: device_platform "linux_platform os" for os
proof
  fix path
  show "call_ok (\<lambda>_. True) (pf_IsNVMe (linux_platform os) path)"
    by (simp add: linux_platform_def linux_IsNVMe_def call_ok_def ensures_def)
  show "open_ok ata_device_ok (pf_OpenATA (linux_platform os) path)"
    by (simp add: linux_platform_def linux_OpenATA_def linux_open_ok linux_ata_device_ok)
  show "open_ok nvme_device_ok (pf_OpenNVMe (linux_platform os) path)"
    by (simp add: linux_platform_def linux_OpenNVMe_def linux_open_ok linux_nvme_device_ok)
qed

section \<open>What goes over the wire\<close>

lemma le_bytes_zero: "le_bytes n 0 = replicate n 0"
  by (induction n) simp_all

lemma run_hdioCmdRead:
  "run_state (hdioCmdRead os fd c l f s) w =
     (Some (case os_ioctl os (events w) fd hdioDriveCmd ([c, l, f, s] @ replicate 512 0) of
        Inl e \<Rightarrow> Inl e
      | Inr reply \<Rightarrow> Inr (drop 4 (copy_bytes ([c, l, f, s] @ replicate 512 0) reply))),
      w\<lparr>events := events w @ [Command fd hdioDriveCmd ([c, l, f, s] @ replicate 512 0)]\<rparr>)"
proof -
  have "replicate 516 (0::u8) = replicate 4 0 @ replicate 512 0"
    using replicate_add [of 4 512 "0::u8"] by simp
  moreover have "replicate 4 (0::u8) = [0, 0, 0, 0]" by (simp add: eval_nat_numeral)
  ultimately have req: "hdio_request c l f s = [c, l, f, s] @ replicate 512 0"
    by (simp add: hdio_request_def make_bytes_def hdioOffset_def numeral_2_eq_2 numeral_3_eq_3)
  have data: "slice (copy_bytes ([c, l, f, s] @ replicate 512 0) reply) 4 516 =
        Some (drop 4 (copy_bytes ([c, l, f, s] @ replicate 512 0) reply))"
      "copy_bytes (replicate 512 0) (drop 4 (copy_bytes ([c, l, f, s] @ replicate 512 0) reply)) =
        drop 4 (copy_bytes ([c, l, f, s] @ replicate 512 0) reply)" for reply
    by (simp_all add: slice_def copy_bytes_full del: append_Cons)
  show ?thesis
    by (simp add: hdioCmdRead_def run_attempt ioctl_def req hdioOffset_def make_bytes_def
        data del: append_Cons split: sum.splits)
qed

lemma log_page_cdw10_of_nat:
  assumes "0 < n" and "n \<le> 65536"
  shows "log_page_cdw10 logID (of_nat (4 * n)) = of_nat (unat logID + 65536 * (n - 1))"
proof -
  define x :: u32 where "x = of_nat (4 * n)"
  have "unat x = 4 * n" unfolding x_def by (subst unat_of_nat) (use assms in simp)
  then have "x div 4 = of_nat n" by (simp add: word_arith_nat_div)
  then have numd: "log_page_numd x = of_nat (n - 1)"
    using assms by (simp add: log_page_numd_def of_nat_diff)
  have "(ucast logID :: u32) AND push_bit 16 (of_nat (n - 1)) = 0"
    by (rule bit_word_eqI) (auto simp: bit_simps dest: bit_imp_le_length)
  then have "log_page_cdw10 logID x = ucast logID + push_bit 16 (of_nat (n - 1))"
    by (simp add: log_page_cdw10_def numd disjunctive_add_eq_or)
  also have "\<dots> = of_nat (unat logID + 65536 * (n - 1))"
    by (simp add: push_bit_eq_mult of_nat_unat)
  finally show ?thesis by (simp only: x_def)
qed

section \<open>Properties\<close>

text \<open>
  A read command is one \<open>ioctl\<close> with the request \<open>[command, lbaLow, feature, count]\<close>
  and 512 zero bytes; its errors are returned as they are, and on success the data are the
  bytes 4 to 515 of the buffer, as the kernel left it.
\<close>

lemma hdioCmdRead_frame:
  "events (snd (run_state (hdioCmdRead os fd c l f s) w)) =
     events w @ [Command fd hdioDriveCmd ([c, l, f, s] @ replicate 512 0)] \<and>
   fst (run_state (hdioCmdRead os fd c l f s) w) =
     Some (map_sum id (\<lambda>reply. drop 4 (copy_bytes ([c, l, f, s] @ replicate 512 0) reply))
       (os_ioctl os (events w) fd hdioDriveCmd ([c, l, f, s] @ replicate 512 0)))"
  by (simp add: run_hdioCmdRead split: sum.splits)

text \<open>
  The 18 fields of \<open>nvmeAdminCmdStruct\<close> fill 72 bytes, the size that the \<open>ioctl\<close> number
  carries in its bits 16 to 29 (with direction 3, type \<open>'N'\<close> and number 0x41), and the
  fields the kernel reads are at their offsets.
\<close>

lemma nvme_cmd_layout:
  "length (nvme_cmd_bytes c) = 72 \<and> nvmeIoctlAdminCmd div 2 ^ 16 mod 2 ^ 14 = 72 \<and>
   nvmeIoctlAdminCmd div 2 ^ 30 = 3 \<and> nvmeIoctlAdminCmd div 2 ^ 8 mod 2 ^ 8 = 0x4e \<and>
   nvmeIoctlAdminCmd mod 2 ^ 8 = 0x41 \<and>
   index (nvme_cmd_bytes c) 0 = Some (nc_Opcode c) \<and>
   slice (nvme_cmd_bytes c) 4 8 = Some (le_bytes 4 (nc_Nsid c)) \<and>
   slice (nvme_cmd_bytes c) 24 32 = Some (le_bytes 8 (nc_Addr c)) \<and>
   slice (nvme_cmd_bytes c) 36 40 = Some (le_bytes 4 (nc_DataLen c)) \<and>
   slice (nvme_cmd_bytes c) 40 44 = Some (le_bytes 4 (nc_Cdw10 c))"
  by (simp add: nvme_cmd_bytes_def nvmeIoctlAdminCmd_def at_simps)

text \<open>
  C35. For a size of \<open>4 n\<close> bytes, \<open>n\<close> from 1 to 65536, dword 10 of Get Log Page is the log
  identifier in the low half and the number of dwords less one in the high half.
\<close>

theorem log_page_cdw10_fields:
  assumes "0 < n" and "n \<le> 65536"
  shows "unat (log_page_cdw10 logID (of_nat (4 * n))) = unat logID + 65536 * (n - 1)"
proof -
  have "unat logID < 256" using unsigned_less [of logID] by simp
  then have "unat logID + 65536 * (n - 1) < 2 ^ LENGTH(32)" using assms by simp
  then show ?thesis unfolding log_page_cdw10_of_nat [OF assms] by (subst unat_of_nat) simp
qed

theorem log_page_cdw10_fields_witness: "unat (log_page_cdw10 0x02 512) = 0x7f0002"
  using log_page_cdw10_fields [of 128 "0x02"] by simp

end
