(* ===== verification/Linux_Drive.thy ===== *)
theory Linux_Drive
  imports Ata_Drive Device_Linux
begin

text \<open>
  A drive on the Linux build: \<open>open\<close> succeeds, and the driver carries the registers of
  \<open>HDIO_DRIVE_CMD\<close> and \<open>HDIO_DRIVE_TASK\<close> to the drive and its answer back. The sample system
  at the end is a concrete instance.
\<close>

section \<open>Carrying commands to the drive\<close>

text \<open>
  Of the registers of \<open>HDIO_DRIVE_CMD\<close> the program only gives four; the kernel adds the SMART
  signature itself. \<open>HDIO_DRIVE_TASK\<close> passes all registers on as they are. A successful read leaves four bytes of status and then the sector in the buffer; a task
  leaves the cylinder registers of the answer at 4 and 5.
\<close>

definition linux_serves :: "linux_os \<Rightarrow> string \<Rightarrow> nat \<Rightarrow> ata_drive \<Rightarrow> go_error \<Rightarrow> bool" where
  "linux_serves os path fd D e \<longleftrightarrow>
     take 9 path \<noteq> ''/dev/nvme'' \<and> (\<forall>es. os_open os es path = Inr fd) \<and> drive_ok D \<and>
     (\<forall>es c l f s. case drv_read D (c, f, l, s) of
        None \<Rightarrow> os_ioctl os es fd hdioDriveCmd ([c, l, f, s] @ replicate 512 0) = Inl e
      | Some d \<Rightarrow> \<exists>hdr. length hdr = 4 \<and>
          os_ioctl os es fd hdioDriveCmd ([c, l, f, s] @ replicate 512 0) = Inr (hdr @ d)) \<and>
     (\<forall>es lo hi. case drv_status D (lo, hi) of
        None \<Rightarrow> os_ioctl os es fd hdioDriveTask [0xb0, 0xda, 0, 0, lo, hi, 0] = Inl e
      | Some (lo', hi') \<Rightarrow> \<exists>a b c d x.
          os_ioctl os es fd hdioDriveTask [0xb0, 0xda, 0, 0, lo, hi, 0] =
            Inr [a, b, c, d, lo', hi', x])"

lemma linux_serves_cases:
  assumes "linux_serves os path fd D e"
  shows "case drv_read D (c, f, l, s) of
      None \<Rightarrow> os_ioctl os es fd hdioDriveCmd ([c, l, f, s] @ replicate 512 0) = Inl e
    | Some d \<Rightarrow> \<exists>hdr. length hdr = 4 \<and>
        os_ioctl os es fd hdioDriveCmd ([c, l, f, s] @ replicate 512 0) = Inr (hdr @ d)"
    and "case drv_status D (lo, hi) of
      None \<Rightarrow> os_ioctl os es fd hdioDriveTask [0xb0, 0xda, 0, 0, lo, hi, 0] = Inl e
    | Some (lo', hi') \<Rightarrow> \<exists>a b c d x.
        os_ioctl os es fd hdioDriveTask [0xb0, 0xda, 0, 0, lo, hi, 0] = Inr [a, b, c, d, lo', hi', x]"
  using assms unfolding linux_serves_def by blast+

lemma hdioCmdRead_yields:
  assumes "linux_serves os path fd D e"
  shows "yields (hdioCmdRead os fd c l f s) (Some (drive_reply D e (c, f, l, s))) [] []"
proof -
  have "fst (run_state (hdioCmdRead os fd c l f s) w) = Some (drive_reply D e (c, f, l, s))" for w
  proof (cases "drv_read D (c, f, l, s)")
    case None
    moreover from this have
      "os_ioctl os (events w) fd hdioDriveCmd ([c, l, f, s] @ replicate 512 0) = Inl e"
      using linux_serves_cases(1) [OF assms, where c = c and f = f and l = l and s = s] by simp
    ultimately show ?thesis by (simp add: run_hdioCmdRead drive_reply_def)
  next
    case (Some d)
    moreover from this obtain hdr where "length hdr = 4"
      "os_ioctl os (events w) fd hdioDriveCmd ([c, l, f, s] @ replicate 512 0) = Inr (hdr @ d)"
      using linux_serves_cases(1) [OF assms, where c = c and f = f and l = l and s = s] by auto
    moreover have "length d = 512"
      using Some assms by (auto simp: linux_serves_def intro: drive_sector)
    ultimately show ?thesis by (simp add: run_hdioCmdRead drive_reply_def copy_bytes_full)
  qed
  then show ?thesis by (simp add: yields_def run_hdioCmdRead)
qed

lemma linux_close_silent: "silent (linux_close os fd)"
  by (simp add: silent_def linux_close_def same_io_def)

lemma linux_attached_ata:
  assumes serves: "linux_serves os path fd D e" and "drive_values D i sv"
  shows "attached_ata (linux_platform os) path (linux_ata_device os path fd) i sv"
  unfolding attached_ata_def
proof (intro conjI)
  note reads = hdioCmdRead_yields [OF serves, unfolded drive_reply_def]
  from assms(2) obtain idd svd where
    idd: "drv_read D (0xec, 0, 0, 1) = Some idd" "ParseIdentify idd = Some (Inr i)" and
    svd: "drv_read D (0xb0, 0xd0, 0, 1) = Some svd" "ParseSmartValues svd = Some (Inr sv)"
    by (auto simp: drive_values_def)
  show "yields (pf_IsNVMe (linux_platform os) path) (Some (Inr False)) [] []"
    using serves by (simp add: linux_platform_def linux_IsNVMe_def yields_basic linux_serves_def)
  show "yields (pf_OpenATA (linux_platform os) path) (Some (Inr (linux_ata_device os path fd))) [] []"
    using serves by (simp add: linux_platform_def linux_OpenATA_def yields_def run_attempt
        linux_open_def linux_serves_def)
  show "silent (dev_Close (linux_ata_device os path fd))"
    by (simp add: linux_ata_device_def linux_close_silent)
  show "\<exists>idd. yields (dev_Identify (linux_ata_device os path fd)) (Some (Inr idd)) [] [] \<and>
      ParseIdentify idd = Some (Inr i)"
    using reads [of "0xec" 0 0 1] idd
    by (auto simp: linux_ata_device_def linux_Identify_def ataIdentifyDevice_def)
  show "\<exists>svd. yields (dev_SmartReadData (linux_ata_device os path fd)) (Some (Inr svd)) [] [] \<and>
      ParseSmartValues svd = Some (Inr sv)"
    using reads [of "0xb0" 0 "0xd0" 1] svd
    by (auto simp: linux_ata_device_def linux_SmartReadData_def ataSmartCmd_def
        ataSmartReadValues_def)
qed

text \<open>The status request has zero cylinder registers; what comes of it depends on the drive.\<close>

definition linux_drive_status :: "ata_drive \<Rightarrow> go_error \<Rightarrow> bool \<times> go_error option" where
  "linux_drive_status D e =
     (case drv_status D (0, 0) of
        None \<Rightarrow> (False, Some e)
      | Some (lo, hi) \<Rightarrow> linux_status_verdict lo hi)"

lemma linux_SmartStatus_yields:
  assumes "linux_serves os path fd D e"
  shows "yields (linux_SmartStatus os fd) (Some (linux_drive_status D e)) [] []"
proof -
  have "fst (run_state (linux_SmartStatus os fd) w) = Some (linux_drive_status D e)" for w
  proof (cases "drv_status D (0, 0)")
    case None
    moreover from this have
      "os_ioctl os (events w) fd hdioDriveTask [0xb0, 0xda, 0, 0, 0, 0, 0] = Inl e"
      using linux_serves_cases(2) [OF assms, where lo = 0 and hi = 0] by simp
    ultimately show ?thesis
      by (simp add: linux_SmartStatus_def run_and_then ioctl_def linux_status_request_def
          linux_drive_status_def ataSmartCmd_def ataSmartStatus_def)
  next
    case (Some regs)
    obtain lo hi where regs: "regs = (lo, hi)" by fastforce
    with Some obtain a b c d x where
      "os_ioctl os (events w) fd hdioDriveTask [0xb0, 0xda, 0, 0, 0, 0, 0] =
         Inr [a, b, c, d, lo, hi, x]"
      using linux_serves_cases(2) [OF assms, where lo = 0 and hi = 0] by fastforce
    with Some regs show ?thesis
      by (simp add: linux_SmartStatus_def run_and_then ioctl_def linux_status_request_def
          linux_drive_status_def ataSmartCmd_def ataSmartStatus_def copy_bytes_def index_def)
  qed
  then show ?thesis
    by (simp add: yields_def linux_SmartStatus_def run_and_then ioctl_def linux_status_request_def
        split: sum.splits)
qed

lemma linux_answers_smart:
  assumes serves: "linux_serves os path fd D e" and "drive_thresholds D st"
  shows "answers_smart (linux_ata_device os path fd) st (linux_drive_status D e) (drive_logs D e)"
  unfolding answers_smart_def
proof (intro conjI allI)
  note reads = hdioCmdRead_yields [OF serves]
  show "\<exists>std. yields (dev_SmartReadThresholds (linux_ata_device os path fd)) (Some (Inr std)) [] [] \<and>
      ParseSmartThresholds std = Some (Inr st)"
    using reads [of "0xb0" 1 "0xd1" 1] assms(2)
    by (auto simp: linux_ata_device_def linux_SmartReadThresholds_def ataSmartCmd_def
        ataSmartReadThresholds_def drive_thresholds_def drive_reply_def)
  show "yields (dev_SmartStatus (linux_ata_device os path fd)) (Some (linux_drive_status D e)) [] []"
    using linux_SmartStatus_yields [OF serves] by (simp add: linux_ata_device_def)
  show "yields (dev_SmartReadLog (linux_ata_device os path fd) a) (Some (drive_logs D e a)) [] []" for a
    using reads [of "0xb0" a "0xd5" 1]
    by (simp add: linux_ata_device_def linux_SmartReadLog_def ataSmartCmd_def ataSmartReadLog_def
        drive_logs_def)
qed

section \<open>A sample system\<close>

text \<open>
  A kernel with one ATA drive \<open>D\<close> and, for the admin commands, an NVMe drive of zeros: the
  length of the data is read from its place in the command.
\<close>

definition sample_os :: "ata_drive \<Rightarrow> linux_os" where
  "sample_os D = \<lparr>
     os_open = (\<lambda>es path. Inr 3),
     os_ioctl = (\<lambda>es fd req arg.
       if req = hdioDriveCmd \<and> length arg = 516
       then map_sum id (\<lambda>d. take 4 arg @ d)
         (drive_reply D (SysErr ''input/output error'') (arg ! 0, arg ! 2, arg ! 1, arg ! 3))
       else if req = hdioDriveTask \<and> length arg = 7
       then (case drv_status D (arg ! 4, arg ! 5) of
           None \<Rightarrow> Inl (SysErr ''input/output error'')
         | Some (lo, hi) \<Rightarrow> Inr [arg ! 0, arg ! 1, arg ! 2, arg ! 3, lo, hi, arg ! 6])
       else Inl (SysErr ''inappropriate ioctl for device'')),
     os_admin = (\<lambda>es fd cmd. Inr (replicate (le_val (take 4 (drop 36 cmd))) 0)),
     os_addr = (\<lambda>es. 0),
     os_close = (\<lambda>es fd. None)\<rparr>"

lemma sample_os_serves:
  assumes "drive_ok D" and "take 9 path \<noteq> ''/dev/nvme''"
  shows "linux_serves (sample_os D) path 3 D (SysErr ''input/output error'')"
  using assms
  by (auto simp: linux_serves_def sample_os_def drive_reply_def hdioDriveCmd_def hdioDriveTask_def
      split: option.splits)

lemma sample_attached:
  "\<exists>i sv. attached_ata (linux_platform (sample_os (sample_drive status))) ''/dev/sda''
     (linux_ata_device (sample_os (sample_drive status)) ''/dev/sda'' 3) i sv \<and>
   ParseSmartValues sample_response = Some (Inr sv)"
  using sample_drive_values [of status]
    linux_attached_ata [OF sample_os_serves [OF sample_drive_ok, of "''/dev/sda''"]]
  by fastforce

lemma sample_answers:
  "\<exists>st. answers_smart (linux_ata_device (sample_os (sample_drive status)) ''/dev/sda'' 3) st
     (False, Some (SysErr ''input/output error''))
     (drive_logs (sample_drive status) (SysErr ''input/output error''))"
proof -
  obtain st where "drive_thresholds (sample_drive status) st" using sample_drive_thresholds by blast
  from linux_answers_smart [OF sample_os_serves [OF sample_drive_ok, of "''/dev/sda''"] this]
  show ?thesis by (auto simp: linux_drive_status_def sample_drive_def)
qed

end
