(* ===== verification/Device_Windows.thy ===== *)
theory Device_Windows
  imports Device
begin

text \<open>
  \<open>internal/device/windows.go\<close> and \<open>detect_windows.go\<close>. The package
  \<open>golang.org/x/sys/windows\<close> and the system behind it are the parameter \<open>win\<close>:
  \<open>DeviceIoControl\<close> answers with an error, or with the bytes it stores in the output buffer
  and the number of bytes it says it returned.
\<close>

section \<open>Constants\<close>

definition ioctlSmartRcvDriveData :: nat where "ioctlSmartRcvDriveData = 0x0007c088"
definition ioctlSmartSendDriveCmd :: nat where "ioctlSmartSendDriveCmd = 0x0007c084"
definition ioctlStorageQueryProperty :: nat where "ioctlStorageQueryProperty = 0x002d1400"
definition ataSmartCmdW :: u8 where "ataSmartCmdW = 0xb0"
definition ataIdentifyDeviceW :: u8 where "ataIdentifyDeviceW = 0xec"
definition ataSmartReadValuesW :: u8 where "ataSmartReadValuesW = 0xd0"
definition ataSmartReadThresholdsW :: u8 where "ataSmartReadThresholdsW = 0xd1"
definition ataSmartStatusW :: u8 where "ataSmartStatusW = 0xda"
definition ataSmartReadLogW :: u8 where "ataSmartReadLogW = 0xd5"
definition smartCylLow :: u8 where "smartCylLow = 0x4f"
definition smartCylHigh :: u8 where "smartCylHigh = 0xc2"
definition failCylLow :: u8 where "failCylLow = 0xf4"
definition failCylHigh :: u8 where "failCylHigh = 0x2c"
definition sendCmdInSize :: nat where "sendCmdInSize = 32"
definition sendCmdOutHdr :: nat where "sendCmdOutHdr = 16"
definition storageDeviceProtocolSpecificProperty :: u32 where
  "storageDeviceProtocolSpecificProperty = 49"
definition protocolTypeNvme :: u32 where "protocolTypeNvme = 3"
definition nvmeDataTypeIdentify :: u32 where "nvmeDataTypeIdentify = 1"
definition nvmeDataTypeLogPage :: u32 where "nvmeDataTypeLogPage = 2"
definition sizeQueryHdr :: nat where "sizeQueryHdr = 8"
definition sizeProtocolData :: nat where "sizeProtocolData = 32"
definition storageDeviceProperty :: u32 where "storageDeviceProperty = 0"
definition propertyStandardQuery :: u32 where "propertyStandardQuery = 0"
definition busTypeNvme :: u32 where "busTypeNvme = 17"

section \<open>System calls\<close>

record windows_os =
  win_utf16 :: "string \<Rightarrow> go_error option"
  win_create :: "event list \<Rightarrow> string \<Rightarrow> go_error + nat"
  win_control :: "event list \<Rightarrow> nat \<Rightarrow> nat \<Rightarrow> bytes \<Rightarrow> nat \<Rightarrow> go_error + bytes \<times> u32"
  win_close :: "event list \<Rightarrow> nat \<Rightarrow> go_error option"

text \<open>\<open>openDevice\<close>: a path that has no UTF-16 form is an error before anything is opened.\<close>

definition openDevice :: "windows_os \<Rightarrow> string \<Rightarrow> nat call" where
  "openDevice win path =
     (case win_utf16 win path of
        Some e \<Rightarrow> fail e
      | None \<Rightarrow> State (\<lambda>w.
          case win_create win (events w) path of
            Inl e \<Rightarrow> (Some (Inl (Wrapped (''open '' @ path) e)),
              w\<lparr>events := events w @ [OpenFailed path]\<rparr>)
          | Inr h \<Rightarrow> (Some (Inr h), w\<lparr>events := events w @ [Opened h path]\<rparr>)))"

definition closeHandle :: "windows_os \<Rightarrow> nat \<Rightarrow> (world, go_error option) state" where
  "closeHandle win h = State (\<lambda>w.
     (win_close win (events w) h, w\<lparr>events := events w @ [Closed h]\<rparr>))"

text \<open>
  \<open>DeviceIoControl\<close> with input buffer \<open>inb\<close> and output buffer \<open>out\<close>: \<open>&inb[0]\<close> and
  \<open>&out[0]\<close> panic when empty; the result is the output buffer afterwards and the count.
\<close>

definition DeviceIoControl :: "windows_os \<Rightarrow> nat \<Rightarrow> nat \<Rightarrow> bytes \<Rightarrow> bytes \<Rightarrow> (bytes \<times> u32) call" where
  "DeviceIoControl win h code inb out =
     (if inb = [] \<or> out = [] then panic
      else State (\<lambda>w.
        (Some (case win_control win (events w) h code inb (length out) of
            Inl e \<Rightarrow> Inl e
          | Inr (reply, returned) \<Rightarrow> Inr (copy_bytes out reply, returned)),
         w\<lparr>events := events w @ [Command h code inb]\<rparr>)))"

section \<open>The ATA device\<close>

definition rcv_request :: "u8 \<Rightarrow> u8 \<Rightarrow> u8 \<Rightarrow> u8 \<Rightarrow> u8 \<Rightarrow> u8 \<Rightarrow> bytes go" where
  "rcv_request cmd feature sectorNum cylLow cylHigh sectorCount = do {
     b \<leftarrow> PutUint32 (make_bytes sendCmdInSize) 0 512;
     Some (b[4 := feature, 5 := sectorCount, 6 := sectorNum, 7 := cylLow, 8 := cylHigh,
             9 := 0xa0, 10 := cmd]) }"

definition rcv_reply :: "bytes \<times> u32 \<Rightarrow> (go_error + bytes) go" where
  "rcv_reply r =
     (let out = fst r; returned = snd r
      in if returned < of_nat (sendCmdOutHdr + 512)
         then Some (Inl (ShortReply ''IOCTL_SMART_RCV_DRIVE_DATA'' returned))
         else do {
           drv \<leftarrow> index out 4;
           if drv \<noteq> 0 then do { ide \<leftarrow> index out 5; Some (Inl (DriverError drv ide)) }
           else do { d \<leftarrow> slice out sendCmdOutHdr (length out); Some (Inr d) } })"

definition rcvDriveData ::
    "windows_os \<Rightarrow> nat \<Rightarrow> u8 \<Rightarrow> u8 \<Rightarrow> u8 \<Rightarrow> u8 \<Rightarrow> u8 \<Rightarrow> u8 \<Rightarrow> bytes call" where
  "rcvDriveData win h cmd feature sectorNum cylLow cylHigh sectorCount =
     and_then (pure_go (rcv_request cmd feature sectorNum cylLow cylHigh sectorCount)) (\<lambda>inb.
     attempt (DeviceIoControl win h ioctlSmartRcvDriveData inb (make_bytes (sendCmdOutHdr + 512))) id
       (\<lambda>r. pure_go (rcv_reply r)))"

definition windows_Identify :: "windows_os \<Rightarrow> nat \<Rightarrow> bytes call" where
  "windows_Identify win h = rcvDriveData win h ataIdentifyDeviceW 0 0 0 0 1"

definition windows_SmartReadData :: "windows_os \<Rightarrow> nat \<Rightarrow> bytes call" where
  "windows_SmartReadData win h =
     rcvDriveData win h ataSmartCmdW ataSmartReadValuesW 0 smartCylLow smartCylHigh 1"

definition windows_SmartReadThresholds :: "windows_os \<Rightarrow> nat \<Rightarrow> bytes call" where
  "windows_SmartReadThresholds win h =
     rcvDriveData win h ataSmartCmdW ataSmartReadThresholdsW 1 smartCylLow smartCylHigh 1"

definition windows_SmartReadLog :: "windows_os \<Rightarrow> nat \<Rightarrow> u8 \<Rightarrow> bytes call" where
  "windows_SmartReadLog win h logAddr =
     rcvDriveData win h ataSmartCmdW ataSmartReadLogW logAddr smartCylLow smartCylHigh 1"

definition windows_status_request :: bytes where
  "windows_status_request = (make_bytes sendCmdInSize)
     [4 := ataSmartStatusW, 7 := smartCylLow, 8 := smartCylHigh, 9 := 0xa0, 10 := ataSmartCmdW]"

definition windows_status_verdict :: "u8 \<Rightarrow> u8 \<Rightarrow> bool \<times> go_error option" where
  "windows_status_verdict cylLow cylHigh =
     (if cylLow = smartCylLow \<and> cylHigh = smartCylHigh then (False, None)
      else if cylLow = failCylLow \<and> cylHigh = failCylHigh then (True, None)
      else (False, Some (AmbiguousStatus cylLow cylHigh)))"

definition windows_status_reply :: "bytes \<Rightarrow> (bool \<times> go_error option) go" where
  "windows_status_reply out = do {
     drv \<leftarrow> index out 4;
     if drv \<noteq> 0 then Some (False, Some (StatusDriverError drv))
     else do {
       cylLow \<leftarrow> index out (sendCmdOutHdr + 3);
       cylHigh \<leftarrow> index out (sendCmdOutHdr + 4);
       Some (windows_status_verdict cylLow cylHigh) } }"

definition windows_SmartStatus :: "windows_os \<Rightarrow> nat \<Rightarrow> (bool \<times> go_error option) action" where
  "windows_SmartStatus win h =
     and_then (DeviceIoControl win h ioctlSmartSendDriveCmd windows_status_request
         (make_bytes (sendCmdOutHdr + 8)))
       (\<lambda>r. case r of Inl e \<Rightarrow> ok (False, Some e) | Inr (out, _) \<Rightarrow> pure_go (windows_status_reply out))"

definition windows_ata_device :: "windows_os \<Rightarrow> string \<Rightarrow> nat \<Rightarrow> ATADevice" where
  "windows_ata_device win path h = \<lparr>
     dev_Identify = windows_Identify win h,
     dev_SmartReadData = windows_SmartReadData win h,
     dev_SmartReadThresholds = windows_SmartReadThresholds win h,
     dev_SmartStatus = windows_SmartStatus win h,
     dev_SmartReadLog = windows_SmartReadLog win h,
     dev_Path = path,
     dev_Close = closeHandle win h\<rparr>"

definition windows_OpenATA :: "windows_os \<Rightarrow> string \<Rightarrow> ATADevice call" where
  "windows_OpenATA win path =
     attempt (openDevice win path) id (\<lambda>h. ok (Inr (windows_ata_device win path h)))"

section \<open>The NVMe device\<close>

text \<open>The eight stores of \<open>nvmeQuery\<close>; \<open>o\<close> of the code is \<open>sizeQueryHdr\<close>.\<close>

definition nvme_query_request :: "u32 \<Rightarrow> u32 \<Rightarrow> u32 \<Rightarrow> bytes go" where
  "nvme_query_request dataType requestValue dataLen = do {
     let bufSize = sizeQueryHdr + sizeProtocolData + unat dataLen;
     let off = sizeQueryHdr;
     b \<leftarrow> PutUint32 (make_bytes bufSize) 0 storageDeviceProtocolSpecificProperty;
     b \<leftarrow> PutUint32 b 4 0;
     b \<leftarrow> PutUint32 b (off + 0) protocolTypeNvme;
     b \<leftarrow> PutUint32 b (off + 4) dataType;
     b \<leftarrow> PutUint32 b (off + 8) requestValue;
     b \<leftarrow> PutUint32 b (off + 12) 0;
     b \<leftarrow> PutUint32 b (off + 16) (of_nat sizeProtocolData);
     PutUint32 b (off + 20) dataLen }"

definition nvme_query_reply :: "u32 \<Rightarrow> bytes \<times> u32 \<Rightarrow> (go_error + bytes) go" where
  "nvme_query_reply dataLen r =
     (let buf = fst r; returned = snd r; dataStart = sizeQueryHdr + sizeProtocolData
      in if unat returned < dataStart + unat dataLen
         then Some (Inl (ShortReply ''NVMe query'' returned))
         else do {
           d \<leftarrow> slice buf dataStart (length buf);
           Some (Inr (copy_bytes (make_bytes (unat dataLen)) d)) })"

text \<open>The call uses one buffer for input and output.\<close>

definition nvmeQuery :: "windows_os \<Rightarrow> nat \<Rightarrow> u32 \<Rightarrow> u32 \<Rightarrow> u32 \<Rightarrow> bytes call" where
  "nvmeQuery win h dataType requestValue dataLen =
     and_then (pure_go (nvme_query_request dataType requestValue dataLen)) (\<lambda>buf.
     attempt (DeviceIoControl win h ioctlStorageQueryProperty buf buf) id
       (\<lambda>r. pure_go (nvme_query_reply dataLen r)))"

definition windows_IdentifyController :: "windows_os \<Rightarrow> nat \<Rightarrow> bytes call" where
  "windows_IdentifyController win h =
     attempt (nvmeQuery win h nvmeDataTypeIdentify 1 4096)
       (Wrapped ''NVMe Identify Controller'') (\<lambda>data. ok (Inr data))"

definition windows_GetLogPage :: "windows_os \<Rightarrow> nat \<Rightarrow> u8 \<Rightarrow> u32 \<Rightarrow> bytes call" where
  "windows_GetLogPage win h logID sz =
     attempt (nvmeQuery win h nvmeDataTypeLogPage (ucast logID) sz)
       (Wrapped (''NVMe Get Log Page 0x'' @ fmt_0x 2 (unat logID))) (\<lambda>data. ok (Inr data))"

definition windows_nvme_device :: "windows_os \<Rightarrow> string \<Rightarrow> nat \<Rightarrow> NVMeDevice" where
  "windows_nvme_device win path h = \<lparr>
     nv_IdentifyController = windows_IdentifyController win h,
     nv_GetLogPage = windows_GetLogPage win h,
     nv_Path = path,
     nv_Close = closeHandle win h\<rparr>"

definition windows_OpenNVMe :: "windows_os \<Rightarrow> string \<Rightarrow> NVMeDevice call" where
  "windows_OpenNVMe win path =
     attempt (openDevice win path) id (\<lambda>h. ok (Inr (windows_nvme_device win path h)))"

section \<open>Detection and the platform\<close>

definition bus_query_request :: "bytes go" where
  "bus_query_request = do {
     b \<leftarrow> PutUint32 (make_bytes 8) 0 storageDeviceProperty;
     PutUint32 b 4 propertyStandardQuery }"

definition bus_query_reply :: "bytes \<times> u32 \<Rightarrow> (go_error + bool) go" where
  "bus_query_reply r =
     (if snd r < 32 then Some (Inl (DescriptorTooShort (snd r)))
      else do {
        b \<leftarrow> slice (fst r) 28 32;
        busType \<leftarrow> Uint32 b;
        Some (Inr (busType = busTypeNvme)) })"

definition windows_IsNVMe :: "windows_os \<Rightarrow> string \<Rightarrow> bool call" where
  "windows_IsNVMe win path =
     attempt (openDevice win path) id (\<lambda>h.
     deferred (closeHandle win h)
       (and_then (pure_go bus_query_request) (\<lambda>inb.
        attempt (DeviceIoControl win h ioctlStorageQueryProperty inb (make_bytes 512))
          (Wrapped ''STORAGE_QUERY_PROPERTY'') (\<lambda>r. pure_go (bus_query_reply r)))))"

definition windows_platform :: "windows_os \<Rightarrow> platform" where
  "windows_platform win = \<lparr>
     pf_IsNVMe = windows_IsNVMe win, pf_OpenATA = windows_OpenATA win,
     pf_OpenNVMe = windows_OpenNVMe win\<rparr>"

section \<open>The contract holds for every system\<close>

lemma PutUint32_in: "off + 4 \<le> length b \<Longrightarrow> \<exists>b'. PutUint32 b off v = Some b' \<and> length b' = length b"
  by (simp add: PutUint32_def)

lemma DeviceIoControl_ok:
  "inb \<noteq> [] \<Longrightarrow> out \<noteq> [] \<Longrightarrow>
     call_ok (\<lambda>r. length (fst r) = length out) (DeviceIoControl win h code inb out)"
  by (auto simp: call_ok_def ensures_def DeviceIoControl_def same_io_def same_handles_def
      split: sum.splits)

text \<open>A call followed by a pure step that never panics on good results.\<close>

lemma call_ok_attempt_pure:
  assumes "call_ok good m" and "\<And>a. good a \<Longrightarrow> f a \<noteq> None"
    and "\<And>a b. good a \<Longrightarrow> f a = Some (Inr b) \<Longrightarrow> good' b"
  shows "call_ok good' (attempt m wrap (\<lambda>a. pure_go (f a)))"
  unfolding call_ok_def
proof (rule ensuresI)
  fix w r w'
  assume run: "run_state (attempt m wrap (\<lambda>a. pure_go (f a))) w = (r, w')"
  obtain r1 w1 where m: "run_state m w = (r1, w1)" by fastforce
  from ensuresD [OF assms(1) [unfolded call_ok_def] m]
  have same: "same_io w w1" "same_handles w w1"
    and r1: "(\<exists>e. r1 = Some (Inl e)) \<or> (\<exists>a. r1 = Some (Inr a) \<and> good a)" by auto
  from r1 show "same_io w w' \<and> same_handles w w' \<and>
      ((\<exists>e. r = Some (Inl e)) \<or> (\<exists>b. r = Some (Inr b) \<and> good' b))"
  proof
    assume "\<exists>e. r1 = Some (Inl e)"
    with run m same show ?thesis by (auto simp: run_attempt)
  next
    assume "\<exists>a. r1 = Some (Inr a) \<and> good a"
    then obtain a where a: "r1 = Some (Inr a)" "good a" by blast
    then have "w' = w1" "r = f a" using run m by (auto simp: run_attempt)
    with same assms(2,3) [OF a(2)] show ?thesis
      by (cases "f a") (auto split: sum.splits, metis sum.exhaust)
  qed
qed

lemma call_ok_prelude:
  "r = Some b \<Longrightarrow> call_ok good (k b) \<Longrightarrow> call_ok good (and_then (pure_go r) k)"
  by (simp add: call_ok_def ensures_def run_and_then)

lemma rcv_request_ok:
  "\<exists>b. rcv_request cmd feature sn cl ch sc = Some b \<and> length b = 32"
  by (simp add: rcv_request_def PutUint32_def make_bytes_def sendCmdInSize_def)

lemma rcvDriveData_ok: "call_ok (\<lambda>b. length b = 512) (rcvDriveData win h cmd f sn cl ch sc)"
proof -
  obtain b where b: "rcv_request cmd f sn cl ch sc = Some b" "length b = 32"
    using rcv_request_ok by blast
  have "call_ok (\<lambda>r. length (fst r) = 528)
      (DeviceIoControl win h ioctlSmartRcvDriveData b (make_bytes (sendCmdOutHdr + 512)))"
    using DeviceIoControl_ok [of b "make_bytes (sendCmdOutHdr + 512)"] b(2)
    by (fastforce simp: make_bytes_def sendCmdOutHdr_def)
  then have "call_ok (\<lambda>b. length b = 512)
      (attempt (DeviceIoControl win h ioctlSmartRcvDriveData b (make_bytes (sendCmdOutHdr + 512))) id
        (\<lambda>r. pure_go (rcv_reply r)))"
    by (rule call_ok_attempt_pure)
      (auto simp: rcv_reply_def Let_def index_def slice_def sendCmdOutHdr_def split: if_splits)
  then show ?thesis unfolding rcvDriveData_def by (rule call_ok_prelude [OF b(1)])
qed

lemma windows_SmartStatus_ok:
  "ensures (windows_SmartStatus win h) (\<lambda>w r w'. same_io w w' \<and> same_handles w w' \<and>
     (\<exists>failing err. r = Some (failing, err) \<and> (failing \<longrightarrow> err = None)))"
  by (auto simp: ensures_def windows_SmartStatus_def run_and_then DeviceIoControl_def
      windows_status_request_def make_bytes_def sendCmdInSize_def sendCmdOutHdr_def
      windows_status_reply_def index_def windows_status_verdict_def same_io_def same_handles_def
      split: sum.splits prod.splits)

lemma closeHandle_ok: "close_ok h (closeHandle win h)"
  by (simp add: close_ok_def ensures_def closeHandle_def same_io_def)

lemma windows_ata_device_ok: "ata_device_ok h (windows_ata_device win path h)"
  by (simp add: ata_device_ok_def windows_ata_device_def windows_Identify_def
      windows_SmartReadData_def windows_SmartReadThresholds_def windows_SmartReadLog_def
      rcvDriveData_ok windows_SmartStatus_ok closeHandle_ok)

lemma nvme_query_request_ok:
  "\<exists>b. nvme_query_request dt rv n = Some b \<and> length b = 40 + unat n"
  by (simp add: nvme_query_request_def PutUint32_def make_bytes_def sizeQueryHdr_def
      sizeProtocolData_def Let_def)

lemma nvmeQuery_ok: "call_ok (\<lambda>b. length b = unat n) (nvmeQuery win h dt rv n)"
proof -
  obtain b where b: "nvme_query_request dt rv n = Some b" "length b = 40 + unat n"
    using nvme_query_request_ok by blast
  then have "b \<noteq> []" by auto
  then have "call_ok (\<lambda>r. length (fst r) = 40 + unat n)
      (DeviceIoControl win h ioctlStorageQueryProperty b b)"
    using DeviceIoControl_ok [of b b] b(2) by simp
  then have "call_ok (\<lambda>b. length b = unat n)
      (attempt (DeviceIoControl win h ioctlStorageQueryProperty b b) id
        (\<lambda>r. pure_go (nvme_query_reply n r)))"
    by (rule call_ok_attempt_pure)
      (auto simp: nvme_query_reply_def Let_def slice_def sizeQueryHdr_def sizeProtocolData_def
        make_bytes_def split: if_splits)
  then show ?thesis unfolding nvmeQuery_def by (rule call_ok_prelude [OF b(1)])
qed

lemma windows_nvme_device_ok: "nvme_device_ok h (windows_nvme_device win path h)"
  using nvmeQuery_ok [of 4096]
  by (simp add: nvme_device_ok_def windows_nvme_device_def windows_IdentifyController_def
      windows_GetLogPage_def call_ok_attempt_wrap nvmeQuery_ok closeHandle_ok)

lemma windows_open_ok:
  assumes "\<And>h. dev_ok h (mk h)"
  shows "open_ok dev_ok (attempt (openDevice win path) id (\<lambda>h. ok (Inr (mk h))))"
  using assms
  by (auto simp: open_ok_def ensures_def run_attempt openDevice_def same_io_def same_handles_def
      split: sum.splits option.splits)

lemma bus_query_ok:
  "call_ok (\<lambda>_. True)
     (and_then (pure_go bus_query_request) (\<lambda>inb.
        attempt (DeviceIoControl win h ioctlStorageQueryProperty inb (make_bytes 512)) wrap
          (\<lambda>r. pure_go (bus_query_reply r))))"
proof -
  obtain b where b: "bus_query_request = Some b" "length b = 8"
    by (simp add: bus_query_request_def PutUint32_def make_bytes_def)
  then have "b \<noteq> []" by auto
  then have "call_ok (\<lambda>r. length (fst r) = 512)
      (DeviceIoControl win h ioctlStorageQueryProperty b (make_bytes 512))"
    using DeviceIoControl_ok [of b "make_bytes 512"] by (simp add: make_bytes_def)
  then have "call_ok (\<lambda>_. True) (attempt (DeviceIoControl win h ioctlStorageQueryProperty b
      (make_bytes 512)) wrap (\<lambda>r. pure_go (bus_query_reply r)))"
    by (rule call_ok_attempt_pure)
      (auto simp: bus_query_reply_def slice_def Uint32_le_word split: if_splits)
  then show ?thesis by (rule call_ok_prelude [OF b(1)])
qed

text \<open>Detection opens a handle of its own and has closed it again when it returns.\<close>

lemma windows_IsNVMe_ok: "call_ok (\<lambda>_. True) (windows_IsNVMe win path)"
  unfolding call_ok_def
proof (rule ensuresI)
  fix w r w'
  assume run: "run_state (windows_IsNVMe win path) w = (r, w')"
  obtain r1 w1 where o1: "run_state (openDevice win path) w = (r1, w1)" by fastforce
  then have same: "same_io w w1" and cases: "(\<exists>e. r1 = Some (Inl e)) \<and> same_handles w w1 \<or>
      (\<exists>h. r1 = Some (Inr h) \<and> live (events w1) = h # live (events w))"
    by (auto simp: openDevice_def same_io_def same_handles_def split: option.splits sum.splits)
  from cases show "same_io w w' \<and> same_handles w w' \<and>
      ((\<exists>e. r = Some (Inl e)) \<or> (\<exists>a. r = Some (Inr a) \<and> True))"
  proof
    assume "(\<exists>e. r1 = Some (Inl e)) \<and> same_handles w w1"
    with run o1 same show ?thesis by (auto simp: windows_IsNVMe_def run_attempt)
  next
    assume "\<exists>h. r1 = Some (Inr h) \<and> live (events w1) = h # live (events w)"
    then obtain h where h: "r1 = Some (Inr h)" "live (events w1) = h # live (events w)" by blast
    let ?body = "and_then (pure_go bus_query_request) (\<lambda>inb.
        attempt (DeviceIoControl win h ioctlStorageQueryProperty inb (make_bytes 512))
          (Wrapped ''STORAGE_QUERY_PROPERTY'') (\<lambda>r. pure_go (bus_query_reply r)))"
    obtain r2 w2 where body: "run_state ?body w1 = (r2, w2)" by fastforce
    have "r = r2" "w' = snd (run_state (closeHandle win h) w2)"
      using run o1 h(1) body by (auto simp: windows_IsNVMe_def run_attempt run_deferred)
    with ensuresD [OF bus_query_ok [unfolded call_ok_def] body] same h(2)
    show ?thesis by (auto simp: closeHandle_def same_io_def same_handles_def)
  qed
qed

interpretation windows: device_platform "windows_platform win" for win
proof
  fix path
  show "call_ok (\<lambda>_. True) (pf_IsNVMe (windows_platform win) path)"
    by (simp add: windows_platform_def windows_IsNVMe_ok)
  show "open_ok ata_device_ok (pf_OpenATA (windows_platform win) path)"
    by (simp add: windows_platform_def windows_OpenATA_def windows_open_ok windows_ata_device_ok)
  show "open_ok nvme_device_ok (pf_OpenNVMe (windows_platform win) path)"
    by (simp add: windows_platform_def windows_OpenNVMe_def windows_open_ok windows_nvme_device_ok)
qed

section \<open>What goes over the wire\<close>

lemma le_bytes_4: "le_bytes 4 v = [ucast v, ucast (drop_bit 8 v), ucast (drop_bit 16 v), ucast (drop_bit 24 v)]"
  for v :: u32
  by (simp add: eval_nat_numeral drop_bit_drop_bit)

lemma PutUint32_append:
  assumes "length pre = off" and "length x = 4"
  shows "PutUint32 (pre @ x @ post) off v = Some (pre @ le_bytes 4 v @ post)"
proof -
  obtain a b c d where x: "x = [a, b, c, d]"
    using assms(2) by (auto simp: length_Suc_conv eval_nat_numeral)
  show ?thesis
    using assms(1) unfolding x le_bytes_4
    by (simp add: PutUint32_def list_update_append numeral_2_eq_2 numeral_3_eq_3)
qed

lemma rcv_request_eq:
  "rcv_request cmd f sn cl ch sc = Some (le_bytes 4 (512::u32) @ [f, sc, sn, cl, ch, 0xa0, cmd] @ replicate 21 0)"
proof -
  have "make_bytes sendCmdInSize = [] @ [0, 0, 0, 0] @ [0, 0, 0, 0, 0, 0, 0] @ replicate 21 0"
    by (simp add: make_bytes_def sendCmdInSize_def eval_nat_numeral)
  then have "PutUint32 (make_bytes sendCmdInSize) 0 512 =
      Some ([] @ le_bytes 4 (512::u32) @ [0, 0, 0, 0, 0, 0, 0] @ replicate 21 0)"
    by (simp only: PutUint32_append list.size)
  then show ?thesis by (simp add: rcv_request_def le_bytes_4)
qed

text \<open>Stores one after the other from the start of a zeroed buffer.\<close>

fun put_all :: "bytes \<Rightarrow> nat \<Rightarrow> u32 list \<Rightarrow> bytes go" where
  "put_all b off [] = Some b"
| "put_all b off (v # vs) = do { b \<leftarrow> PutUint32 b off v; put_all b (off + 4) vs }"

lemma put_all_zeros:
  "length pre = off \<Longrightarrow>
     put_all (pre @ replicate (4 * length vs + k) 0) off vs =
       Some (pre @ concat (map (le_bytes 4) vs) @ replicate k 0)"
proof (induction vs arbitrary: pre off)
  case (Cons v vs)
  have "replicate (4 * length (v # vs) + k) (0::u8) =
      replicate 4 0 @ replicate (4 * length vs + k) 0"
    by (simp add: replicate_add [symmetric])
  then have "PutUint32 (pre @ replicate (4 * length (v # vs) + k) 0) off v =
      Some (pre @ le_bytes 4 v @ replicate (4 * length vs + k) 0)"
    using PutUint32_append [OF Cons.prems, of "replicate 4 0"] by simp
  then show ?case
    using Cons.IH [of "pre @ le_bytes 4 v" "off + 4"] Cons.prems by simp
qed simp

lemma nvme_query_request_eq:
  "nvme_query_request dt rv n =
     Some (concat (map (le_bytes 4) [49, 0, 3, dt, rv, 0, 32, n]) @ replicate (8 + unat n) 0)"
proof -
  have "nvme_query_request dt rv n =
      put_all (make_bytes (40 + unat n)) 0 [49, 0, 3, dt, rv, 0, 32, n]"
    by (simp add: nvme_query_request_def sizeQueryHdr_def sizeProtocolData_def Let_def
        storageDeviceProtocolSpecificProperty_def protocolTypeNvme_def del: le_bytes.simps)
  also have "\<dots> = Some (concat (map (le_bytes 4) [49, 0, 3, dt, rv, 0, 32, n]) @
      replicate (8 + unat n) 0)"
    using put_all_zeros [of "[]" 0 "[49, 0, 3, dt, rv, 0, 32, n]" "8 + unat n"]
    by (simp add: make_bytes_def del: put_all.simps)
  finally show ?thesis .
qed

section \<open>Properties\<close>

text \<open>
  The numbers of the three device-control calls are the \<open>CTL_CODE\<close> of their device
  type, access, function and transfer, as the comment in the source derives them.
\<close>

lemma ioctl_codes:
  "[ioctlSmartSendDriveCmd, ioctlSmartRcvDriveData, ioctlStorageQueryProperty] =
     map (\<lambda>(dev, access, fn). dev * 2 ^ 16 + access * 2 ^ 14 + fn * 2 ^ 2)
       [(0x07, 3, 0x21), (0x07, 3, 0x22), (0x2d, 0, 0x500)]"
  by (simp add: ioctlSmartSendDriveCmd_def ioctlSmartRcvDriveData_def ioctlStorageQueryProperty_def)

text \<open>
  \<open>nvmeQuery\<close> builds its request without a store out of range: ten 32-bit words (the
  query header, the protocol-specific data, whose data offset is 32) and the zeroed data
  area, in one buffer of \<open>40 + dataLen\<close> bytes.
\<close>

lemma nvme_query_frame:
  "nvme_query_request dataType requestValue dataLen =
     Some (concat (map (le_bytes 4) [49, 0, 3, dataType, requestValue, 0, 32, dataLen, 0, 0]) @
       replicate (unat dataLen) 0)"
proof -
  have "replicate (8 + unat dataLen) (0::u8) = le_bytes 4 (0::u32) @ le_bytes 4 (0::u32) @
      replicate (unat dataLen) 0"
    unfolding replicate_add by (simp add: le_bytes_4 eval_nat_numeral)
  then show ?thesis by (simp add: nvme_query_request_eq del: le_bytes.simps)
qed

text \<open>
  The reply of a query is accepted when the system reports at least \<open>40 + dataLen\<close> bytes,
  and then the data are exactly the bytes from 40 on; a shorter count is an error, whatever
  the buffer holds.
\<close>

lemma nvme_query_reply_data:
  assumes "length buf = 40 + unat dataLen"
  shows "nvme_query_reply dataLen (buf, returned) =
    Some (if 40 + unat dataLen \<le> unat returned then Inr (drop 40 buf)
      else Inl (ShortReply ''NVMe query'' returned))"
  using assms
  by (simp add: nvme_query_reply_def Let_def sizeQueryHdr_def sizeProtocolData_def slice_def
      copy_bytes_full make_bytes_def)

lemma nvme_query_reply_data_witness:
  "nvme_query_reply 2 (replicate 40 0 @ [7, 8], 42) = Some (Inr [7, 8]) \<and>
   nvme_query_reply 2 (replicate 40 0 @ [7, 8], 41) = Some (Inl (ShortReply ''NVMe query'' 41))"
  using nvme_query_reply_data [of "replicate 40 0 @ [7, 8]" 2 42]
    nvme_query_reply_data [of "replicate 40 0 @ [7, 8]" 2 41]
  by simp

end
