(* ===== verification/Windows_Drive.thy ===== *)
theory Windows_Drive
  imports Ata_Drive Device_Windows
begin

text \<open>
  A drive on the Windows build: opening it succeeds, the storage query says that its bus is
  not NVMe, and the driver carries the registers of the two SMART control codes to the drive
  and its answer back. The sample system at the end is a concrete instance.
\<close>

section \<open>Carrying commands to the drive\<close>

text \<open>
  Reads are issued with the cylinder registers of \<open>ata_signature\<close>, the status command with
  4Fh/C2h; nothing is asked of the drive for any others. The answer to a read is a header of
  16 bytes, whose byte 4 is the driver's error, and the sector; the answer to the status
  command is the header and eight ATA registers.
\<close>

definition windows_bus :: "windows_os \<Rightarrow> nat \<Rightarrow> bool \<Rightarrow> bool" where
  "windows_bus win h nvme \<longleftrightarrow>
     (\<forall>es. \<exists>desc n. win_control win es h ioctlStorageQueryProperty (replicate 8 0) 512 = Inr (desc, n) \<and>
        32 \<le> length desc \<and> length desc \<le> 512 \<and> 32 \<le> n \<and>
        (take 4 (drop 28 desc) = le_bytes 4 busTypeNvme \<longleftrightarrow> nvme))"

definition windows_opens :: "windows_os \<Rightarrow> string \<Rightarrow> nat \<Rightarrow> bool" where
  "windows_opens win path h \<longleftrightarrow> win_utf16 win path = None \<and> (\<forall>es. win_create win es path = Inr h)"

definition windows_serves :: "windows_os \<Rightarrow> string \<Rightarrow> nat \<Rightarrow> ata_drive \<Rightarrow> go_error \<Rightarrow> bool" where
  "windows_serves win path h D e \<longleftrightarrow>
     windows_opens win path h \<and> windows_bus win h False \<and> drive_ok D \<and>
     (\<forall>es c f l s lo hi. (lo, hi) = ata_signature c \<longrightarrow> (case drv_read D (c, f, l, s) of
        None \<Rightarrow> win_control win es h ioctlSmartRcvDriveData
            (le_bytes 4 (512 :: u32) @ [f, s, l, lo, hi, 0xa0, c] @ replicate 21 0) 528 = Inl e
      | Some d \<Rightarrow> \<exists>hdr. length hdr = 16 \<and> hdr ! 4 = 0 \<and> win_control win es h ioctlSmartRcvDriveData
            (le_bytes 4 (512 :: u32) @ [f, s, l, lo, hi, 0xa0, c] @ replicate 21 0) 528 =
              Inr (hdr @ d, 528))) \<and>
     (\<forall>es. case drv_status D (0x4f, 0xc2) of
        None \<Rightarrow> win_control win es h ioctlSmartSendDriveCmd
            (replicate 4 0 @ [0xda, 0, 0, 0x4f, 0xc2, 0xa0, 0xb0] @ replicate 21 0) 24 = Inl e
      | Some (lo', hi') \<Rightarrow> \<exists>hdr a b c x y z n. length hdr = 16 \<and> hdr ! 4 = 0 \<and>
          win_control win es h ioctlSmartSendDriveCmd
            (replicate 4 0 @ [0xda, 0, 0, 0x4f, 0xc2, 0xa0, 0xb0] @ replicate 21 0) 24 =
              Inr (hdr @ [a, b, c, lo', hi', x, y, z], n))"

lemma windows_serves_cases:
  assumes "windows_serves win path h D e"
  shows "(lo, hi) = ata_signature c \<Longrightarrow> case drv_read D (c, f, l, s) of
      None \<Rightarrow> win_control win es h ioctlSmartRcvDriveData
          (le_bytes 4 (512 :: u32) @ [f, s, l, lo, hi, 0xa0, c] @ replicate 21 0) 528 = Inl e
    | Some d \<Rightarrow> \<exists>hdr. length hdr = 16 \<and> hdr ! 4 = 0 \<and> win_control win es h ioctlSmartRcvDriveData
          (le_bytes 4 (512 :: u32) @ [f, s, l, lo, hi, 0xa0, c] @ replicate 21 0) 528 =
            Inr (hdr @ d, 528)"
    and "case drv_status D (0x4f, 0xc2) of
      None \<Rightarrow> win_control win es h ioctlSmartSendDriveCmd
          (replicate 4 0 @ [0xda, 0, 0, 0x4f, 0xc2, 0xa0, 0xb0] @ replicate 21 0) 24 = Inl e
    | Some (lo', hi') \<Rightarrow> \<exists>hdr a b c x y z n. length hdr = 16 \<and> hdr ! 4 = 0 \<and>
        win_control win es h ioctlSmartSendDriveCmd
          (replicate 4 0 @ [0xda, 0, 0, 0x4f, 0xc2, 0xa0, 0xb0] @ replicate 21 0) 24 =
            Inr (hdr @ [a, b, c, lo', hi', x, y, z], n)"
  using assms unfolding windows_serves_def by blast+

lemma windows_parts:
  "windows_serves win path h D e \<Longrightarrow>
     windows_opens win path h \<and> windows_bus win h False \<and> drive_ok D"
  by (simp add: windows_serves_def)

lemma run_rcvDriveData:
  "run_state (rcvDriveData win h c f l lo hi s) w =
     ((case win_control win (events w) h ioctlSmartRcvDriveData
         (le_bytes 4 (512 :: u32) @ [f, s, l, lo, hi, 0xa0, c] @ replicate 21 0) 528 of
        Inl e \<Rightarrow> Some (Inl e)
      | Inr (reply, n) \<Rightarrow> rcv_reply (copy_bytes (replicate 528 0) reply, n)),
      w\<lparr>events := events w @ [Command h ioctlSmartRcvDriveData
        (le_bytes 4 (512 :: u32) @ [f, s, l, lo, hi, 0xa0, c] @ replicate 21 0)]\<rparr>)"
  by (simp add: rcvDriveData_def run_and_then run_attempt rcv_request_eq DeviceIoControl_def
      make_bytes_def sendCmdOutHdr_def del: le_bytes.simps split: sum.splits prod.splits)

lemma rcvDriveData_yields:
  assumes "windows_serves win path h D e" and "(lo, hi) = ata_signature c"
  shows "yields (rcvDriveData win h c f l lo hi s) (Some (drive_reply D e (c, f, l, s))) [] []"
proof -
  have "fst (run_state (rcvDriveData win h c f l lo hi s) w) = Some (drive_reply D e (c, f, l, s))"
    for w
  proof (cases "drv_read D (c, f, l, s)")
    case None
    with windows_serves_cases(1) [OF assms, where f = f and l = l and s = s]
    show ?thesis by (simp add: run_rcvDriveData drive_reply_def del: le_bytes.simps)
  next
    case (Some d)
    with windows_serves_cases(1) [OF assms, where f = f and l = l and s = s]
    obtain hdr where hdr: "length hdr = 16" "hdr ! 4 = 0"
      "win_control win (events w) h ioctlSmartRcvDriveData
          (le_bytes 4 (512 :: u32) @ [f, s, l, lo, hi, 0xa0, c] @ replicate 21 0) 528 =
            Inr (hdr @ d, 528)"
      by fastforce
    moreover have d: "length d = 512"
      using Some windows_parts [OF assms(1)] by (auto intro: drive_sector)
    moreover have "rcv_reply (hdr @ d, 528) = Some (Inr d)"
      using hdr d by (simp add: rcv_reply_def sendCmdOutHdr_def index_def slice_def nth_append)
    ultimately show ?thesis
      by (simp add: run_rcvDriveData drive_reply_def copy_bytes_full Some del: le_bytes.simps)
  qed
  then show ?thesis by (simp add: yields_def run_rcvDriveData)
qed

section \<open>The device is attached\<close>

lemma bus_query_request_eq: "bus_query_request = Some (replicate 8 0)"
  by (simp add: bus_query_request_def PutUint32_def make_bytes_def storageDeviceProperty_def
      propertyStandardQuery_def eval_nat_numeral)

lemma bus_query_type:
  assumes "32 \<le> length desc" and "length desc \<le> 512" and "32 \<le> n"
  shows "bus_query_reply (copy_bytes (replicate 512 0) desc, n) =
    Some (Inr (take 4 (drop 28 desc) = le_bytes 4 busTypeNvme))"
proof -
  have "slice (copy_bytes (replicate 512 0) desc) 28 32 = Some (take 4 (drop 28 desc))"
    using assms(1,2) by (simp add: slice_def copy_bytes_def)
  moreover have len: "length (take 4 (drop 28 desc)) = 4" using assms(1) by simp
  moreover have "(le_word (take 4 (drop 28 desc)) :: u32) = busTypeNvme \<longleftrightarrow>
      take 4 (drop 28 desc) = le_bytes 4 busTypeNvme"
    using le_bytes_le_word [of "take 4 (drop 28 desc)", where 'a = 32] len
      le_word_le_bytes [of 4 busTypeNvme] by force
  moreover have "\<not> n < 32" using assms(3) by simp
  ultimately show ?thesis by (simp add: bus_query_reply_def Uint32_le_word)
qed

lemma openDevice_yields:
  "windows_opens win path h \<Longrightarrow> yields (openDevice win path) (Some (Inr h)) [] []"
  by (simp add: yields_def openDevice_def windows_opens_def)

lemma closeHandle_silent: "silent (closeHandle win h)"
  by (simp add: silent_def closeHandle_def same_io_def)

lemma windows_IsNVMe_yields:
  assumes "windows_opens win path h" and "windows_bus win h nvme"
  shows "yields (windows_IsNVMe win path) (Some (Inr nvme)) [] []"
proof -
  let ?query = "and_then (pure_go bus_query_request) (\<lambda>inb.
      attempt (DeviceIoControl win h ioctlStorageQueryProperty inb (make_bytes 512))
        (Wrapped ''STORAGE_QUERY_PROPERTY'') (\<lambda>r. pure_go (bus_query_reply r)))"
  have "yields ?query (Some (Inr nvme)) [] []"
  proof (rule yieldsI)
    fix w :: world
    from assms(2) obtain desc n where control:
      "win_control win (events w) h ioctlStorageQueryProperty (replicate 8 0) 512 = Inr (desc, n)"
      and desc: "32 \<le> length desc" "length desc \<le> 512" "32 \<le> n"
        "take 4 (drop 28 desc) = le_bytes 4 busTypeNvme \<longleftrightarrow> nvme"
      unfolding windows_bus_def by blast
    have "bus_query_reply (copy_bytes (replicate 512 0) desc, n) = Some (Inr nvme)"
      using bus_query_type [OF desc(1-3)] desc(4) by (simp only:)
    with control show "\<exists>w'. run_state ?query w = (Some (Inr nvme), w') \<and> stdout w' = stdout w @ [] \<and>
        stderr w' = stderr w @ []"
      by (simp add: run_and_then run_attempt bus_query_request_eq DeviceIoControl_def make_bytes_def)
  qed
  then show ?thesis
    unfolding windows_IsNVMe_def
    by (rule yields_attempt [OF openDevice_yields [OF assms(1)] yields_deferred [OF _ closeHandle_silent]])
qed

lemma windows_attached_ata:
  assumes serves: "windows_serves win path h D e" and "drive_values D i sv"
  shows "attached_ata (windows_platform win) path (windows_ata_device win path h) i sv"
  unfolding attached_ata_def
proof (intro conjI)
  note reads = rcvDriveData_yields [OF serves, unfolded drive_reply_def]
  from assms(2) obtain idd svd where
    idd: "drv_read D (0xec, 0, 0, 1) = Some idd" "ParseIdentify idd = Some (Inr i)" and
    svd: "drv_read D (0xb0, 0xd0, 0, 1) = Some svd" "ParseSmartValues svd = Some (Inr sv)"
    by (auto simp: drive_values_def)
  show "yields (pf_IsNVMe (windows_platform win) path) (Some (Inr False)) [] []"
    using windows_IsNVMe_yields [of win path h False] windows_parts [OF serves]
    by (simp add: windows_platform_def)
  show "yields (pf_OpenATA (windows_platform win) path) (Some (Inr (windows_ata_device win path h))) [] []"
    unfolding windows_platform_def windows_OpenATA_def platform.simps
    by (rule yields_attempt [OF openDevice_yields [of win path h]])
      (simp_all add: windows_parts [OF serves] yields_basic)
  show "silent (dev_Close (windows_ata_device win path h))"
    by (simp add: windows_ata_device_def closeHandle_silent)
  show "\<exists>idd. yields (dev_Identify (windows_ata_device win path h)) (Some (Inr idd)) [] [] \<and>
      ParseIdentify idd = Some (Inr i)"
    using reads [where c = "0xec" and f = 0 and l = 0 and s = 1 and lo = 0 and hi = 0] idd
    by (auto simp: windows_ata_device_def windows_Identify_def ataIdentifyDeviceW_def ata_signature_def)
  show "\<exists>svd. yields (dev_SmartReadData (windows_ata_device win path h)) (Some (Inr svd)) [] [] \<and>
      ParseSmartValues svd = Some (Inr sv)"
    using reads [where c = "0xb0" and f = "0xd0" and l = 0 and s = 1 and lo = smartCylLow and hi = smartCylHigh] svd
    by (auto simp: windows_ata_device_def windows_SmartReadData_def ataSmartCmdW_def
        ataSmartReadValuesW_def ata_signature_def
        smartCylLow_def smartCylHigh_def)
qed

text \<open>The status request carries the signature 4Fh/C2h in the cylinder registers.\<close>

definition windows_drive_status :: "ata_drive \<Rightarrow> go_error \<Rightarrow> bool \<times> go_error option" where
  "windows_drive_status D e =
     (case drv_status D (0x4f, 0xc2) of
        None \<Rightarrow> (False, Some e)
      | Some (lo, hi) \<Rightarrow> windows_status_verdict lo hi)"

lemma windows_status_request_eq:
  "windows_status_request = replicate 4 0 @ [0xda, 0, 0, 0x4f, 0xc2, 0xa0, 0xb0] @ replicate 21 0"
  by (simp add: windows_status_request_def make_bytes_def sendCmdInSize_def ataSmartStatusW_def
      smartCylLow_def smartCylHigh_def ataSmartCmdW_def eval_nat_numeral)

lemma windows_SmartStatus_yields:
  assumes "windows_serves win path h D e"
  shows "yields (windows_SmartStatus win h) (Some (windows_drive_status D e)) [] []"
proof -
  note answer = windows_serves_cases(2) [OF assms]
  have "fst (run_state (windows_SmartStatus win h) w) = Some (windows_drive_status D e)" for w
  proof (cases "drv_status D (0x4f, 0xc2)")
    case None
    with answer [of "events w"] show ?thesis
      by (simp add: windows_SmartStatus_def run_and_then DeviceIoControl_def make_bytes_def
          sendCmdOutHdr_def windows_status_request_eq windows_drive_status_def)
  next
    case (Some regs)
    obtain lo hi where regs: "regs = (lo, hi)" by fastforce
    with Some answer [of "events w"] obtain hdr a b c x y z n where hdr: "length hdr = 16" "hdr ! 4 = 0"
      and "win_control win (events w) h ioctlSmartSendDriveCmd
          (replicate 4 0 @ [0xda, 0, 0, 0x4f, 0xc2, 0xa0, 0xb0] @ replicate 21 0) 24 =
            Inr (hdr @ [a, b, c, lo, hi, x, y, z], n)" by auto
    moreover have "windows_status_reply (hdr @ [a, b, c, lo, hi, x, y, z]) =
        Some (windows_status_verdict lo hi)"
      using hdr by (simp add: windows_status_reply_def sendCmdOutHdr_def index_def nth_append)
    ultimately show ?thesis using Some regs
      by (simp add: windows_SmartStatus_def run_and_then DeviceIoControl_def make_bytes_def
          sendCmdOutHdr_def windows_status_request_eq windows_drive_status_def copy_bytes_full)
  qed
  then show ?thesis
    by (simp add: yields_def windows_SmartStatus_def run_and_then DeviceIoControl_def
        make_bytes_def sendCmdOutHdr_def windows_status_request_eq split: sum.splits prod.splits)
qed

lemma windows_answers_smart:
  assumes serves: "windows_serves win path h D e" and "drive_thresholds D st"
  shows "answers_smart (windows_ata_device win path h) st (windows_drive_status D e) (drive_logs D e)"
  unfolding answers_smart_def
proof (intro conjI allI)
  note reads = rcvDriveData_yields [OF serves]
  show "\<exists>std. yields (dev_SmartReadThresholds (windows_ata_device win path h)) (Some (Inr std)) [] [] \<and>
      ParseSmartThresholds std = Some (Inr st)"
    using reads [where c = "0xb0" and f = "0xd1" and l = 1 and s = 1 and lo = smartCylLow
        and hi = smartCylHigh] assms(2)
    by (auto simp: windows_ata_device_def windows_SmartReadThresholds_def ataSmartCmdW_def
        ataSmartReadThresholdsW_def drive_thresholds_def drive_reply_def ata_signature_def
        smartCylLow_def smartCylHigh_def)
  show "yields (dev_SmartStatus (windows_ata_device win path h)) (Some (windows_drive_status D e)) [] []"
    using windows_SmartStatus_yields [OF serves] by (simp add: windows_ata_device_def)
  show "yields (dev_SmartReadLog (windows_ata_device win path h) a) (Some (drive_logs D e a)) [] []" for a
    using reads [where c = "0xb0" and f = "0xd5" and l = a and s = 1 and lo = smartCylLow
        and hi = smartCylHigh]
    by (simp add: windows_ata_device_def windows_SmartReadLog_def ataSmartCmdW_def
        ataSmartReadLogW_def drive_logs_def ata_signature_def
        smartCylLow_def smartCylHigh_def)
qed

end
