(* ===== verification/Drive_Builds.thy ===== *)
theory Drive_Builds
  imports Linux_Drive Windows_Drive
begin

text \<open>
  One drive on both builds: what the Linux and the Windows program print for it. Everything
  but the SMART verdict is the same text; the verdict is the same when the drive answers the
  two status requests alike.
\<close>

section \<open>A sample Windows system\<close>

definition sample_windows :: "ata_drive \<Rightarrow> windows_os" where
  "sample_windows D = \<lparr>
     win_utf16 = (\<lambda>path. None),
     win_create = (\<lambda>es path. Inr 7),
     win_control = (\<lambda>es h code inb n.
       if code = ioctlStorageQueryProperty then Inr (replicate 32 0, 32)
       else if code = ioctlSmartRcvDriveData \<and> length inb = 32
       then map_sum id (\<lambda>d. (replicate 16 0 @ d, 528))
         (drive_reply D (SysErr ''The request is not supported.'') (inb ! 10, inb ! 4, inb ! 6, inb ! 5))
       else if code = ioctlSmartSendDriveCmd \<and> length inb = 32
       then (case drv_status D (inb ! 7, inb ! 8) of
           None \<Rightarrow> Inl (SysErr ''The request is not supported.'')
         | Some (lo, hi) \<Rightarrow> Inr (replicate 16 0 @ [0, 0, 0, lo, hi, 0, 0, 0], 24))
       else Inl (SysErr ''Incorrect function.'')),
     win_close = (\<lambda>es h. None)\<rparr>"

lemma nth_request:
  "length xs = 4 \<Longrightarrow> (xs @ ys) ! 4 = ys ! 0 \<and> (xs @ ys) ! 5 = ys ! 1 \<and> (xs @ ys) ! 6 = ys ! 2 \<and>
     (xs @ ys) ! 7 = ys ! 3 \<and> (xs @ ys) ! 8 = ys ! 4 \<and> (xs @ ys) ! 10 = ys ! 6"
  by (simp add: nth_append)

lemma sample_windows_serves:
  assumes "drive_ok D"
  shows "windows_serves (sample_windows D) path 7 D (SysErr ''The request is not supported.'')"
proof -
  have "le_bytes 4 busTypeNvme ! 0 = 17" by (simp add: le_bytes_4 busTypeNvme_def)
  moreover have "take 4 (drop 28 (replicate 32 0)) ! 0 = (0 :: u8)" by simp
  moreover have "(17 :: u8) \<noteq> 0" by simp
  ultimately have bus: "take 4 (drop 28 (replicate 32 0)) \<noteq> le_bytes 4 busTypeNvme" by metis
  have codes: "ioctlSmartRcvDriveData \<noteq> ioctlStorageQueryProperty"
    "ioctlSmartSendDriveCmd \<noteq> ioctlStorageQueryProperty"
    "ioctlSmartSendDriveCmd \<noteq> ioctlSmartRcvDriveData"
    by (simp_all add: ioctlSmartRcvDriveData_def ioctlStorageQueryProperty_def
        ioctlSmartSendDriveCmd_def)
  show ?thesis
    unfolding windows_serves_def windows_opens_def windows_bus_def sample_windows_def
    using assms bus
    by (auto simp: codes nth_request drive_reply_def nth_append simp del: le_bytes.simps
        split: option.splits)
qed

section \<open>The verdict\<close>

lemma status_flags:
  "fst (linux_drive_status D e) \<longleftrightarrow> drv_status D (0, 0) = Some (0xf4, 0x2c)"
  "fst (windows_drive_status D e) \<longleftrightarrow> drv_status D (0x4f, 0xc2) = Some (0xf4, 0x2c)"
  by (auto simp: linux_drive_status_def windows_drive_status_def linux_status_verdict_def
      windows_status_verdict_def smartStatusCylinderLow_def smartStatusCylinderHigh_def
      smartFailCylinderLow_def smartFailCylinderHigh_def smartCylLow_def smartCylHigh_def
      failCylLow_def failCylHigh_def split: option.splits)

lemma linux_report:
  assumes "linux_serves os lp fd D e" and "drive_values D i sv" and "drive_thresholds D st"
  shows "\<exists>body. report_body i sv st (fst (linux_drive_status D e)) (drive_logs D e) = Some body \<and>
    yields (run (linux_platform os) version lp) (Some (Inr ())) (printHeader version lp @ body)
      (status_warning (snd (linux_drive_status D e)))"
proof -
  note dev = linux_attached_ata [OF assms(1,2)]
  have smart: "answers_smart (linux_ata_device os lp fd) st
      (fst (linux_drive_status D e), snd (linux_drive_status D e)) (drive_logs D e)"
    using linux_answers_smart [OF assms(1,3)] by simp
  from report_text_total [OF dev smart] obtain out
    where "report_text version lp i sv st (fst (linux_drive_status D e)) (drive_logs D e) = Some out"
    by blast
  with run_ata [OF dev smart this] show ?thesis by (auto simp: report_text_body)
qed

lemma windows_report:
  assumes "windows_serves win wp h D e" and "drive_values D i sv" and "drive_thresholds D st"
  shows "\<exists>body. report_body i sv st (fst (windows_drive_status D e)) (drive_logs D e) = Some body \<and>
    yields (run (windows_platform win) version wp) (Some (Inr ())) (printHeader version wp @ body)
      (status_warning (snd (windows_drive_status D e)))"
proof -
  note dev = windows_attached_ata [OF assms(1,2)]
  have smart: "answers_smart (windows_ata_device win wp h) st
      (fst (windows_drive_status D e), snd (windows_drive_status D e)) (drive_logs D e)"
    using windows_answers_smart [OF assms(1,3)] by simp
  from report_text_total [OF dev smart] obtain out
    where "report_text version wp i sv st (fst (windows_drive_status D e)) (drive_logs D e) = Some out"
    by blast
  with run_ata [OF dev smart this] show ?thesis by (auto simp: report_text_body)
qed

lemma yields_verdict:
  assumes "\<exists>body. report_body i sv st failing logs = Some body \<and>
    yields m r (printHeader version path @ body) err"
  shows "\<exists>pre post. yields m r (pre @ verdict_line failing @ post) err"
proof -
  from assms obtain body where body: "report_body i sv st failing logs = Some body"
    and m: "yields m r (printHeader version path @ body) err" by blast
  have "report_text version path i sv st failing logs = Some (printHeader version path @ body)"
    by (simp add: report_text_body body)
  from report_verdict [OF this] m show ?thesis by metis
qed

section \<open>Properties\<close>

text \<open>
  C13. The same drive gives the same output on both builds: list mode and get mode (its error
  included) for every drive whose identification and SMART values can be read, and the full
  report after its header when the thresholds can be read, too, and it is not the case that
  only one of the two status requests is answered with the failure signature. A healthy
  drive that aborts the Linux request is covered, and so are drivers with different errors.
\<close>

theorem builds_print_same:
  assumes "linux_serves os lp fd D e" and "windows_serves win wp h D e'" and "drive_values D i sv"
  shows "(\<exists>out. yields (runList (linux_platform os) lp) (Some (Inr ())) out [] \<and>
      yields (runList (windows_platform win) wp) (Some (Inr ())) out []) \<and>
    (\<exists>r out. yields (runGet (linux_platform os) lp field) r out [] \<and>
      yields (runGet (windows_platform win) wp field) r out []) \<and>
    ((\<exists>st. drive_thresholds D st) \<and>
       (drv_status D (0, 0) = Some (0xf4, 0x2c) \<longleftrightarrow> drv_status D (0x4f, 0xc2) = Some (0xf4, 0x2c)) \<longrightarrow>
     (\<exists>body err err'.
      yields (run (linux_platform os) version lp) (Some (Inr ())) (printHeader version lp @ body) err \<and>
      yields (run (windows_platform win) version wp) (Some (Inr ())) (printHeader version wp @ body) err'))"
proof -
  note lin = linux_attached_ata [OF assms(1,3)] and win = windows_attached_ata [OF assms(2,3)]
  have "\<exists>body err err'.
      yields (run (linux_platform os) version lp) (Some (Inr ())) (printHeader version lp @ body) err \<and>
      yields (run (windows_platform win) version wp) (Some (Inr ())) (printHeader version wp @ body) err'"
    if st: "drive_thresholds D st"
      and flags: "drv_status D (0, 0) = Some (0xf4, 0x2c) \<longleftrightarrow> drv_status D (0x4f, 0xc2) = Some (0xf4, 0x2c)"
    for st
  proof -
    have "fst (linux_drive_status D e) = fst (windows_drive_status D e')"
      using flags status_flags [of D] by blast
    then have "report_body i sv st (fst (linux_drive_status D e)) (drive_logs D e) =
        report_body i sv st (fst (windows_drive_status D e')) (drive_logs D e')"
      using report_body_error [of i sv st _ D e e'] by simp
    then show ?thesis
      using linux_report [OF assms(1,3) st, of version] windows_report [OF assms(2,3) st, of version]
      by fastforce
  qed
  then show ?thesis
    using runList_ata [OF lin] runList_ata [OF win] runGet_ata [OF lin, of field]
      runGet_ata [OF win, of field] by blast
qed

theorem builds_print_same_witness:
  "\<exists>body err err'. yields (run (linux_platform (sample_os (sample_drive (0x4f, 0xc2)))) ''gosmart'' ''/dev/sda'')
      (Some (Inr ())) (printHeader ''gosmart'' ''/dev/sda'' @ body) err \<and>
    yields (run (windows_platform (sample_windows (sample_drive (0x4f, 0xc2)))) ''gosmart'' ''PD0'')
      (Some (Inr ())) (printHeader ''gosmart'' ''PD0'' @ body) err'"
proof -
  let ?D = "sample_drive (0x4f, 0xc2)"
  obtain i sv where vals: "drive_values ?D i sv" using sample_drive_values by blast
  have "\<exists>st. drive_thresholds ?D st" by (rule sample_drive_thresholds)
  moreover have "drv_status ?D (0, 0) \<noteq> Some (0xf4, 0x2c)" "drv_status ?D (0x4f, 0xc2) \<noteq> Some (0xf4, 0x2c)"
    by (simp_all add: sample_drive_def)
  moreover have "linux_serves (sample_os ?D) ''/dev/sda'' 3 ?D (SysErr ''input/output error'')"
    by (simp add: sample_os_serves sample_drive_ok)
  ultimately show ?thesis
    using builds_print_same [OF _ sample_windows_serves [OF sample_drive_ok, of "(0x4f, 0xc2)" "''PD0''"] vals,
        where version = "''gosmart''"] by blast
qed

text \<open>
  C15. A drive that is failing and keeps to the ATA standard, which has it abort a SMART
  command without the signature 4Fh/C2h: the Windows build reports FAILED!, the Linux build
  reports PASSED and prints a warning.
\<close>

theorem failing_drive_verdicts:
  assumes "linux_serves os lp fd D e" and "windows_serves win wp h D e'"
    and "drive_values D i sv" and "drive_thresholds D st"
    and "drv_status D (0, 0) = None" and "drv_status D (0x4f, 0xc2) = Some (0xf4, 0x2c)"
  shows "(\<exists>pre post. yields (run (linux_platform os) version lp) (Some (Inr ()))
      (pre @ verdict_line False @ post) (status_warning (Some e))) \<and>
    (\<exists>pre post. yields (run (windows_platform win) version wp) (Some (Inr ()))
      (pre @ verdict_line True @ post) [])"
proof -
  have "linux_drive_status D e = (False, Some e)"
    using assms(5) by (simp add: linux_drive_status_def)
  then have lin: "\<exists>pre post. yields (run (linux_platform os) version lp) (Some (Inr ()))
      (pre @ verdict_line False @ post) (status_warning (Some e))"
    using yields_verdict [OF linux_report [OF assms(1,3,4), of version]] by simp
  have "windows_drive_status D e' = (True, None)"
    using assms(6) by (simp add: windows_drive_status_def windows_status_verdict_def smartCylLow_def
        smartCylHigh_def failCylLow_def failCylHigh_def)
  then have "\<exists>pre post. yields (run (windows_platform win) version wp) (Some (Inr ()))
      (pre @ verdict_line True @ post) []"
    using yields_verdict [OF windows_report [OF assms(2,3,4), of version]]
    by (simp add: status_warning_def)
  with lin show ?thesis ..
qed

theorem failing_drive_verdicts_witness:
  "(\<exists>pre post. yields (run (linux_platform (sample_os (sample_drive (0xf4, 0x2c)))) ''gosmart'' ''/dev/sda'')
      (Some (Inr ())) (pre @ verdict_line False @ post)
      (''Warning: SMART STATUS: input/output error'' @ nl)) \<and>
   (\<exists>pre post. yields (run (windows_platform (sample_windows (sample_drive (0xf4, 0x2c)))) ''gosmart'' ''PD0'')
      (Some (Inr ())) (pre @ verdict_line True @ post) [])"
proof -
  let ?D = "sample_drive (0xf4, 0x2c)"
  obtain i sv st where "drive_values ?D i sv" "drive_thresholds ?D st"
    using sample_drive_values sample_drive_thresholds by blast
  moreover have "drv_status ?D (0, 0) = None" "drv_status ?D (0x4f, 0xc2) = Some (0xf4, 0x2c)"
    by (simp_all add: sample_drive_def)
  moreover have "linux_serves (sample_os ?D) ''/dev/sda'' 3 ?D (SysErr ''input/output error'')"
    by (simp add: sample_os_serves sample_drive_ok)
  ultimately show ?thesis
    using failing_drive_verdicts [OF _ sample_windows_serves [OF sample_drive_ok, of "(0xf4, 0x2c)" "''PD0''"]]
    by (fastforce simp: status_warning_def)
qed

end
