(* ===== verification/Nvme_Drive.thy ===== *)
theory Nvme_Drive
  imports Linux_Drive Device_Windows
begin

text \<open>
  An NVMe drive on the Linux build, from its answers to the commands of the NVMe specification
  to what the program prints; and the reply of the Windows protocol query, of which the
  program takes the structure to be 8 bytes shorter than it is documented.
\<close>

section \<open>The drive\<close>

text \<open>A log page is read with its size; an aborted command gives no data.\<close>

record nvme_drive =
  nvd_identify :: "bytes option"
  nvd_log :: "u8 \<Rightarrow> u32 \<Rightarrow> bytes option"

definition nvme_drive_ok :: "nvme_drive \<Rightarrow> bool" where
  "nvme_drive_ok N \<longleftrightarrow> pred_option (\<lambda>d. length d = 4096) (nvd_identify N) \<and>
     (\<forall>l n. pred_option (\<lambda>d. length d = unat n) (nvd_log N l n))"

definition nvme_reply :: "string \<Rightarrow> go_error \<Rightarrow> bytes option \<Rightarrow> go_error + bytes" where
  "nvme_reply what e d = (case d of None \<Rightarrow> Inl (Wrapped what e) | Some d \<Rightarrow> Inr d)"

definition nvme_logs :: "nvme_drive \<Rightarrow> go_error \<Rightarrow> u8 \<Rightarrow> u32 \<Rightarrow> go_error + bytes" where
  "nvme_logs N e l n = nvme_reply (''NVMe Get Log Page 0x'' @ fmt_0x 2 (unat l)) e (nvd_log N l n)"

section \<open>Linux\<close>

text \<open>
  The kernel passes the command on and stores the data at the address in it. The commands
  are those of the NVMe specification: Identify (06h) with CNS 1, and Get Log Page (02h) with
  the log identifier and the number of dwords less one in dword 10.
\<close>

definition linux_carries :: "linux_os \<Rightarrow> nat \<Rightarrow> go_error \<Rightarrow> u8 \<Rightarrow> u32 \<Rightarrow> u32 \<Rightarrow> nat \<Rightarrow> bytes option \<Rightarrow> bool" where
  "linux_carries os fd e opcode nsid cdw10 len answer \<longleftrightarrow>
     (\<forall>es. os_admin os es fd (nvme_cmd_bytes (nvme_command (os_addr os es) opcode nsid cdw10 0 len)) =
        (case answer of None \<Rightarrow> Inl e | Some d \<Rightarrow> Inr d))"

definition linux_serves_nvme :: "linux_os \<Rightarrow> string \<Rightarrow> nat \<Rightarrow> nvme_drive \<Rightarrow> go_error \<Rightarrow> bool" where
  "linux_serves_nvme os path fd N e \<longleftrightarrow>
     9 \<le> length path \<and> take 9 path = ''/dev/nvme'' \<and> (\<forall>es. os_open os es path = Inr fd) \<and>
     nvme_drive_ok N \<and> linux_carries os fd e 0x06 0 1 4096 (nvd_identify N) \<and>
     (\<forall>l k. 0 < k \<and> k \<le> 65536 \<longrightarrow>
        linux_carries os fd e 0x02 0xffffffff (of_nat (unat l + 65536 * (k - 1))) (4 * k)
          (nvd_log N l (of_nat (4 * k))))"

lemma nvmeAdmin_yields:
  assumes "linux_carries os fd e opcode nsid cdw10 m answer" and "m \<noteq> 0"
    and "pred_option (\<lambda>d. length d = m) answer"
  shows "yields (nvmeAdmin os fd opcode nsid cdw10 0 (make_bytes m))
    (Some (case answer of None \<Rightarrow> Inl e | Some d \<Rightarrow> Inr d)) [] []"
  using assms
  by (cases answer) (simp_all add: yields_def nvmeAdmin_def Let_def linux_carries_def make_bytes_def
      copy_bytes_full)

lemma yields_wrap:
  assumes "yields m (Some (case d of None \<Rightarrow> Inl e | Some d \<Rightarrow> Inr d)) [] []"
  shows "yields (attempt m (Wrapped what) (\<lambda>a. ok (Inr a))) (Some (nvme_reply what e d)) [] []"
proof (rule yieldsI)
  fix w :: world
  obtain w' where "run_state m w = (Some (case d of None \<Rightarrow> Inl e | Some d \<Rightarrow> Inr d), w')"
    "stdout w' = stdout w" "stderr w' = stderr w" using yieldsD [OF assms, of w] by auto
  then show "\<exists>w'. run_state (attempt m (Wrapped what) (\<lambda>a. ok (Inr a))) w = (Some (nvme_reply what e d), w') \<and>
      stdout w' = stdout w @ [] \<and> stderr w' = stderr w @ []"
    by (cases d) (simp_all add: run_attempt nvme_reply_def)
qed

lemma linux_answers_nvme:
  assumes serves: "linux_serves_nvme os path fd N e"
    and "nvd_identify N = Some icd" and "ParseIdentifyController icd = Some (Inr ic)"
  shows "answers_nvme (linux_platform os) path (linux_nvme_device os path fd) ic (nvme_logs N e)"
proof -
  have ok: "nvme_drive_ok N" using serves by (simp add: linux_serves_nvme_def)
  have page: "yields (linux_GetLogPage os fd l (of_nat (4 * k))) (Some (nvme_logs N e l (of_nat (4 * k)))) [] []"
    if k: "0 < k" "k \<le> 65536" for l k
  proof -
    have n: "unat (of_nat (4 * k) :: u32) = 4 * k" by (subst unat_of_nat) (use k in simp)
    have "linux_carries os fd e 0x02 0xffffffff (log_page_cdw10 l (of_nat (4 * k))) (4 * k)
        (nvd_log N l (of_nat (4 * k)))"
      unfolding log_page_cdw10_of_nat [OF k] using serves k by (simp add: linux_serves_nvme_def)
    moreover have "pred_option (\<lambda>d. length d = 4 * k) (nvd_log N l (of_nat (4 * k)))"
      using ok n unfolding nvme_drive_ok_def by metis
    ultimately show ?thesis
      unfolding linux_GetLogPage_def nvme_logs_def n nvmeAdminGetLogPage_def
      using k by (intro yields_wrap nvmeAdmin_yields) simp_all
  qed
  have "yields (linux_IdentifyController os fd) (Some (Inr icd)) [] []"
  proof -
    have "yields (linux_IdentifyController os fd)
        (Some (nvme_reply ''NVMe Identify Controller'' e (nvd_identify N))) [] []"
      unfolding linux_IdentifyController_def nvmeAdminIdentify_def
      using serves ok
      by (intro yields_wrap nvmeAdmin_yields) (simp_all add: linux_serves_nvme_def nvme_drive_ok_def)
    then show ?thesis using assms(2) by (simp add: nvme_reply_def)
  qed
  then show ?thesis
    using serves assms(3) page [of 128 2] page [of 256 1]
    by (auto simp: answers_nvme_def linux_platform_def linux_IsNVMe_def yields_basic
        linux_nvme_device_def linux_serves_nvme_def linux_OpenNVMe_def yields_def run_attempt
        linux_open_def silent_def linux_close_def same_io_def)
qed

section \<open>Reports\<close>

text \<open>A drive whose health log was read is attached in the sense of list and get mode.\<close>

lemma answers_attached:
  assumes "answers_nvme P path dev ic logs" and "health_log logs = Some s"
  shows "attached_nvme P path dev s"
proof -
  from assms(2) obtain d where "logs 2 512 = Inr d" "ParseSmartLog d = Some (Inr s)"
    by (auto simp: health_log_def read_log_def split: sum.splits option.splits)
  with assms(1) show ?thesis by (auto simp: answers_nvme_def attached_nvme_def)
qed







section \<open>Sample drive and systems\<close>

definition sample_nvme :: nvme_drive where
  "sample_nvme = \<lparr>
     nvd_identify = Some (replicate 4096 0),
     nvd_log = (\<lambda>l n. Some (replicate (unat n) 0))\<rparr>"

lemma sample_nvme_ok: "nvme_drive_ok sample_nvme"
  by (simp add: nvme_drive_ok_def sample_nvme_def)

lemma sample_os_carries:
  assumes "m < 2 ^ 32"
  shows "linux_carries (sample_os D) fd e opcode nsid cdw10 m (Some (replicate m 0))"
proof -
  have "slice (nvme_cmd_bytes c) 36 40 = Some (le_bytes 4 (nc_DataLen c))"
    "length (nvme_cmd_bytes c) = 72" for c
    using nvme_cmd_layout [of c] by blast+
  then have "take 4 (drop 36 (nvme_cmd_bytes c)) = le_bytes 4 (nc_DataLen c)" for c
    by (simp add: slice_def)
  moreover have "le_val (le_bytes 4 x) = unat x" for x :: u32
    using unat_le_word [of "le_bytes 4 x", where 'a = 32] by (simp add: le_word_le_bytes)
  moreover have "unat (of_nat m :: u32) = m" using assms by (simp add: unat_of_nat)
  ultimately show ?thesis by (simp add: linux_carries_def sample_os_def nvme_command_def)
qed

lemma sample_os_serves_nvme:
  assumes "9 \<le> length path" and "take 9 path = ''/dev/nvme''"
  shows "linux_serves_nvme (sample_os D) path 3 sample_nvme e"
proof -
  have "linux_carries (sample_os D) 3 e 6 0 1 4096 (nvd_identify sample_nvme)"
    by (simp add: sample_nvme_def sample_os_carries)
  moreover have "linux_carries (sample_os D) 3 e 2 0xffffffff c (4 * k)
      (nvd_log sample_nvme l (of_nat (4 * k)))" if "k \<le> 65536" for c k l
  proof -
    have "4 * k < 2 ^ 32" using that by simp
    moreover from this have "unat (of_nat (4 * k) :: u32) = 4 * k" by (subst unat_of_nat) simp
    ultimately show ?thesis
      using sample_os_carries [of "4 * k"] by (simp add: sample_nvme_def)
  qed
  ultimately show ?thesis
    using assms sample_nvme_ok by (simp add: linux_serves_nvme_def sample_os_def)
qed

lemma sample_ic: "\<exists>ic. ParseIdentifyController (replicate 4096 0) = Some (Inr ic)"
  using ParseIdentifyController_eq [of "replicate 4096 0"] by simp

lemma sample_health:
  "\<exists>s. health_log (nvme_logs sample_nvme e) = Some s \<and> CriticalWarning s = 0"
proof -
  obtain s where s: "ParseSmartLog (replicate 512 0) = Some (Inr s)"
    using smart_log.parse_cases [of "replicate 512 0"] by auto
  then have "health_log (nvme_logs sample_nvme e) = Some s"
    by (simp add: health_log_def read_log_def nvme_logs_def nvme_reply_def sample_nvme_def)
  with smart_log_first [OF s] show ?thesis by simp
qed

lemma sample_nvme_answers:
  "\<exists>ic. answers_nvme (linux_platform (sample_os D)) ''/dev/nvme0''
     (linux_nvme_device (sample_os D) ''/dev/nvme0'' 3) ic (nvme_logs sample_nvme e)"
proof -
  obtain ic where "ParseIdentifyController (replicate 4096 0) = Some (Inr ic)" using sample_ic by blast
  then show ?thesis
    using linux_answers_nvme [OF sample_os_serves_nvme, of "''/dev/nvme0''"]
    by (fastforce simp: sample_nvme_def)
qed

lemma sample_nvme_attached:
  "\<exists>s. attached_nvme (linux_platform (sample_os D)) ''/dev/nvme0''
     (linux_nvme_device (sample_os D) ''/dev/nvme0'' 3) s"
  using sample_nvme_answers [of D] sample_health answers_attached by metis

section \<open>Properties\<close>



section \<open>The Windows query\<close>

text \<open>
  The Windows protocol query states that the data begin 32 bytes after the start of the
  protocol structure, and takes the bytes of the reply from 40 on (8 of the descriptor and 32)
  as the data. The documented \<open>STORAGE_PROTOCOL_SPECIFIC_DATA\<close> has ten ULONG fields, 40 bytes:
  of a reply that has all ten in front of the data, the program returns the last two fields as
  the first eight bytes and loses the last eight bytes of the data.
\<close>

lemma nvme_query_layout:
  assumes "length descriptor = 8" and "length ulongs = 10" and "length d = unat dataLen"
    and "8 \<le> unat dataLen" and "40 + unat dataLen \<le> unat returned"
  shows "nvme_query_request dataType requestValue dataLen =
      Some (concat (map (le_bytes 4) [49, 0, 3, dataType, requestValue, 0, 32, dataLen, 0, 0]) @
        replicate (unat dataLen) 0) \<and>
    nvme_query_reply dataLen
        (take (40 + unat dataLen) (descriptor @ concat (map (le_bytes 4) ulongs) @ d), returned) =
      Some (Inr (le_bytes 4 (ulongs ! 8 :: u32) @ le_bytes 4 (ulongs ! 9) @ take (unat dataLen - 8) d))"
proof -
  let ?U = "concat (map (le_bytes 4) ulongs)"
  have "ulongs = take 8 ulongs @ [ulongs ! 8, ulongs ! 9]"
    using assms(2) by (intro nth_equalityI) (auto simp: nth_append nth_Cons' less_Suc_eq numeral_eq_Suc)
  then have split: "?U = concat (map (le_bytes 4) (take 8 ulongs)) @
      le_bytes 4 (ulongs ! 8) @ le_bytes 4 (ulongs ! 9)"
    by (metis (no_types, lifting) append.right_neutral concat.simps concat_append list.simps(8,9) map_append)
  have "length (concat (map (le_bytes 4) (take 8 ulongs))) = 32"
    using assms(2) by (simp add: length_concat comp_def sum_list_triv)
  then have "drop 40 (descriptor @ ?U @ d) = le_bytes 4 (ulongs ! 8) @ le_bytes 4 (ulongs ! 9) @ d"
    unfolding split using assms(1) by simp
  moreover define reply where "reply = take (40 + unat dataLen) (descriptor @ ?U @ d)"
  ultimately have "drop 40 reply =
      take (unat dataLen) (le_bytes 4 (ulongs ! 8) @ le_bytes 4 (ulongs ! 9) @ d)"
    unfolding reply_def drop_take by (simp only: add_diff_cancel_left')
  then have "drop 40 reply = le_bytes 4 (ulongs ! 8) @ le_bytes 4 (ulongs ! 9) @ take (unat dataLen - 8) d"
    using assms(4) by (simp del: le_bytes.simps)
  moreover have "length reply = 40 + unat dataLen"
    using assms by (simp add: reply_def length_concat comp_def sum_list_triv)
  ultimately have "nvme_query_reply dataLen (reply, returned) =
      Some (Inr (le_bytes 4 (ulongs ! 8) @ le_bytes 4 (ulongs ! 9) @ take (unat dataLen - 8) d))"
    using assms(5) by (simp add: nvme_query_reply_data)
  then show ?thesis using nvme_query_frame by (simp add: reply_def)
qed

lemma nvme_query_layout_witness:
  "nvme_query_reply 8 (take (40 + unat (8 :: u32)) (replicate 8 0 @
       concat (map (le_bytes 4) [3, 2, 2, 0, 40, 8, 0, 0, 7, 9 :: u32]) @ [1, 2, 3, 4, 5, 6, 7, 8]), 48) =
     Some (Inr [7, 0, 0, 0, 9, 0, 0, 0])"
proof -
  let ?ulongs = "[3, 2, 2, 0, 40, 8, 0, 0, 7, 9 :: u32]"
  have "nvme_query_reply 8 (take (40 + unat (8 :: u32)) (replicate 8 0 @
      concat (map (le_bytes 4) ?ulongs) @ [1, 2, 3, 4, 5, 6, 7, 8]), 48) =
    Some (Inr (le_bytes 4 (?ulongs ! 8) @ le_bytes 4 (?ulongs ! 9) @
      take (unat (8 :: u32) - 8) [1, 2, 3, 4, 5, 6, 7, 8]))"
    by (rule conjunct2 [OF nvme_query_layout [where dataType = 2 and requestValue = 2]]) simp_all
  moreover have "le_bytes 4 (?ulongs ! 8) @ le_bytes 4 (?ulongs ! 9) = [7, 0, 0, 0, 9, 0, 0, 0]" by code_simp
  ultimately show ?thesis by (simp del: le_bytes.simps)
qed

end
