(* ===== verification/Go_Flag.thy ===== *)
theory Go_Flag
  imports Go_Fmt
begin

text \<open>
  What \<open>main\<close> uses of Go's packages \<open>strconv\<close> and \<open>flag\<close>: \<open>ParseBool\<close>, \<open>ParseInt(s, 0, 64)\<close>
  with its base prefixes, underscores and range, and the loop of \<open>flag.Parse\<close> over the three
  flags of the program. An error of a flag is a value; the text the package prints for it
  needs the Unicode tables of \<open>%q\<close> and is a parameter of the program's model.
\<close>

section \<open>Numbers\<close>

datatype num_error = ErrSyntax | ErrRange

text \<open>\<open>lower(c)\<close> is \<open>c | ('x' - 'X')\<close>.\<close>

definition lower :: "char \<Rightarrow> nat" where
  "lower c = of_char c OR 32"

definition digit_value :: "char \<Rightarrow> nat option" where
  "digit_value c =
     (if 48 \<le> (of_char c :: nat) \<and> (of_char c :: nat) \<le> 57 then Some (of_char c - 48)
      else if 97 \<le> lower c \<and> lower c \<le> 122 then Some (lower c - 97 + 10)
      else None)"

text \<open>The first value whose product with the base leaves 64 bits.\<close>

definition cutoff :: "nat \<Rightarrow> u64" where
  "cutoff base = of_nat ((2 ^ 64 - 1) div base + 1)"

text \<open>The loop of \<open>ParseUint\<close>: the value so far, and whether an underscore was seen.\<close>

fun uint_loop :: "nat \<Rightarrow> string \<Rightarrow> u64 \<Rightarrow> bool \<Rightarrow> num_error + u64 \<times> bool" where
  "uint_loop base [] n underscores = Inr (n, underscores)"
| "uint_loop base (c # s) n underscores =
     (if c = CHR ''_'' then uint_loop base s n True
      else (case digit_value c of
          None \<Rightarrow> Inl ErrSyntax
        | Some d \<Rightarrow>
            if base \<le> d then Inl ErrSyntax
            else if cutoff base \<le> n then Inl ErrRange
            else let m = n * of_nat base; n1 = m + of_nat d
                 in if n1 < m then Inl ErrRange else uint_loop base s n1 underscores))"

definition prefix_base :: "string \<Rightarrow> nat option" where
  "prefix_base s =
     (if length s < 2 \<or> s ! 0 \<noteq> CHR ''0'' then None
      else if lower (s ! 1) = 98 then Some 2
      else if lower (s ! 1) = 111 then Some 8
      else if lower (s ! 1) = 120 then Some 16
      else None)"

text \<open>The base and the digits of a numeral: \<open>0b\<close>, \<open>0o\<close>, \<open>0x\<close>, \<open>0\<close> for octal, else decimal.\<close>

definition split_base :: "string \<Rightarrow> nat \<times> string" where
  "split_base s =
     (if s ! 0 = CHR ''0'' then
        (case prefix_base s of
           Some b \<Rightarrow> if 3 \<le> length s then (b, drop 2 s) else (8, drop 1 s)
         | None \<Rightarrow> (8, drop 1 s))
      else (10, s))"

text \<open>\<open>underscoreOK\<close>: underscores separate digits, and the base prefix counts as a digit.\<close>

datatype seen = SawStart | SawDigit | SawUnderscore | SawOther

fun underscore_loop :: "bool \<Rightarrow> seen \<Rightarrow> string \<Rightarrow> bool" where
  "underscore_loop hex saw [] = (saw \<noteq> SawUnderscore)"
| "underscore_loop hex saw (c # s) =
     (if is_digit c \<or> hex \<and> 97 \<le> lower c \<and> lower c \<le> 102 then underscore_loop hex SawDigit s
      else if c = CHR ''_'' then saw = SawDigit \<and> underscore_loop hex SawUnderscore s
      else saw \<noteq> SawUnderscore \<and> underscore_loop hex SawOther s)"

definition drop_sign :: "string \<Rightarrow> string" where
  "drop_sign s = (if s \<noteq> [] \<and> (hd s = CHR ''-'' \<or> hd s = CHR ''+'') then tl s else s)"

definition underscoreOK :: "string \<Rightarrow> bool" where
  "underscoreOK s0 =
     (let s = drop_sign s0
      in case prefix_base s of
           Some b \<Rightarrow> underscore_loop (b = 16) SawDigit (drop 2 s)
         | None \<Rightarrow> underscore_loop False SawStart s)"

definition ParseUint :: "string \<Rightarrow> num_error + u64" where
  "ParseUint s =
     (if s = [] then Inl ErrSyntax
      else case split_base s of (base, ds) \<Rightarrow>
        (case uint_loop base ds 0 False of
           Inl e \<Rightarrow> Inl e
         | Inr (n, underscores) \<Rightarrow>
             if underscores \<and> \<not> underscoreOK s then Inl ErrSyntax else Inr n))"

definition ParseInt :: "string \<Rightarrow> num_error + u64" where
  "ParseInt s =
     (if s = [] then Inl ErrSyntax
      else let neg = (hd s = CHR ''-'')
        in case ParseUint (drop_sign s) of
             Inl e \<Rightarrow> Inl e
           | Inr un \<Rightarrow>
               if \<not> neg \<and> 2 ^ 63 \<le> un then Inl ErrRange
               else if neg \<and> 2 ^ 63 < un then Inl ErrRange
               else Inr (if neg then - un else un))"

definition ParseBool :: "string \<Rightarrow> bool option" where
  "ParseBool s =
     (if s \<in> {''1'', ''t'', ''T'', ''true'', ''TRUE'', ''True''} then Some True
      else if s \<in> {''0'', ''f'', ''F'', ''false'', ''FALSE'', ''False''} then Some False
      else None)"

section \<open>Flags\<close>

text \<open>The flags of the program and their variables; \<open>-t\<close> and \<open>-timeout\<close> share one.\<close>

datatype flag_kind = BoolFlag | IntFlag

record flags =
  fl_list :: bool
  fl_timeoutSec :: u64

datatype flag_error =
    BadSyntax string
  | NotDefined string
  | NeedsArgument string
  | InvalidBool string string
  | InvalidInt string string num_error
  | Help

definition flag_formal :: "string \<Rightarrow> flag_kind option" where
  "flag_formal = map_of [(''l'', BoolFlag), (''t'', IntFlag), (''timeout'', IntFlag)]"

definition initial_flags :: flags where
  "initial_flags = \<lparr>fl_list = False, fl_timeoutSec = 5\<rparr>"

text \<open>\<open>name=value\<close>: the first equals sign, not counting the first character.\<close>

definition split_value :: "string \<Rightarrow> string \<times> string option" where
  "split_value name =
     (let front = take 1 name @ takeWhile (\<lambda>c. c \<noteq> CHR ''='') (drop 1 name);
          back = dropWhile (\<lambda>c. c \<noteq> CHR ''='') (drop 1 name)
      in (front, if back = [] then None else Some (tl back)))"

text \<open>\<open>parseOne\<close>: no more flags, an error, or a flag and the arguments after it.\<close>

datatype parse_step = Stop "string list" | Failed flag_error | Seen flags "string list"

definition set_bool :: "string \<Rightarrow> string \<Rightarrow> flags \<Rightarrow> string list \<Rightarrow> parse_step" where
  "set_bool name v fl rest =
     (case ParseBool v of
        None \<Rightarrow> Failed (InvalidBool v name)
      | Some b \<Rightarrow> Seen (fl\<lparr>fl_list := b\<rparr>) rest)"

definition set_int :: "string \<Rightarrow> string \<Rightarrow> flags \<Rightarrow> string list \<Rightarrow> parse_step" where
  "set_int name v fl rest =
     (case ParseInt v of
        Inl e \<Rightarrow> Failed (InvalidInt v name e)
      | Inr n \<Rightarrow> Seen (fl\<lparr>fl_timeoutSec := n\<rparr>) rest)"

definition parse_flag :: "flags \<Rightarrow> string \<Rightarrow> string option \<Rightarrow> string list \<Rightarrow> parse_step" where
  "parse_flag fl name v rest =
     (case flag_formal name of
        None \<Rightarrow> Failed (if name = ''help'' \<or> name = ''h'' then Help else NotDefined name)
      | Some BoolFlag \<Rightarrow> set_bool name (case v of None \<Rightarrow> ''true'' | Some x \<Rightarrow> x) fl rest
      | Some IntFlag \<Rightarrow>
          (case v of
             Some x \<Rightarrow> set_int name x fl rest
           | None \<Rightarrow>
               (case rest of
                  [] \<Rightarrow> Failed (NeedsArgument name)
                | x # rest' \<Rightarrow> set_int name x fl rest')))"

definition parse_one :: "flags \<Rightarrow> string list \<Rightarrow> parse_step" where
  "parse_one fl args =
     (case args of
        [] \<Rightarrow> Stop []
      | s # rest \<Rightarrow>
          if length s < 2 \<or> s ! 0 \<noteq> CHR ''-'' then Stop args
          else if s = ''--'' then Stop rest
          else
            let name = drop (if s ! 1 = CHR ''-'' then 2 else 1) s
            in if name = [] \<or> hd name = CHR ''-'' \<or> hd name = CHR ''='' then Failed (BadSyntax s)
               else case split_value name of (n, v) \<Rightarrow> parse_flag fl n v rest)"

lemma parse_one_shorter:
  "parse_one fl args = Seen fl' rest \<Longrightarrow> length rest < length args"
  by (auto simp: parse_one_def parse_flag_def set_bool_def set_int_def Let_def
      split: list.splits if_splits prod.splits option.splits flag_kind.splits sum.splits)

text \<open>The loop of \<open>Parse\<close>; each flag leaves fewer arguments.\<close>

function parse_flags :: "flags \<Rightarrow> string list \<Rightarrow> flag_error + flags \<times> string list" where
  "parse_flags fl args =
     (case parse_one fl args of
        Stop rest \<Rightarrow> Inr (fl, rest)
      | Failed e \<Rightarrow> Inl e
      | Seen fl' rest \<Rightarrow> parse_flags fl' rest)"
  by pat_completeness auto
termination
  by (relation "measure (\<lambda>(fl, args). length args)") (auto dest: parse_one_shorter)

declare parse_flags.simps [simp del]

section \<open>Numerals are read right\<close>

text \<open>The number that digits denote in a base, and the digits without underscores.\<close>

definition base_value :: "nat \<Rightarrow> nat \<Rightarrow> string \<Rightarrow> nat" where
  "base_value b v s = foldl (\<lambda>v c. b * v + the (digit_value c)) v s"

definition digit_of :: "nat \<Rightarrow> char \<Rightarrow> bool" where
  "digit_of b c \<longleftrightarrow> c \<noteq> CHR ''_'' \<and> (\<exists>d < b. digit_value c = Some d)"

lemma base_value_ge: "0 < b \<Longrightarrow> v \<le> base_value b v s"
proof (induction s arbitrary: v)
  case (Cons c s)
  then have "1 * v \<le> b * v" by (intro mult_le_mono1) simp
  then have "v \<le> b * v + the (digit_value c)" by linarith
  also have "\<dots> \<le> base_value b v (c # s)" using Cons by (simp add: base_value_def)
  finally show ?case .
qed (simp add: base_value_def)

lemma unat_of_nat_small: "x < 2 ^ LENGTH('a) \<Longrightarrow> unat (of_nat x :: 'a::len word) = x"
  by (simp add: unat_of_nat)

lemma wrap_less: "k \<le> x + d \<Longrightarrow> d < k \<Longrightarrow> x + d - k < x" for k x d :: nat
  by linarith

lemma cutoff_iff:
  assumes "2 \<le> b"
  shows "cutoff b \<le> n \<longleftrightarrow> 2 ^ 64 \<le> b * unat n"
proof -
  have small: "(2 ^ 64 - 1) div b + 1 < (2::nat) ^ LENGTH(64)"
  proof -
    have "(2 ^ 64 - 1) div b \<le> (2 ^ 64 - 1) div (2::nat)"
      using assms by (intro div_le_mono2) simp_all
    then show ?thesis by simp
  qed
  then have "unat (cutoff b) = (2 ^ 64 - 1) div b + 1"
    unfolding cutoff_def by (rule unat_of_nat_small)
  then have "cutoff b \<le> n \<longleftrightarrow> (2 ^ 64 - 1) div b < unat n" by (simp add: word_le_nat_alt Suc_le_eq)
  also have "\<dots> \<longleftrightarrow> 2 ^ 64 - 1 < unat n * b" using assms by (intro div_less_iff_less_mult) simp
  also have "\<dots> \<longleftrightarrow> 2 ^ 64 \<le> b * unat n" by (simp add: mult.commute, linarith)
  finally show ?thesis .
qed

text \<open>The loop computes the value in 64 bits, and detects exactly the values that do not fit.\<close>

lemma uint_loop_value:
  assumes "2 \<le> b" and "b \<le> 36" and "list_all (digit_of b) s"
  shows "uint_loop b s n u =
    (if base_value b (unat n) s < 2 ^ 64 then Inr (of_nat (base_value b (unat n) s), u)
     else Inl ErrRange)"
  using assms(3)
proof (induction s arbitrary: n)
  case Nil
  have "unat n < 2 ^ 64" using unsigned_less [of n] by simp
  then show ?case by (simp add: base_value_def)
next
  case (Cons c s)
  then obtain d where d: "c \<noteq> CHR ''_''" "d < b" "digit_value c = Some d"
    by (auto simp: digit_of_def)
  have step: "base_value b (unat n) (c # s) = base_value b (b * unat n + d) s"
    using d by (simp add: base_value_def)
  have ge: "b * unat n + d \<le> base_value b (unat n) (c # s)"
    unfolding step using assms by (intro base_value_ge) simp
  show ?case
  proof (cases "2 ^ 64 \<le> b * unat n")
    case True
    with ge have "\<not> base_value b (unat n) (c # s) < 2 ^ 64" by linarith
    with True d assms(1) show ?thesis by (simp add: cutoff_iff)
  next
    case False
    let ?m = "n * of_nat b"
    have "unat (of_nat b :: u64) = b" using assms(2) by (intro unat_of_nat_small) simp
    then have m: "unat ?m = b * unat n"
      using False by (simp add: unat_word_ariths mult.commute)
    have ud: "unat (of_nat d :: u64) = d" using d(2) assms(2) by (intro unat_of_nat_small) simp
    have n1: "unat (?m + of_nat d) = (b * unat n + d) mod 2 ^ 64"
      using unat_word_ariths(1) [of ?m "of_nat d"] by (simp only: m ud len_num1 len_bit0) simp
    show ?thesis
    proof (cases "b * unat n + d < 2 ^ 64")
      case True
      then have "unat (?m + of_nat d) = b * unat n + d" using n1 by simp
      with False d assms(1) m Cons show ?thesis
        by (simp add: cutoff_iff word_less_nat_alt step)
    next
      case over: False
      have "(b * unat n + d) mod 2 ^ 64 = b * unat n + d - 2 ^ 64"
        using over False d(2) assms(2) by (subst le_mod_geq) simp_all
      moreover have "b * unat n + d - 2 ^ 64 < b * unat n"
        using over False d(2) assms(2) by (intro wrap_less) simp_all
      ultimately have "?m + of_nat d < ?m" by (simp add: word_less_nat_alt n1 m)
      moreover have "\<not> base_value b (unat n) (c # s) < 2 ^ 64" using ge over by linarith
      ultimately show ?thesis using False d assms(1) by (simp add: cutoff_iff Let_def)
    qed
  qed
qed

text \<open>Decimal numerals, as \<open>%d\<close> prints them.\<close>

lemma is_digit_value: "is_digit c \<Longrightarrow> digit_value c = Some (of_char c - 48) \<and> digit_of 10 c"
  by (auto simp: is_digit_def digit_value_def digit_of_def)

lemma base_value_dec: "list_all is_digit s \<Longrightarrow> base_value 10 0 s = dec_value s"
proof (induction s rule: rev_induct)
  case (snoc c s)
  then show ?case using is_digit_value [of c] by (simp add: base_value_def dec_value_def)
qed (simp add: base_value_def dec_value_def)

lemma hd_fmt_d: "is_digit (hd (fmt_d n))"
  using fmt_d_digits [of n] fmt_d_not_Nil [of n] by (cases "fmt_d n") auto

lemma split_base_fmt_d: "0 < n \<Longrightarrow> split_base (fmt_d n) = (10, fmt_d n)"
  using fmt_d_no_leading_zero [of n] by (simp add: split_base_def hd_conv_nth)

lemma ParseUint_fmt_d:
  "ParseUint (fmt_d n) = (if n < 2 ^ 64 then Inr (of_nat n) else Inl ErrRange)"
proof (cases "n = 0")
  case True
  have "digit_char 0 = CHR ''0''" by code_simp
  then have "fmt_d 0 = ''0''" by (subst fmt_d_rec) simp
  with True show ?thesis by (simp add: ParseUint_def split_base_def prefix_base_def)
next
  case False
  have "list_all (digit_of 10) (fmt_d n)"
    using fmt_d_digits [of n] is_digit_value by (auto simp: list_all_iff)
  then have "uint_loop 10 (fmt_d n) 0 False =
      (if n < 2 ^ 64 then Inr (of_nat n, False) else Inl ErrRange)"
    using uint_loop_value [of 10 "fmt_d n" 0 False]
    by (simp add: base_value_dec fmt_d_digits fmt_d_value)
  with False show ?thesis by (simp add: ParseUint_def split_base_fmt_d)
qed

lemma not_sign: "is_digit c \<Longrightarrow> c \<noteq> CHR ''-'' \<and> c \<noteq> CHR ''+''"
  by (auto simp: is_digit_def)

lemma drop_sign_fmt_d: "drop_sign (fmt_d n) = fmt_d n"
  using not_sign [OF hd_fmt_d, of n] by (simp add: drop_sign_def)

lemma ParseInt_fmt_d:
  "ParseInt (fmt_d n) = (if n < 2 ^ 63 then Inr (of_nat n) else Inl ErrRange)"
proof -
  have "(2 ^ 63 :: u64) \<le> of_nat n \<longleftrightarrow> 2 ^ 63 \<le> n" if "n < 2 ^ 64"
    using that by (simp add: word_le_nat_alt unat_of_nat_small)
  then show ?thesis
    using not_sign [OF hd_fmt_d, of n]
    by (simp add: ParseInt_def drop_sign_fmt_d ParseUint_fmt_d Let_def)
qed

lemma ParseInt_minus_fmt_d:
  "ParseInt (''-'' @ fmt_d n) = (if n \<le> 2 ^ 63 then Inr (- of_nat n) else Inl ErrRange)"
proof -
  have "(2 ^ 63 :: u64) < of_nat n \<longleftrightarrow> 2 ^ 63 < n" if "n < 2 ^ 64"
    using that by (simp add: word_less_nat_alt unat_of_nat_small)
  moreover have "drop_sign (''-'' @ fmt_d n) = fmt_d n" by (simp add: drop_sign_def)
  ultimately show ?thesis
    by (simp add: ParseInt_def ParseUint_fmt_d Let_def)
qed

lemma ParseInt_int:
  "ParseInt (fmt_int z) =
     (if - (2 ^ 63) \<le> z \<and> z < 2 ^ 63 then Inr (of_int z) else Inl ErrRange)"
proof (cases "z < 0")
  case True
  then have "ParseInt (fmt_int z) =
      (if nat (- z) \<le> 2 ^ 63 then Inr (- of_nat (nat (- z))) else Inl ErrRange)"
    by (simp add: fmt_int_def ParseInt_minus_fmt_d del: append_Cons)
  moreover have "nat (- z) \<le> 2 ^ 63 \<longleftrightarrow> - (2 ^ 63) \<le> z" by (simp add: nat_le_iff, linarith)
  ultimately show ?thesis using True by (simp add: of_nat_nat)
next
  case False
  then have "ParseInt (fmt_int z) = (if nat z < 2 ^ 63 then Inr (of_nat (nat z)) else Inl ErrRange)"
    by (simp add: fmt_int_def ParseInt_fmt_d)
  moreover have "nat z < 2 ^ 63 \<longleftrightarrow> z < 2 ^ 63" using False by (simp add: nat_less_iff)
  ultimately show ?thesis using False by (simp add: of_nat_nat)
qed

lemma ParseInt_fmt_int: "ParseInt (fmt_int (sint t)) = Inr t" for t :: u64
  using sint_ge [of t] sint_less [of t] by (simp add: ParseInt_int)

section \<open>Command lines and their meaning\<close>

text \<open>
  The options a user can write, with one or two dashes: \<open>-l\<close>, \<open>-l=<bool>\<close>, and a timeout
  as \<open>-t\<close> or \<open>-timeout\<close>, with the value after an equals sign or as the next argument.
\<close>

datatype cl_option =
    ListOption bool
  | ListEquals bool bool
  | TimeoutNext bool bool u64
  | TimeoutEquals bool bool u64

definition dashes :: "bool \<Rightarrow> string" where
  "dashes two = (if two then ''--'' else ''-'')"

definition timeout_name :: "bool \<Rightarrow> string" where
  "timeout_name long = (if long then ''timeout'' else ''t'')"

fun option_args :: "cl_option \<Rightarrow> string list" where
  "option_args (ListOption two) = [dashes two @ ''l'']"
| "option_args (ListEquals two b) = [dashes two @ ''l='' @ (if b then ''true'' else ''false'')]"
| "option_args (TimeoutNext two long t) = [dashes two @ timeout_name long, fmt_int (sint t)]"
| "option_args (TimeoutEquals two long t) =
     [dashes two @ timeout_name long @ ''='' @ fmt_int (sint t)]"

fun option_effect :: "cl_option \<Rightarrow> flags \<Rightarrow> flags" where
  "option_effect (ListOption _) fl = fl\<lparr>fl_list := True\<rparr>"
| "option_effect (ListEquals _ b) fl = fl\<lparr>fl_list := b\<rparr>"
| "option_effect (TimeoutNext _ _ t) fl = fl\<lparr>fl_timeoutSec := t\<rparr>"
| "option_effect (TimeoutEquals _ _ t) fl = fl\<lparr>fl_timeoutSec := t\<rparr>"

text \<open>An argument that ends the options: the empty string, a single dash, or no leading dash.\<close>

definition positional :: "string \<Rightarrow> bool" where
  "positional a \<longleftrightarrow> length a < 2 \<or> a ! 0 \<noteq> CHR ''-''"

lemma parse_flags_stop:
  "positional a \<Longrightarrow> parse_flags fl (a # rest) = Inr (fl, a # rest)"
  "parse_flags fl [] = Inr (fl, [])" "parse_flags fl (''--'' # rest) = Inr (fl, rest)"
  by (subst parse_flags.simps, simp add: parse_one_def positional_def)+

lemma parse_option:
  "parse_one fl (option_args p @ rest) = Seen (option_effect p fl) rest"
proof (cases p)
  case (ListOption two)
  then show ?thesis
    by (cases two) (simp_all add: dashes_def parse_one_def split_value_def parse_flag_def
      flag_formal_def set_bool_def ParseBool_def)
next
  case (ListEquals two b)
  then show ?thesis
    by (cases two; cases b) (simp_all add: dashes_def parse_one_def split_value_def parse_flag_def
      flag_formal_def set_bool_def ParseBool_def)
next
  case (TimeoutNext two long t)
  then show ?thesis
    by (cases two; cases long) (simp_all add: dashes_def timeout_name_def parse_one_def
      split_value_def parse_flag_def flag_formal_def set_int_def ParseInt_fmt_int)
next
  case (TimeoutEquals two long t)
  then show ?thesis
    by (cases two; cases long) (simp_all add: dashes_def timeout_name_def parse_one_def
      split_value_def parse_flag_def flag_formal_def set_int_def ParseInt_fmt_int)
qed

lemma parse_flags_options:
  "parse_flags fl (concat (map option_args os) @ rest) =
     parse_flags (fold option_effect os fl) rest"
proof (induction os arbitrary: fl)
  case (Cons p os)
  then show ?case
    by (subst parse_flags.simps) (simp add: parse_option)
qed simp

end
