(* ===== verification/Cmd_Timeout.thy ===== *)
theory Cmd_Timeout
  imports Device
begin

text \<open>
  \<open>runWithTimeout\<close> of \<open>cmd/gosmart/main.go\<close> as a step relation. Two threads and a clock run
  at their own pace: the worker goroutine, which runs \<open>fn\<close> and sends its result into a
  channel with one slot, the timer of \<open>time.After\<close>, and the main goroutine, which selects
  between the two channels and then ends the process. The result \<open>r\<close> of \<open>fn\<close> (nil or an
  error) is a parameter of the relation, and so is the moment it arrives, possibly never.
\<close>

section \<open>States and steps\<close>

datatype main_state = Waiting | Exited nat

text \<open>
  \<open>timer\<close> is the due time in nanoseconds, absent when no timer was started; \<open>timer_chan\<close>
  says whether the timer's channel holds a value.
\<close>

record proc =
  worker_running :: bool
  errCh :: "go_error option list"
  timer :: "nat option"
  timer_chan :: bool
  clock :: nat
  main :: main_state
  messages :: string

definition exitTimeout :: nat where
  "exitTimeout = 2"

text \<open>
  \<open>time.Duration(timeoutSec) * time.Second\<close> in \<open>int64\<close>, which wraps; a timer of a duration
  that is not positive is due at once.
\<close>

definition timeout_duration :: "64 word \<Rightarrow> int" where
  "timeout_duration timeoutSec = sint (timeoutSec * 1000000000)"

definition due_time :: "64 word \<Rightarrow> nat" where
  "due_time timeoutSec = nat (timeout_duration timeoutSec)"

text \<open>The message of a timeout; the dash is U+2014, three bytes in UTF-8.\<close>

definition timeout_message :: "64 word \<Rightarrow> string" where
  "timeout_message timeoutSec =
     ''gosmart: timeout after '' @ fmt_int (sint timeoutSec) @ ''s '' @
     [CHR 0xE2, CHR 0x80, CHR 0x94] @ '' device not responding'' @ nl"

definition error_line :: "go_error \<Rightarrow> string" where
  "error_line e = ''gosmart: '' @ error_message e @ nl"

definition start :: "64 word \<Rightarrow> proc" where
  "start timeoutSec = \<lparr>
     worker_running = True, errCh = [],
     timer = (if timeoutSec = 0 then None else Some (due_time timeoutSec)),
     timer_chan = False, clock = 0, main = Waiting, messages = []\<rparr>"

text \<open>What the main goroutine does with a value from \<open>errCh\<close>.\<close>

fun received :: "go_error option \<Rightarrow> proc \<Rightarrow> proc" where
  "received None p = p\<lparr>main := Exited 0\<rparr>"
| "received (Some e) p = p\<lparr>main := Exited 1, messages := messages p @ error_line e\<rparr>"

text \<open>When main has exited the process is gone: no rule applies any more.\<close>

inductive step :: "64 word \<Rightarrow> go_error option \<Rightarrow> proc \<Rightarrow> proc \<Rightarrow> bool" for t r where
  Tick: "main p = Waiting \<Longrightarrow> step t r p (p\<lparr>clock := clock p + 1\<rparr>)"
| Send: "main p = Waiting \<Longrightarrow> worker_running p \<Longrightarrow> length (errCh p) < 1 \<Longrightarrow>
    step t r p (p\<lparr>worker_running := False, errCh := errCh p @ [r]\<rparr>)"
| Fire: "main p = Waiting \<Longrightarrow> timer p = Some d \<Longrightarrow> d \<le> clock p \<Longrightarrow> \<not> timer_chan p \<Longrightarrow>
    step t r p (p\<lparr>timer_chan := True\<rparr>)"
| Receive: "main p = Waiting \<Longrightarrow> errCh p = x # xs \<Longrightarrow>
    step t r p (received x (p\<lparr>errCh := xs\<rparr>))"
| Timeout: "main p = Waiting \<Longrightarrow> timer_chan p \<Longrightarrow>
    step t r p (p\<lparr>timer_chan := False, main := Exited exitTimeout,
      messages := messages p @ timeout_message t\<rparr>)"

inductive_cases step_elim: "step t r p q"
inductive_simps step_exited: "step t r (p\<lparr>main := Exited c\<rparr>) q"

abbreviation reachable :: "64 word \<Rightarrow> go_error option \<Rightarrow> proc \<Rightarrow> bool" where
  "reachable t r p \<equiv> (step t r)\<^sup>*\<^sup>* (start t) p"

section \<open>The invariant\<close>

text \<open>How an exit code comes about.\<close>

definition exit_ok :: "64 word \<Rightarrow> go_error option \<Rightarrow> proc \<Rightarrow> nat \<Rightarrow> bool" where
  "exit_ok t r p c \<longleftrightarrow>
     c = 0 \<and> r = None \<and> messages p = [] \<or>
     c = 1 \<and> (\<exists>e. r = Some e \<and> messages p = error_line e) \<or>
     c = exitTimeout \<and> t \<noteq> 0 \<and> due_time t \<le> clock p \<and> messages p = timeout_message t"

definition proc_inv :: "64 word \<Rightarrow> go_error option \<Rightarrow> proc \<Rightarrow> bool" where
  "proc_inv t r p \<longleftrightarrow>
     (errCh p = [] \<or> errCh p = [r] \<and> \<not> worker_running p) \<and>
     timer p = (if t = 0 then None else Some (due_time t)) \<and>
     (timer_chan p \<longrightarrow> t \<noteq> 0 \<and> due_time t \<le> clock p) \<and>
     (case main p of
        Waiting \<Rightarrow> messages p = [] \<and> (\<not> worker_running p \<longrightarrow> errCh p = [r])
      | Exited c \<Rightarrow> exit_ok t r p c)"

lemma proc_inv_start: "proc_inv t r (start t)"
  by (simp add: proc_inv_def start_def)

lemma proc_inv_step: "step t r p q \<Longrightarrow> proc_inv t r p \<Longrightarrow> proc_inv t r q"
proof (induction rule: step.induct)
  case (Receive p x xs)
  then have "x = r" "xs = []" by (auto simp: proc_inv_def)
  with Receive show ?case by (cases r) (auto simp: proc_inv_def exit_ok_def)
qed (auto simp: proc_inv_def exit_ok_def split: if_splits)

lemma reachable_inv: "reachable t r p \<Longrightarrow> proc_inv t r p"
  by (induction rule: rtranclp_induct) (auto intro: proc_inv_start proc_inv_step)

section \<open>Progress\<close>

text \<open>Nothing the main goroutine waits for is lost: there is always a step besides the clock.\<close>

lemma waiting_progress:
  assumes "reachable t r p" and "main p = Waiting"
  shows "\<exists>q. step t r p q \<and> clock q = clock p"
proof (cases "worker_running p")
  case True
  with reachable_inv [OF assms(1)] assms(2) have "errCh p = []" by (auto simp: proc_inv_def)
  with step.Send [OF assms(2) True] show ?thesis by fastforce
next
  case False
  with reachable_inv [OF assms(1)] assms(2) have "errCh p = [r]" by (auto simp: proc_inv_def)
  with step.Receive [OF assms(2)] show ?thesis by (cases r) fastforce+
qed

lemma ticks:
  "main p = Waiting \<Longrightarrow> (step t r ^^ n) p (p\<lparr>clock := clock p + n\<rparr>)"
proof (induction n)
  case (Suc n)
  then have "step t r (p\<lparr>clock := clock p + n\<rparr>) (p\<lparr>clock := clock p + Suc n\<rparr>)"
    using step.Tick [of "p\<lparr>clock := clock p + n\<rparr>" t r] by simp
  with Suc show ?case by auto
qed simp

text \<open>The timeout needs the clock and the timer only, whatever the worker does.\<close>

lemma timeout_reachable:
  assumes inv: "proc_inv t r p" and wait: "main p = Waiting" and t: "t \<noteq> 0"
  shows "\<exists>n q. n \<le> due_time t + 2 \<and> (step t r ^^ n) p q \<and> main q = Exited exitTimeout \<and>
    worker_running q = worker_running p \<and> errCh q = errCh p"
proof -
  let ?k = "due_time t - clock p"
  let ?p1 = "p\<lparr>clock := clock p + ?k\<rparr>"
  let ?p2 = "?p1\<lparr>timer_chan := True\<rparr>"
  define p3 where "p3 = ?p2\<lparr>timer_chan := False, main := Exited exitTimeout,
      messages := messages ?p2 @ timeout_message t\<rparr>"
  have due: "timer p = Some (due_time t)" using inv t by (simp add: proc_inv_def)
  have s1: "(step t r ^^ ?k) p ?p1" by (rule ticks [OF wait])
  have s3: "step t r ?p2 p3" unfolding p3_def by (rule step.Timeout) (simp_all add: wait)
  have fin: "main p3 = Exited exitTimeout \<and> worker_running p3 = worker_running p \<and>
      errCh p3 = errCh p"
    by (simp add: p3_def)
  have "?p2 = ?p1 \<or> step t r ?p1 ?p2"
  proof (cases "timer_chan p")
    case False
    then show ?thesis by (intro disjI2 step.Fire [of _ "due_time t"]) (simp_all add: wait due)
  qed simp
  then show ?thesis
  proof
    assume "?p2 = ?p1"
    with s1 s3 have "(step t r ^^ Suc ?k) p p3" by (metis relpowp_Suc_I)
    with fin show ?thesis by (intro exI [of _ "Suc ?k"] exI [of _ p3]) simp
  next
    assume "step t r ?p1 ?p2"
    with s1 s3 have "(step t r ^^ Suc (Suc ?k)) p p3" by (metis relpowp_Suc_I)
    with fin show ?thesis by (intro exI [of _ "Suc (Suc ?k)"] exI [of _ p3]) simp
  qed
qed

section \<open>Properties\<close>

text \<open>
  The exit code tells what happened: 0 means that the mode returned nil, with nothing on
  standard error; 1 that it returned an error, and standard error is that error; 2 that a
  timeout was set and its time is over. With \<open>-t 0\<close> the code is never 2.
\<close>

lemma exit_code_correct:
  assumes "reachable t r p" and "main p = Exited c"
  shows "c = 0 \<and> r = None \<and> messages p = [] \<or>
    c = 1 \<and> (\<exists>e. r = Some e \<and> messages p = error_line e) \<or>
    c = 2 \<and> t \<noteq> 0 \<and> due_time t \<le> clock p \<and> messages p = timeout_message t"
  using reachable_inv [OF assms(1)] assms(2)
  by (auto simp: proc_inv_def exit_ok_def exitTimeout_def)

lemma exit_code_correct_witness:
  "\<exists>p. reachable 5 (Some (SysErr ''x'')) p \<and> main p = Exited 1 \<and>
     messages p = error_line (SysErr ''x'')"
proof -
  let ?r = "Some (SysErr ''x'')"
  define p1 where "p1 = (start 5)\<lparr>worker_running := False, errCh := errCh (start 5) @ [?r]\<rparr>"
  define p2 where "p2 = received ?r (p1\<lparr>errCh := []\<rparr>)"
  have s1: "step 5 ?r (start 5) p1" unfolding p1_def by (rule step.Send) (simp_all add: start_def)
  have s2: "step 5 ?r p1 p2"
    unfolding p2_def by (rule step.Receive) (simp_all add: p1_def start_def)
  have r: "reachable 5 ?r p2"
    by (rule converse_rtranclp_into_rtranclp [OF s1 r_into_rtranclp [of "step 5 ?r", OF s2]])
  have e: "main p2 = Exited 1" by (simp add: p2_def)
  from exit_code_correct [OF r e] have "messages p2 = error_line (SysErr ''x'')" by simp
  with r e show ?thesis by blast
qed

text \<open>
  No deadlock and no lost result: while the main goroutine waits, the channel holds at
  most one value, the worker's send never blocks, and a step other than the clock's is
  possible, so that a mode that returns always gets its result to the exit code.
\<close>

lemma timeout_no_deadlock:
  assumes "reachable t r p" and "main p = Waiting"
  shows "length (errCh p) \<le> 1 \<and> (worker_running p \<longrightarrow> errCh p = []) \<and>
    (\<exists>q. step t r p q \<and> clock q = clock p)"
  using reachable_inv [OF assms(1)] assms(2) waiting_progress [OF assms]
  by (auto simp: proc_inv_def)

lemma timeout_no_deadlock_witness:
  "\<exists>q. step 5 None (start 5) q \<and> clock q = 0"
  using timeout_no_deadlock [of 5 None "start 5"] by (simp add: start_def)




text \<open>An exit is final.\<close>

lemma exited_final: "main p = Exited c \<Longrightarrow> \<not> step t r p q"
  by (auto elim: step_elim)

end
