(* ===== verification/Timeout_Spec.thy ===== *)
theory Timeout_Spec
  imports Cmd_Timeout
begin

text \<open>
  What \<open>runWithTimeout\<close> promises, as an abstract machine without threads and channels, and
  the proof that the step relation of \<open>Cmd_Timeout\<close> implements it: both directions of the
  simulation, hence the same observable states. Then the bound on the length of a run
  in which a due timer and a ready channel are served before the clock moves on, and how
  such a run ends when the worker hangs.
\<close>

section \<open>The abstract machine\<close>

text \<open>Observed are the time and, at the end, the exit code and the text on standard error.\<close>

datatype observed = Pending nat | Ended nat nat string

definition result_code :: "go_error option \<Rightarrow> nat" where
  "result_code r = (case r of None \<Rightarrow> 0 | Some _ \<Rightarrow> 1)"

definition result_text :: "go_error option \<Rightarrow> string" where
  "result_text r = (case r of None \<Rightarrow> [] | Some e \<Rightarrow> error_line e)"

inductive spec_step :: "64 word \<Rightarrow> go_error option \<Rightarrow> observed \<Rightarrow> observed \<Rightarrow> bool" for t r where
  Elapse: "spec_step t r (Pending n) (Pending (Suc n))"
| Answer: "spec_step t r (Pending n) (Ended n (result_code r) (result_text r))"
| Expire: "t \<noteq> 0 \<Longrightarrow> due_time t \<le> n \<Longrightarrow> spec_step t r (Pending n) (Ended n 2 (timeout_message t))"

inductive_simps spec_step_ended: "spec_step t r (Ended n c m) s"

definition observe :: "proc \<Rightarrow> observed" where
  "observe p = (case main p of Waiting \<Rightarrow> Pending (clock p) | Exited c \<Rightarrow> Ended (clock p) c (messages p))"

section \<open>Simulation\<close>

lemma step_simulated:
  assumes "step t r p q" and inv: "proc_inv t r p"
  shows "observe q = observe p \<or> spec_step t r (observe p) (observe q)"
  using assms(1)
proof cases
  case Tick
  then show ?thesis by (simp add: observe_def spec_step.intros)
next
  case (Receive x xs)
  then have "x = r" "messages p = []" using inv by (auto simp: proc_inv_def)
  then have "observe q = Ended (clock p) (result_code r) (result_text r)"
    using Receive by (cases r) (simp_all add: observe_def result_code_def result_text_def)
  with Receive show ?thesis by (simp add: observe_def spec_step.intros)
next
  case Timeout
  then have "messages p = []" "t \<noteq> 0" "due_time t \<le> clock p"
    using inv by (auto simp: proc_inv_def)
  with Timeout show ?thesis by (simp add: observe_def exitTimeout_def spec_step.intros)
qed (auto simp: observe_def)

text \<open>Back: what the abstract machine can do, the program can do in a few steps.\<close>

lemma can_answer:
  assumes inv: "proc_inv t r p" and wait: "main p = Waiting"
  shows "\<exists>q. (step t r)\<^sup>*\<^sup>* p q \<and> observe q = Ended (clock p) (result_code r) (result_text r)"
proof -
  have final: "\<exists>q. step t r p' q \<and> observe q = Ended (clock p') (result_code r) (result_text r)"
    if "main p' = Waiting" "errCh p' = [r]" "messages p' = []" for p'
    using step.Receive [OF that(1), of r "[]" t r] that
    by (cases r) (fastforce simp: observe_def result_code_def result_text_def)+
  show ?thesis
  proof (cases "worker_running p")
    case True
    let ?p = "p\<lparr>worker_running := False, errCh := errCh p @ [r]\<rparr>"
    have empty: "errCh p = []" "messages p = []" using inv True wait by (auto simp: proc_inv_def)
    with step.Send [OF wait True] have send: "step t r p ?p" by simp
    obtain q where "step t r ?p q" "observe q = Ended (clock p) (result_code r) (result_text r)"
      using final [of ?p] wait empty by auto
    with send show ?thesis by (meson converse_rtranclp_into_rtranclp r_into_rtranclp)
  next
    case False
    then have "errCh p = [r]" "messages p = []" using inv wait by (auto simp: proc_inv_def)
    with final [OF wait] show ?thesis by blast
  qed
qed

lemma can_expire:
  assumes inv: "proc_inv t r p" and wait: "main p = Waiting" and "t \<noteq> 0" and "due_time t \<le> clock p"
  shows "\<exists>q. (step t r)\<^sup>*\<^sup>* p q \<and> observe q = Ended (clock p) 2 (timeout_message t)"
proof -
  let ?p = "p\<lparr>timer_chan := True\<rparr>"
  have "timer p = Some (due_time t)" using inv assms(3) by (simp add: proc_inv_def)
  then have fire: "step t r p ?p \<or> ?p = p"
    using step.Fire [OF wait _ assms(4)] by (cases "timer_chan p") auto
  have "messages p = []" using inv wait by (simp add: proc_inv_def)
  then have "\<exists>q. step t r ?p q \<and> observe q = Ended (clock p) 2 (timeout_message t)"
    using step.Timeout [of ?p t r] wait by (fastforce simp: observe_def exitTimeout_def)
  with fire show ?thesis by (metis converse_rtranclp_into_rtranclp r_into_rtranclp)
qed

lemma spec_simulated:
  assumes "spec_step t r (observe p) s" and inv: "proc_inv t r p"
  shows "\<exists>q. (step t r)\<^sup>*\<^sup>* p q \<and> observe q = s"
proof (cases "main p")
  case Waiting
  then have "observe p = Pending (clock p)" by (simp add: observe_def)
  with assms(1) have "spec_step t r (Pending (clock p)) s" by simp
  then show ?thesis
  proof (cases rule: spec_step.cases)
    case Elapse
    then have "observe (p\<lparr>clock := clock p + 1\<rparr>) = s" by (simp add: observe_def Waiting)
    with step.Tick [OF Waiting, of t r] show ?thesis by (blast intro: r_into_rtranclp)
  next
    case Answer
    with can_answer [OF inv Waiting] show ?thesis by simp
  next
    case Expire
    with can_expire [OF inv Waiting] show ?thesis by simp
  qed
next
  case (Exited c)
  with assms(1) show ?thesis by (simp add: observe_def spec_step_ended)
qed

lemma reachable_spec: "reachable t r p \<Longrightarrow> (spec_step t r)\<^sup>*\<^sup>* (Pending 0) (observe p)"
proof (induction rule: rtranclp_induct)
  case base
  then show ?case by (simp add: observe_def start_def)
next
  case (step p q)
  from step_simulated [OF step(2) reachable_inv [OF step(1)]] step.IH show ?case
    by (auto intro: rtranclp.rtrancl_into_rtrancl)
qed

lemma spec_reachable:
  "(spec_step t r)\<^sup>*\<^sup>* (Pending 0) s \<Longrightarrow> \<exists>p. reachable t r p \<and> observe p = s"
proof (induction rule: rtranclp_induct)
  case base
  show ?case by (rule exI [of _ "start t"]) (simp add: observe_def start_def)
next
  case (step s s')
  then obtain p where p: "reachable t r p" "observe p = s" by blast
  with step(2) spec_simulated [OF _ reachable_inv [OF p(1)]]
  obtain q where "(step t r)\<^sup>*\<^sup>* p q" "observe q = s'" by blast
  with p(1) have "reachable t r q" "observe q = s'" by (auto intro: rtranclp_trans)
  then show ?case by blast
qed

text \<open>The endings, as a set: the exit code and text of the result, or those of a timeout.\<close>

definition endings :: "64 word \<Rightarrow> go_error option \<Rightarrow> (nat \<times> string) set" where
  "endings t r = insert (result_code r, result_text r)
     (if t = 0 then {} else {(2, timeout_message t)})"

lemma spec_waits: "(spec_step t r)\<^sup>*\<^sup>* (Pending 0) (Pending n)"
  by (induction n) (auto intro: rtranclp.rtrancl_into_rtrancl Elapse)

lemma spec_ended:
  assumes "(spec_step t r)\<^sup>*\<^sup>* (Pending 0) s"
  shows "case s of Pending _ \<Rightarrow> True | Ended n c m \<Rightarrow> (c, m) \<in> endings t r"
  using assms
  by (induction rule: rtranclp_induct) (auto simp: endings_def elim: spec_step.cases)

lemma reachable_endings:
  "(\<exists>p. reachable t r p \<and> main p = Exited c \<and> messages p = m) \<longleftrightarrow> (c, m) \<in> endings t r"
proof
  assume "\<exists>p. reachable t r p \<and> main p = Exited c \<and> messages p = m"
  then obtain p where "reachable t r p" "observe p = Ended (clock p) c m"
    by (auto simp: observe_def)
  with spec_ended [OF reachable_spec] show "(c, m) \<in> endings t r" by fastforce
next
  assume "(c, m) \<in> endings t r"
  then have "spec_step t r (Pending (due_time t)) (Ended (due_time t) c m)"
    by (auto simp: endings_def spec_step.intros split: if_splits)
  with spec_waits have "(spec_step t r)\<^sup>*\<^sup>* (Pending 0) (Ended (due_time t) c m)"
    by (rule rtranclp.rtrancl_into_rtrancl)
  from spec_reachable [OF this] obtain p
    where "reachable t r p" "observe p = Ended (due_time t) c m" by blast
  then show "\<exists>p. reachable t r p \<and> main p = Exited c \<and> messages p = m"
    by (cases "main p") (auto simp: observe_def)
qed

section \<open>The length of a run\<close>

text \<open>
  A prompt run: time passes only while no channel is ready and no timer is due. Nothing is
  asked of the worker, which may never send.
\<close>

definition prompt :: "64 word \<Rightarrow> go_error option \<Rightarrow> proc \<Rightarrow> proc \<Rightarrow> bool" where
  "prompt t r p q \<longleftrightarrow> step t r p q \<and>
     (clock q \<noteq> clock p \<longrightarrow> errCh p = [] \<and> \<not> timer_chan p \<and> (\<forall>d. timer p = Some d \<longrightarrow> clock p < d))"

text \<open>What is left to do: ticks until the due time, and at most three other steps.\<close>

definition work :: "64 word \<Rightarrow> proc \<Rightarrow> nat" where
  "work t p = (due_time t - clock p) +
     (case main p of Exited _ \<Rightarrow> 0 | Waiting \<Rightarrow>
       1 + (if worker_running p then 1 else 0) + (if timer_chan p then 0 else 1))"

lemma prompt_works:
  assumes "prompt t r p q" and inv: "proc_inv t r p" and t: "t \<noteq> 0"
  shows "work t q < work t p"
proof -
  have step: "step t r p q" using assms(1) by (simp add: prompt_def)
  then show ?thesis
  proof cases
    case Tick
    then have "clock p < due_time t" using assms(1) inv t by (auto simp: prompt_def proc_inv_def)
    with Tick show ?thesis by (simp add: work_def)
  next
    case (Receive x xs)
    then show ?thesis by (cases x) (auto simp: work_def)
  qed (auto simp: work_def split: if_splits)
qed

lemma prompt_run:
  "(prompt t r ^^ n) (start t) p \<Longrightarrow> t \<noteq> 0 \<Longrightarrow> reachable t r p \<and> n + work t p \<le> due_time t + 3"
proof (induction n arbitrary: p)
  case 0
  then show ?case by (auto simp: work_def start_def)
next
  case (Suc n)
  then obtain p' where p': "(prompt t r ^^ n) (start t) p'" "prompt t r p' p" by auto
  with Suc have IH: "reachable t r p'" "n + work t p' \<le> due_time t + 3" by blast+
  have "reachable t r p" using IH(1) p'(2) by (auto simp: prompt_def intro: rtranclp.rtrancl_into_rtrancl)
  moreover have "work t p < work t p'"
    using prompt_works [OF p'(2) reachable_inv [OF IH(1)] Suc.prems(2)] .
  ultimately show ?case using IH(2) by simp
qed

text \<open>A waiting state always has a prompt step that leaves the worker alone.\<close>

lemma prompt_progress:
  assumes inv: "proc_inv t r p" and wait: "main p = Waiting" and "t \<noteq> 0"
  shows "\<exists>q. prompt t r p q \<and> worker_running q = worker_running p"
proof -
  have due: "timer p = Some (due_time t)" using inv assms(3) by (simp add: proc_inv_def)
  consider x xs where "errCh p = x # xs" | "timer_chan p"
    | "errCh p = []" "\<not> timer_chan p" "due_time t \<le> clock p"
    | "errCh p = []" "\<not> timer_chan p" "clock p < due_time t"
    by (cases "errCh p") (auto, linarith)
  then show ?thesis
  proof cases
    case 1
    with step.Receive [OF wait 1] show ?thesis
      by (intro exI [of _ "received x (p\<lparr>errCh := xs\<rparr>)"]) (cases x; simp add: prompt_def)
  next
    case 2
    with step.Timeout [OF wait 2] show ?thesis by (fastforce simp: prompt_def)
  next
    case 3
    with step.Fire [OF wait due] show ?thesis by (fastforce simp: prompt_def)
  next
    case 4
    with step.Tick [OF wait, of t r] due show ?thesis
      by (intro exI [of _ "p\<lparr>clock := clock p + 1\<rparr>"]) (simp add: prompt_def)
  qed
qed

text \<open>A prompt run in which the worker never sends, from any waiting state.\<close>

abbreviation hung_step :: "64 word \<Rightarrow> go_error option \<Rightarrow> proc \<Rightarrow> proc \<Rightarrow> bool" where
  "hung_step t r a b \<equiv> prompt t r a b \<and> worker_running b"

lemma hung_step_clock:
  assumes "prompt t r p q" and inv: "proc_inv t r p" and "t \<noteq> 0"
  shows "clock q \<le> max (clock p) (due_time t)"
proof (cases "clock q = clock p")
  case False
  then have "clock p < due_time t" using assms by (auto simp: prompt_def proc_inv_def)
  moreover have "clock q = clock p + 1"
    using assms(1) False unfolding prompt_def by (auto elim!: step_elim)
  ultimately show ?thesis by simp
qed simp

lemma hung_run:
  assumes "reachable t r p" and "main p = Waiting" and "worker_running p" and "t \<noteq> 0"
    and "(hung_step t r ^^ n) p q"
  shows "reachable t r q \<and> worker_running q \<and> n + work t q \<le> work t p \<and>
    clock q \<le> max (clock p) (due_time t)"
  using assms(5)
proof (induction n arbitrary: q)
  case 0
  with assms show ?case by simp
next
  case (Suc n)
  then obtain q' where q': "(hung_step t r ^^ n) p q'" "prompt t r q' q" "worker_running q" by auto
  note IH = Suc.IH [OF q'(1)]
  have inv: "proc_inv t r q'" using IH reachable_inv by blast
  have "reachable t r q"
    using IH q'(2) by (auto simp: prompt_def intro: rtranclp.rtrancl_into_rtrancl)
  then show ?case
    using IH q' prompt_works [OF q'(2) inv assms(4)] hung_step_clock [OF q'(2) inv assms(4)] by auto
qed

text \<open>As long as the worker runs, only the timeout can have ended the process.\<close>

lemma running_exit:
  assumes "reachable t r p" and "worker_running p" and "main p = Exited c"
  shows "c = 2 \<and> messages p = timeout_message t"
  using assms
proof (induction arbitrary: c rule: rtranclp_induct)
  case base
  then show ?case by (simp add: start_def)
next
  case (step p q)
  note inv = reachable_inv [OF step(1)]
  from step(2) show ?case
  proof cases
    case (Receive x xs)
    then show ?thesis using inv step.prems by (cases x) (auto simp: proc_inv_def)
  next
    case Timeout
    then show ?thesis using inv step.prems by (auto simp: proc_inv_def exitTimeout_def)
  qed (use step.prems in simp_all)
qed

lemma hung_end:
  assumes "reachable t r q" and "worker_running q" and "t \<noteq> 0"
  shows "(\<exists>q'. hung_step t r q q') \<or> main q = Exited 2 \<and> messages q = timeout_message t"
proof (cases "main q")
  case Waiting
  then show ?thesis
    using prompt_progress [OF reachable_inv [OF assms(1)] Waiting assms(3)] assms(2) by auto
next
  case (Exited c)
  then show ?thesis using running_exit [OF assms(1,2)] by simp
qed

section \<open>Properties\<close>

text \<open>
  C19. \<open>runWithTimeout\<close> refines its abstract machine, which has no threads, channels or timer:
  time passes, and at any moment the result of the mode may end the process, or, when a
  timeout is set and due, the timeout. The observable states (time, exit code and the text on
  standard error) that the program reaches are exactly those of the machine.
\<close>

theorem runWithTimeout_refines:
  "(\<exists>p. reachable t r p \<and> observe p = s) \<longleftrightarrow> (spec_step t r)\<^sup>*\<^sup>* (Pending 0) s"
  using reachable_spec spec_reachable by blast

text \<open>
  C20. With a timeout set, \<open>runWithTimeout\<close> terminates even when the device never answers: a
  run in which a due timer and a ready channel are served before time passes has at most
  \<open>due_time + 3\<close> steps, and it only stops when the process has exited, because a waiting
  state always has such a step that asks nothing of the worker.
\<close>

theorem runWithTimeout_terminates:
  assumes "t \<noteq> 0" and "(prompt t r ^^ n) (start t) p"
  shows "n \<le> due_time t + 3 \<and>
    (main p = Waiting \<longrightarrow> (\<exists>q. prompt t r p q \<and> worker_running q = worker_running p))"
  using prompt_run [OF assms(2,1)] prompt_progress [OF reachable_inv _ assms(1)] by auto

theorem runWithTimeout_terminates_witness:
  "(5 :: 64 word) \<noteq> 0 \<and> (prompt 5 None ^^ 0) (start 5) (start 5) \<and>
   (\<exists>q. prompt 5 None (start 5) q \<and> worker_running q)"
  using runWithTimeout_terminates [where t = 5 and r = None and n = 0 and p = "start 5"] by (simp add: start_def)

text \<open>
  C21. A device that never answers cannot hold the process. Take any state in which the main
  goroutine waits, the mode has not returned and a timeout is set: a prompt run from there in
  which the mode never returns has at most three steps more than there are ticks to the due
  time, its clock does not pass the due time (or does not move when that is over already),
  and where it cannot go on the process has exited with code 2 and the message of the timeout.
\<close>

theorem hung_worker_exits_2:
  assumes "reachable t r p" and "main p = Waiting" and "worker_running p" and "t \<noteq> 0"
    and "((\<lambda>a b. prompt t r a b \<and> worker_running b) ^^ n) p q"
  shows "n \<le> due_time t - clock p + 3 \<and> clock q \<le> max (clock p) (due_time t) \<and>
    ((\<exists>q'. prompt t r q q' \<and> worker_running q') \<or>
     main q = Exited 2 \<and> messages q = timeout_message t)"
proof -
  note run = hung_run [OF assms]
  have "work t p \<le> due_time t - clock p + 3" by (simp add: work_def split: main_state.splits)
  with run hung_end [of t r q] assms(4) show ?thesis by auto
qed

theorem hung_worker_exits_2_witness:
  "\<exists>q'. prompt 5 None (start 5) q' \<and> worker_running q'"
  using hung_worker_exits_2 [of 5 None "start 5" 0 "start 5"] by (simp add: start_def)

end
