(* ===== verification/Cmd_Entry.thy ===== *)
theory Cmd_Entry
  imports Go_Flag Linux_Drive Device_Windows Timeout_Spec
begin

text \<open>
  \<open>main\<close> of \<open>cmd/gosmart/main.go\<close> from the command line to the exit code: the flags, the
  \<open>switch\<close>, and \<open>runWithTimeout\<close> around the mode. The result of the mode on the world \<open>w\<close>
  is what the worker goroutine sends; when it arrives is left open by the step relation.
\<close>

section \<open>The program\<close>

text \<open>
  Either the process ends before a mode is started, with an exit code and a text on standard
  error, or a mode is run under a timeout. \<open>flag.Parse\<close> prints the error (\<open>msg\<close>) and calls
  \<open>flag.Usage\<close>, and with \<open>ExitOnError\<close> ends with code 2, or 0 when help was asked for.
\<close>

datatype startup = Stopped nat string | Started "unit call" "64 word"

definition gosmart ::
    "platform \<Rightarrow> string \<Rightarrow> (flag_error \<Rightarrow> string) \<Rightarrow> string list \<Rightarrow> startup" where
  "gosmart P version msg args =
     (case parse_flags initial_flags args of
        Inl e \<Rightarrow>
          if e = Help then Stopped 0 usage_text
          else Stopped 2 (msg e @ nl @ usage_text)
      | Inr (fl, rest) \<Rightarrow>
          (case mode_of P version (dispatch (fl_list fl) rest) of
             None \<Rightarrow> Stopped 1 usage_text
           | Some fn \<Rightarrow> Started fn (fl_timeoutSec fl)))"

fun result_error :: "go_error + unit \<Rightarrow> go_error option" where
  "result_error (Inl e) = Some e"
| "result_error (Inr u) = None"

text \<open>
  \<open>exits P version msg args w c m\<close>: started with the arguments \<open>args\<close> in the world \<open>w\<close>, the
  process can end with exit code \<open>c\<close> and the message \<open>m\<close> (the warnings of a mode apart). The
  Go runtime ends a panicking program with code 2 and a trace.
\<close>

inductive exits ::
    "platform \<Rightarrow> string \<Rightarrow> (flag_error \<Rightarrow> string) \<Rightarrow> string list \<Rightarrow> world \<Rightarrow> nat \<Rightarrow> string \<Rightarrow> bool"
  for P version msg args w where
  AtOnce: "gosmart P version msg args = Stopped c m \<Longrightarrow> exits P version msg args w c m"
| Timed: "gosmart P version msg args = Started fn t \<Longrightarrow> fst (run_state fn w) = Some r \<Longrightarrow>
    reachable t (result_error r) p \<Longrightarrow> main p = Exited c \<Longrightarrow>
    exits P version msg args w c (messages p)"
| Panicked: "gosmart P version msg args = Started fn t \<Longrightarrow> fst (run_state fn w) = None \<Longrightarrow>
    exits P version msg args w 2 trace"

section \<open>How it ends\<close>

lemma exits_stopped:
  "gosmart P version msg args = Stopped c' m' \<Longrightarrow>
     exits P version msg args w c m \<longleftrightarrow> c = c' \<and> m = m'"
  by (auto elim: exits.cases intro: exits.AtOnce)

lemma exits_started:
  assumes "gosmart P version msg args = Started fn t" and "fst (run_state fn w) = Some r"
  shows "exits P version msg args w c m \<longleftrightarrow> (c, m) \<in> endings t (result_error r)"
  using assms reachable_endings [of t "result_error r" c m]
  by (auto elim!: exits.cases intro: exits.Timed)

lemma started_mode:
  "gosmart P version msg args = Started fn t \<longleftrightarrow>
     (\<exists>fl rest. parse_flags initial_flags args = Inr (fl, rest) \<and>
       mode_of P version (dispatch (fl_list fl) rest) = Some fn \<and> t = fl_timeoutSec fl)"
  by (auto simp: gosmart_def split: sum.splits option.splits)

context device_platform
begin

lemma mode_of_ok: "mode_of P version cmd = Some fn \<Longrightarrow> mode_ok fn"
  by (cases cmd) (auto simp: run_ok runList_ok runGet_ok)

text \<open>A started mode returns: the process ends with its result, or with the timeout.\<close>

lemma exits_iff:
  assumes "gosmart P version msg args = Started fn t"
  shows "\<exists>r. fst (run_state fn w) = Some r \<and>
    (\<forall>c m. exits P version msg args w c m \<longleftrightarrow> (c, m) \<in> endings t (result_error r))"
proof -
  have "mode_ok fn" using assms mode_of_ok by (auto simp: started_mode)
  then obtain r where "fst (run_state fn w) = Some r" using mode_okD(1) by fastforce
  with exits_started [OF assms] show ?thesis by blast
qed

end

text \<open>The two builds.\<close>

datatype build = Linux linux_os | Windows windows_os

fun platform_of :: "build \<Rightarrow> platform" where
  "platform_of (Linux os) = linux_platform os"
| "platform_of (Windows win) = windows_platform win"

interpretation builds: device_platform "platform_of b" for b
  by (cases b) (simp_all add: linux.device_platform_axioms windows.device_platform_axioms)

section \<open>Properties\<close>

text \<open>
  C11. The command line: options, in any order and spelling, before a device path; after the
  path nothing is an option any more, not even an argument with a dash. One further argument
  is a field to get (and an error with \<open>-l\<close>), more than one ends in the usage text. The last
  \<open>-l\<close> and the last timeout count; the default timeout is 5 seconds.
\<close>

theorem command_line_modes:
  assumes "positional path" and "fl = fold option_effect os \<lparr>fl_list = False, fl_timeoutSec = 5\<rparr>"
  shows "gosmart P version msg (concat (map option_args os) @ path # rest) =
    (case rest of
       [] \<Rightarrow> Started (if fl_list fl then runList P path else run P (''gosmart '' @ version) path)
         (fl_timeoutSec fl)
     | [field] \<Rightarrow> if fl_list fl then Stopped 1 usage_text
         else Started (runGet P path field) (fl_timeoutSec fl)
     | _ \<Rightarrow> Stopped 1 usage_text)"
proof -
  have "parse_flags initial_flags (concat (map option_args os) @ path # rest) = Inr (fl, path # rest)"
    using assms by (simp add: parse_flags_options parse_flags_stop initial_flags_def)
  then show ?thesis by (simp add: gosmart_def dispatch_def split: list.split)
qed

theorem command_line_modes_witness:
  "\<forall>P. gosmart P ''dev'' (\<lambda>_. []) [''-timeout=30'', ''/dev/sda'', ''-l''] = Started (runGet P ''/dev/sda'' ''-l'') 30"
proof -
  have "fmt_int (sint (30 :: 64 word)) = map digit_char [3, 0]"
    by (simp add: fmt_int_def fmt_d_snoc fmt_d_one)
  moreover have "map digit_char [3, 0] = ''30''" by code_simp
  ultimately have "gosmart P ''dev'' (\<lambda>_. []) [''-timeout=30'', ''/dev/sda'', ''-l''] =
      Started (runGet P ''/dev/sda'' ''-l'') 30" for P
    using command_line_modes [where path = "''/dev/sda''" and os = "[TimeoutEquals False True 30]"
        and P = P and version = "''dev''" and msg = "\<lambda>_. []" and rest = "[''-l'']", OF _ refl]
    by (simp add: positional_def dashes_def timeout_name_def)
  then show ?thesis by blast
qed

text \<open>
  C12. The argument of \<open>-t\<close>: every decimal number of 64 bits, signed, is the timeout it says,
  and every other one is a range error, which ends the program with code 2 before anything
  is opened.
\<close>

theorem timeout_argument:
  assumes "positional path"
  shows "gosmart P version msg [''-t'', fmt_int z, path] =
    (if - (2 ^ 63) \<le> z \<and> z < 2 ^ 63 then Started (run P (''gosmart '' @ version) path) (of_int z)
     else Stopped 2 (msg (InvalidInt (fmt_int z) ''t'' ErrRange) @ nl @ usage_text))"
proof -
  have one: "parse_one fl [''-t'', fmt_int z, path] = set_int ''t'' (fmt_int z) fl [path]" for fl
    by (simp add: parse_one_def split_value_def parse_flag_def flag_formal_def)
  have int: "ParseInt (fmt_int z) = (if - (2 ^ 63) \<le> z \<and> z < 2 ^ 63 then Inr (of_int z) else Inl ErrRange)"
    by (rule ParseInt_int)
  show ?thesis
    unfolding gosmart_def
    by (subst parse_flags.simps)
      (simp add: one set_int_def int parse_flags_stop assms dispatch_def initial_flags_def)
qed

theorem timeout_argument_witness:
  "\<forall>P. gosmart P ''dev'' (\<lambda>_. ''bad'') [''-t'', fmt_int (2 ^ 63), ''/dev/sda''] =
     Stopped 2 (''bad'' @ nl @ usage_text) \<and>
   gosmart P ''dev'' (\<lambda>_. ''bad'') [''-t'', fmt_int (- 5), ''/dev/sda''] =
     Started (run P ''gosmart dev'' ''/dev/sda'') (- 5)"
  using timeout_argument [of "''/dev/sda''" _ "''dev''" "\<lambda>_. ''bad''" "2 ^ 63"]
    timeout_argument [of "''/dev/sda''" _ "''dev''" "\<lambda>_. ''bad''" "- 5"]
  by (simp add: positional_def)

text \<open>
  C8. How the program can end, exactly, for both builds and every operating system. The
  result of the mode is printed when it is an error and decides between the codes 0 and 1;
  no mode panics. Code 2 is the timeout, if one is set; but an error in the flags ends with
  code 2 as well, and arguments that are no mode with code 1.
\<close>

theorem exit_codes:
  "exits (platform_of b) version msg args w c m \<longleftrightarrow>
     (case parse_flags initial_flags args of
        Inl e \<Rightarrow> (c, m) = (if e = Help then (0, usage_text) else (2, msg e @ nl @ usage_text))
      | Inr (fl, rest) \<Rightarrow>
          (case mode_of (platform_of b) version (dispatch (fl_list fl) rest) of
             None \<Rightarrow> (c, m) = (1, usage_text)
           | Some fn \<Rightarrow>
               (case fst (run_state fn w) of
                  None \<Rightarrow> False
                | Some r \<Rightarrow> (c, m) = (case r of Inr _ \<Rightarrow> (0, []) | Inl e \<Rightarrow> (1, error_line e)) \<or>
                    fl_timeoutSec fl \<noteq> 0 \<and> (c, m) = (2, timeout_message (fl_timeoutSec fl)))))"
proof (cases "gosmart (platform_of b) version msg args")
  case (Stopped c' m')
  then show ?thesis
    by (cases "parse_flags initial_flags args")
      (auto simp: exits_stopped gosmart_def split: option.splits if_splits)
next
  case (Started fn t)
  from builds.exits_iff [OF this, of w] obtain r where r: "fst (run_state fn w) = Some r"
    and iff: "exits (platform_of b) version msg args w c m \<longleftrightarrow> (c, m) \<in> endings t (result_error r)"
    by blast
  have "(c, m) \<in> endings t (result_error r) \<longleftrightarrow>
      (c, m) = (case r of Inr _ \<Rightarrow> (0, []) | Inl e \<Rightarrow> (1, error_line e)) \<or>
      t \<noteq> 0 \<and> (c, m) = (2, timeout_message t)"
    by (cases r) (auto simp: endings_def result_code_def result_text_def)
  with Started r iff show ?thesis by (auto simp: started_mode)
qed

text \<open>
  C10. The whole way of a query on an ATA drive, from the command line to the exit code: the
  program ends with code 0 when the field is an attribute in use, with code 1 and ``field
  not found'' when it is not, and otherwise only with the timeout.
\<close>

theorem query_ata:
  assumes "attached_ata (platform_of b) path dev i sv" and "positional path"
    and "fl = fold option_effect os \<lparr>fl_list = False, fl_timeoutSec = 5\<rparr>" and "\<not> fl_list fl"
  shows "exits (platform_of b) version msg (concat (map option_args os) @ [path, field]) w c m \<longleftrightarrow>
    (c, m) = (if field \<in> set (AttrNames sv (id_RPM i)) then (0, [])
      else (1, ''gosmart: field not found: '' @ field @ nl)) \<or>
    fl_timeoutSec fl \<noteq> 0 \<and> (c, m) = (2, timeout_message (fl_timeoutSec fl))"
proof -
  have parse: "parse_flags initial_flags (concat (map option_args os) @ [path, field]) =
      Inr (fl, [path, field])"
    using assms(2,3) by (simp add: parse_flags_options parse_flags_stop initial_flags_def)
  have "AttrByName sv field (id_RPM i) = None \<longleftrightarrow> field \<notin> set (AttrNames sv (id_RPM i))"
    using ata.lookup_iff [of "(sv, id_RPM i)" field] by (auto simp: ata_lookup_def ata_names_def)
  then have "fst (run_state (runGet (platform_of b) path field) w) =
      Some (if field \<in> set (AttrNames sv (id_RPM i)) then Inr () else Inl (FieldNotFound field))"
    using runGet_ata [OF assms(1), of field] by (simp add: yields_def)
  then obtain r where r: "fst (run_state (runGet (platform_of b) path field) w) = Some r"
    "r = (if field \<in> set (AttrNames sv (id_RPM i)) then Inr () else Inl (FieldNotFound field))"
    by blast
  have "gosmart (platform_of b) version msg (concat (map option_args os) @ [path, field]) =
      Started (runGet (platform_of b) path field) (fl_timeoutSec fl)"
    using assms(4) by (simp add: gosmart_def parse dispatch_def)
  from exits_started [OF this r(1)] r(2) show ?thesis
    by (auto simp: endings_def result_code_def result_text_def error_line_def)
qed

theorem query_ata_witness:
  "\<forall>c m. exits (platform_of (Linux (sample_os (sample_drive (0x4f, 0xc2))))) ''dev'' (\<lambda>_. [])
       [''-t'', ''0'', ''/dev/sda'', ''Power_On_Hours''] \<lparr>events = [], stdout = [], stderr = []\<rparr> c m \<longleftrightarrow>
     c = 0 \<and> m = []"
proof -
  obtain i sv where dev: "attached_ata (platform_of (Linux (sample_os (sample_drive (0x4f, 0xc2))))) ''/dev/sda''
      (linux_ata_device (sample_os (sample_drive (0x4f, 0xc2))) ''/dev/sda'' 3) i sv"
    and sv: "ParseSmartValues sample_response = Some (Inr sv)" using sample_attached [of "(0x4f, 0xc2)"] by auto
  have "digit_char 0 = CHR ''0''" by code_simp
  then have zero: "fmt_int 0 = ''0''" by (simp add: fmt_int_def fmt_d_one)
  show ?thesis
    using query_ata [OF dev, of _ "[TimeoutNext False False 0]" _ _ "''Power_On_Hours''", OF _ refl]
      sample_power_on_hours(2) [OF sv]
    by (simp add: positional_def dashes_def timeout_name_def zero)
qed

end
