(* ===== verification/Cmd_Output.thy ===== *)
theory Cmd_Output
  imports Cmd_Entry "HOL-Library.Sublist"
begin

text \<open>
  What is on standard output when the process ends. The worker of \<open>runWithTimeout\<close> writes the
  text of its mode piece by piece, and the exit of the main goroutine cuts it off. A state is
  a state of \<open>Cmd_Timeout\<close> with the number of bytes written so far; the worker sends its
  result after the last of them.
\<close>

section \<open>The writing worker\<close>

inductive wstep :: "64 word \<Rightarrow> go_error option \<Rightarrow> nat \<Rightarrow> proc \<times> nat \<Rightarrow> proc \<times> nat \<Rightarrow> bool"
  for t r len where
  Write: "main p = Waiting \<Longrightarrow> worker_running p \<Longrightarrow> k < len \<Longrightarrow> wstep t r len (p, k) (p, Suc k)"
| Other: "step t r p q \<Longrightarrow> worker_running q \<or> k = len \<or> \<not> worker_running p \<Longrightarrow>
    wstep t r len (p, k) (q, k)"

abbreviation wreach :: "64 word \<Rightarrow> go_error option \<Rightarrow> nat \<Rightarrow> proc \<times> nat \<Rightarrow> proc \<times> nat \<Rightarrow> bool" where
  "wreach t r len \<equiv> (wstep t r len)\<^sup>*\<^sup>*"

text \<open>A worker that has stopped has written everything; a result only comes from such a worker.\<close>

definition written_inv :: "64 word \<Rightarrow> go_error option \<Rightarrow> nat \<Rightarrow> proc \<times> nat \<Rightarrow> bool" where
  "written_inv t r len s \<longleftrightarrow> (case s of (p, k) \<Rightarrow>
     reachable t r p \<and> k \<le> len \<and> (\<not> worker_running p \<longrightarrow> k = len) \<and>
     (\<forall>c. main p = Exited c \<longrightarrow> c = exitTimeout \<or> \<not> worker_running p))"

lemma step_worker: "step t r p q \<Longrightarrow> worker_running q \<Longrightarrow> worker_running p"
proof (induction rule: step.induct)
  case (Receive p x xs)
  then show ?case by (cases x) simp_all
qed simp_all

lemma received_stopped:
  assumes "step t r p q" and "proc_inv t r p" and "main q = Exited c"
  shows "c = exitTimeout \<or> \<not> worker_running q"
  using assms
proof (induction rule: step.induct)
  case (Receive p x xs)
  then show ?case by (cases x) (auto simp: proc_inv_def)
qed auto

lemma written_inv_step:
  assumes "wstep t r len s s'" and "written_inv t r len s"
  shows "written_inv t r len s'"
  using assms
proof (induction rule: wstep.induct)
  case (Other p q k)
  then have "reachable t r p" "reachable t r q"
    by (auto simp: written_inv_def intro: rtranclp.rtrancl_into_rtrancl)
  with Other received_stopped [OF Other(1) reachable_inv] show ?case
    by (auto simp: written_inv_def)
qed (auto simp: written_inv_def)

lemma written: "wreach t r len (start t, 0) s \<Longrightarrow> written_inv t r len s"
proof (induction rule: rtranclp_induct)
  case base
  then show ?case by (simp add: written_inv_def start_def)
qed (rule written_inv_step)

section \<open>Runs of the writing worker\<close>

lemma writes:
  "main p = Waiting \<Longrightarrow> worker_running p \<Longrightarrow> n \<le> len \<Longrightarrow> wreach t r len (p, 0) (p, n)"
proof (induction n)
  case (Suc n)
  then have "wreach t r len (p, 0) (p, n)" "wstep t r len (p, n) (p, Suc n)"
    by (auto intro: wstep.Write)
  then show ?case by (rule rtranclp.rtrancl_into_rtrancl)
qed simp

text \<open>A run of the plain relation, with the output kept: before the worker stops, or after it wrote all.\<close>

lemma lift_run:
  assumes "(step t r)\<^sup>*\<^sup>* p q" and "worker_running q \<or> k = len"
  shows "wreach t r len (p, k) (q, k)"
  using assms
proof (induction rule: rtranclp_induct)
  case (step q q')
  then have "worker_running q \<or> k = len" using step_worker by blast
  with step have "wreach t r len (p, k) (q, k)" "wstep t r len (q, k) (q', k)"
    by (auto intro: wstep.Other)
  then show ?case by (rule rtranclp.rtrancl_into_rtrancl)
qed simp

lemma result_written:
  "\<exists>p. wreach t r len (start t, 0) (p, len) \<and> main p = Exited (result_code r)"
proof -
  have s: "main (start t) = Waiting" "worker_running (start t)" by (simp_all add: start_def)
  obtain q where "(step t r)\<^sup>*\<^sup>* (start t) q"
    "observe q = Ended (clock (start t)) (result_code r) (result_text r)"
    using can_answer [OF proc_inv_start s(1), where r = r] by blast
  moreover from this have "main q = Exited (result_code r)"
    by (cases "main q") (simp_all add: observe_def)
  ultimately show ?thesis
    using writes [OF s order_refl, of t r len] lift_run [of t r "start t" q len len]
    by (meson rtranclp_trans)
qed

lemma timeout_written:
  assumes "t \<noteq> 0" and "n \<le> len"
  shows "\<exists>p. wreach t r len (start t, 0) (p, n) \<and> main p = Exited exitTimeout"
proof -
  have s: "main (start t) = Waiting" "worker_running (start t)" by (simp_all add: start_def)
  obtain m q where "(step t r ^^ m) (start t) q" "main q = Exited exitTimeout" "worker_running q"
    using timeout_reachable [OF proc_inv_start s(1) assms(1), of r] s(2) by auto
  then show ?thesis
    using writes [OF s assms(2), of t r] lift_run [of t r "start t" q n len]
    by (meson relpowp_imp_rtranclp rtranclp_trans)
qed

text \<open>The exit codes and outputs that are possible, for a text of \<open>len\<close> bytes.\<close>

lemma exits_written:
  "(\<exists>p. wreach t r len (start t, 0) (p, k) \<and> main p = Exited c) \<longleftrightarrow>
     c = result_code r \<and> k = len \<or> t \<noteq> 0 \<and> c = exitTimeout \<and> k \<le> len" (is "?l \<longleftrightarrow> ?r")
proof
  assume ?l
  then obtain p where p: "wreach t r len (start t, 0) (p, k)" "main p = Exited c" by blast
  then have inv: "written_inv t r len (p, k)" by (blast intro: written)
  then have "reachable t r p" by (simp add: written_inv_def)
  then have "exit_ok t r p c" using reachable_inv p(2) by (fastforce simp: proc_inv_def)
  with inv p(2) show ?r
    by (auto simp: written_inv_def exit_ok_def result_code_def exitTimeout_def split: option.splits)
next
  assume ?r
  then show ?l using result_written [of t r len] timeout_written [of t k len r] by blast
qed

section \<open>The program\<close>

text \<open>What a mode appends to standard output when it is left alone.\<close>

definition mode_text :: "unit call \<Rightarrow> world \<Rightarrow> string" where
  "mode_text fn w = drop (length (stdout w)) (stdout (snd (run_state fn w)))"

text \<open>
  \<open>leaves P version msg args w c out\<close>: the process can end with exit code \<open>c\<close> and with \<open>out\<close>
  added to standard output. Before a mode is started nothing is written there.
\<close>

inductive leaves ::
    "platform \<Rightarrow> string \<Rightarrow> (flag_error \<Rightarrow> string) \<Rightarrow> string list \<Rightarrow> world \<Rightarrow> nat \<Rightarrow> string \<Rightarrow> bool"
  for P version msg args w where
  AtOnce: "gosmart P version msg args = Stopped c m \<Longrightarrow> leaves P version msg args w c []"
| Timed: "gosmart P version msg args = Started fn t \<Longrightarrow> fst (run_state fn w) = Some r \<Longrightarrow>
    wreach t (result_error r) (length (mode_text fn w)) (start t, 0) (p, k) \<Longrightarrow> main p = Exited c \<Longrightarrow>
    leaves P version msg args w c (take k (mode_text fn w))"
| Panicked: "gosmart P version msg args = Started fn t \<Longrightarrow> fst (run_state fn w) = None \<Longrightarrow>
    leaves P version msg args w 2 (take k (mode_text fn w))"

lemma leaves_stopped:
  "gosmart P version msg args = Stopped c' m' \<Longrightarrow>
     leaves P version msg args w c out \<longleftrightarrow> c = c' \<and> out = []"
  by (auto elim: leaves.cases intro: leaves.AtOnce)

lemma prefix_take: "prefix out txt \<longleftrightarrow> (\<exists>k \<le> length txt. out = take k txt)"
  by (metis append_eq_conv_conj prefix_def prefix_length_le take_is_prefix)

lemma leaves_started:
  assumes "gosmart P version msg args = Started fn t" and "fst (run_state fn w) = Some r"
  shows "leaves P version msg args w c out \<longleftrightarrow>
    c = result_code (result_error r) \<and> out = mode_text fn w \<or>
    t \<noteq> 0 \<and> c = exitTimeout \<and> prefix out (mode_text fn w)" (is "?l \<longleftrightarrow> ?r")
proof -
  have "?l \<longleftrightarrow> (\<exists>k. out = take k (mode_text fn w) \<and>
      (\<exists>p. wreach t (result_error r) (length (mode_text fn w)) (start t, 0) (p, k) \<and> main p = Exited c))"
  proof
    assume ?l
    then show "\<exists>k. out = take k (mode_text fn w) \<and>
      (\<exists>p. wreach t (result_error r) (length (mode_text fn w)) (start t, 0) (p, k) \<and> main p = Exited c)"
    proof cases
      case (Timed fn' t' r' p k)
      with assms have "fn' = fn" "t' = t" "r' = r" by simp_all
      with Timed show ?thesis by blast
    qed (use assms in simp_all)
  qed (use leaves.Timed [OF assms] in blast)
  also have "\<dots> \<longleftrightarrow> ?r"
    unfolding exits_written prefix_take
    by (auto intro: exI [of _ "length (mode_text fn w)"])
  finally show ?thesis .
qed

lemma mode_text_error:
  "mode_ok fn \<Longrightarrow> fst (run_state fn w) = Some (Inl e) \<Longrightarrow> mode_text fn w = []"
  using mode_okD(3) [of fn w] by (simp add: mode_text_def)

section \<open>Properties\<close>

text \<open>
  C9. Exit code and standard output belong together, exactly, on both builds: with code 0 the
  output of the mode is complete, with code 1 there is none, and only with code 2, which needs
  a timeout that is not 0, can it be cut off, at any point.
\<close>

theorem output_by_exit_code:
  "leaves (platform_of b) version msg args w c out \<longleftrightarrow>
     (case gosmart (platform_of b) version msg args of
        Stopped c' m \<Rightarrow> c = c' \<and> out = []
      | Started fn t \<Rightarrow>
          (case fst (run_state fn w) of
             None \<Rightarrow> False
           | Some r \<Rightarrow> (c, out) = (case r of Inr _ \<Rightarrow> (0, mode_text fn w) | Inl e \<Rightarrow> (1, [])) \<or>
               t \<noteq> 0 \<and> c = 2 \<and> prefix out (mode_text fn w)))"
proof (cases "gosmart (platform_of b) version msg args")
  case (Stopped c' m)
  then show ?thesis by (simp add: leaves_stopped)
next
  case (Started fn t)
  then have ok: "mode_ok fn" using builds.mode_of_ok by (auto simp: started_mode)
  then obtain r where r: "fst (run_state fn w) = Some r" using mode_okD(1) by fastforce
  show ?thesis
    using Started r mode_text_error [OF ok] leaves_started [OF Started r]
    by (cases r) (auto simp: result_code_def exitTimeout_def)
qed

end
