(* ===== verification/Builds.thy ===== *)
theory Builds
  imports Device_Linux Device_Windows
begin

text \<open>
  The Linux and the Windows build side by side: the two implementations of \<open>ATADevice\<close> ask
  the drive the same questions and read its SMART verdict the same way, except that the
  Linux build leaves the cylinder registers of SMART RETURN STATUS zero.
\<close>

section \<open>Task files\<close>

text \<open>The events a call adds, and the ATA registers (command, feature, LBA low, count) in them.\<close>

definition issued :: "(world, 'a) state \<Rightarrow> world \<Rightarrow> event list" where
  "issued m w = drop (length (events w)) (events (snd (run_state m w)))"

fun linux_taskfile :: "event \<Rightarrow> (u8 \<times> u8 \<times> u8 \<times> u8) option" where
  "linux_taskfile (Command h code (c # l # f # s # data)) =
     (if code = hdioDriveCmd then Some (c, f, l, s) else None)"
| "linux_taskfile _ = None"

fun windows_taskfile :: "event \<Rightarrow> (u8 \<times> u8 \<times> u8 \<times> u8) option" where
  "windows_taskfile (Command h code b) =
     (if code = ioctlSmartRcvDriveData \<and> 10 < length b then Some (b ! 10, b ! 4, b ! 6, b ! 5)
      else None)"
| "windows_taskfile _ = None"

lemma issued_hdioCmdRead:
  "issued (hdioCmdRead os fd c l f s) w =
     [Command fd hdioDriveCmd ([c, l, f, s] @ replicate 512 0)]"
  by (simp add: issued_def run_hdioCmdRead)

lemma issued_rcvDriveData:
  "issued (rcvDriveData win h cmd f sn cl ch sc) w =
     [Command h ioctlSmartRcvDriveData
       (le_bytes 4 (512::u32) @ [f, sc, sn, cl, ch, 0xa0, cmd] @ replicate 21 0)]"
  by (simp add: issued_def rcvDriveData_def run_and_then rcv_request_eq run_attempt
      DeviceIoControl_def le_bytes_4 make_bytes_def sendCmdOutHdr_def split: sum.splits prod.splits)

section \<open>The type of a reply\<close>

text \<open>A reply of the interface: an error, or data of the promised length; never a panic.\<close>

definition typed_reply :: "nat \<Rightarrow> (go_error + bytes) go \<Rightarrow> bool" where
  "typed_reply n r =
     (case r of None \<Rightarrow> False | Some (Inl e) \<Rightarrow> True | Some (Inr b) \<Rightarrow> length b = n)"

lemma call_ok_typed: "call_ok (\<lambda>b. length b = n) m \<Longrightarrow> typed_reply n (fst (run_state m w))"
  using ensuresD [OF _ surjective_pairing [of "run_state m w"], of "\<lambda>w r w'. same_io w w' \<and>
      same_handles w w' \<and> ((\<exists>e. r = Some (Inl e)) \<or> (\<exists>b. r = Some (Inr b) \<and> length b = n))"]
  by (auto simp: call_ok_def typed_reply_def)

lemma linux_log_page_0: "fst (run_state (linux_GetLogPage os fd l 0) w) = None"
  by (simp add: linux_GetLogPage_def run_attempt nvmeAdmin_def make_bytes_def)

section \<open>Properties\<close>

text \<open>
  C33. The methods of both builds keep to the types of \<open>device.go\<close>: for every system, driver
  and reply, the ATA methods return an error or exactly 512 bytes, \<open>IdentifyController\<close> 4096
  and \<open>GetLogPage\<close> the size asked for; none panics, except that the Linux \<open>GetLogPage\<close>
  panics exactly for size 0.
\<close>

theorem replies_have_promised_size:
  "list_all (\<lambda>m. typed_reply 512 (fst (run_state m w)))
     [linux_Identify os fd, linux_SmartReadData os fd, linux_SmartReadThresholds os fd,
      linux_SmartReadLog os fd a, windows_Identify win h, windows_SmartReadData win h,
      windows_SmartReadThresholds win h, windows_SmartReadLog win h a] \<and>
   list_all (\<lambda>m. typed_reply 4096 (fst (run_state m w)))
     [linux_IdentifyController os fd, windows_IdentifyController win h] \<and>
   typed_reply (unat n) (fst (run_state (windows_GetLogPage win h l n) w)) \<and>
   (if n = 0 then fst (run_state (linux_GetLogPage os fd l n) w) = None
    else typed_reply (unat n) (fst (run_state (linux_GetLogPage os fd l n) w)))"
proof -
  have "call_ok (\<lambda>b. length b = unat n) (windows_GetLogPage win h l n)"
    by (simp add: windows_GetLogPage_def call_ok_attempt_wrap nvmeQuery_ok)
  then show ?thesis
    using linux_ata_device_ok [of fd os "[]"] windows_ata_device_ok [of h win "[]"]
      linux_nvme_device_ok [of fd os "[]"] windows_nvme_device_ok [of h win "[]"]
    by (simp add: ata_device_ok_def nvme_device_ok_def linux_ata_device_def windows_ata_device_def
        linux_nvme_device_def windows_nvme_device_def call_ok_typed linux_log_page_0)
qed

text \<open>
  C34. Each read method issues one command to the drive, and the two builds issue the same
  one: same command, feature, LBA-low and sector-count registers, for every drive and driver.
\<close>

theorem builds_issue_same_commands:
  "map (\<lambda>m. map linux_taskfile (issued m w))
     [linux_Identify os fd, linux_SmartReadData os fd, linux_SmartReadThresholds os fd,
      linux_SmartReadLog os fd a] =
   map (\<lambda>m. map windows_taskfile (issued m w))
     [windows_Identify win h, windows_SmartReadData win h, windows_SmartReadThresholds win h,
      windows_SmartReadLog win h a] \<and>
   map (\<lambda>m. map linux_taskfile (issued m w))
     [linux_Identify os fd, linux_SmartReadData os fd, linux_SmartReadThresholds os fd,
      linux_SmartReadLog os fd a] =
   [[Some (0xec, 0, 0, 1)], [Some (0xb0, 0xd0, 0, 1)], [Some (0xb0, 0xd1, 1, 1)],
    [Some (0xb0, 0xd5, a, 1)]]"
  by (simp add: linux_Identify_def linux_SmartReadData_def linux_SmartReadThresholds_def
      linux_SmartReadLog_def windows_Identify_def windows_SmartReadData_def
      windows_SmartReadThresholds_def windows_SmartReadLog_def issued_hdioCmdRead
      issued_rcvDriveData le_bytes_4 ataIdentifyDevice_def ataSmartCmd_def
      ataSmartReadValues_def ataSmartReadThresholds_def ataSmartReadLog_def
      ataIdentifyDeviceW_def ataSmartCmdW_def ataSmartReadValuesW_def
      ataSmartReadThresholdsW_def ataSmartReadLogW_def)

text \<open>
  The builds read the SMART verdict alike: a drive is failing exactly for the cylinder
  registers F4h/2Ch, a flag of failure never comes with an error, and there is an error
  exactly when the registers are neither F4h/2Ch nor 4Fh/C2h.
\<close>

lemma builds_same_verdict:
  "fst (linux_status_verdict lo hi) = fst (windows_status_verdict lo hi) \<and>
   (fst (linux_status_verdict lo hi) \<longleftrightarrow> (lo, hi) = (0xf4, 0x2c)) \<and>
   (snd (linux_status_verdict lo hi) = None \<longleftrightarrow> (lo, hi) \<in> {(0xf4, 0x2c), (0x4f, 0xc2)}) \<and>
   (snd (windows_status_verdict lo hi) = None \<longleftrightarrow> snd (linux_status_verdict lo hi) = None)"
  by (auto simp: linux_status_verdict_def windows_status_verdict_def smartStatusCylinderLow_def
      smartStatusCylinderHigh_def smartFailCylinderLow_def smartFailCylinderHigh_def
      smartCylLow_def smartCylHigh_def failCylLow_def failCylHigh_def)

text \<open>
  The two SMART RETURN STATUS requests agree on command and feature, but only the
  Windows one carries the signature 4Fh/C2h in the cylinder registers that the ATA standard
  asks of every SMART command; the Linux one sends zeros there.
\<close>

lemma status_requests_differ:
  "index linux_status_request 0 = index windows_status_request 10 \<and>
   index linux_status_request 1 = index windows_status_request 4 \<and>
   (index linux_status_request 4, index linux_status_request 5) = (Some 0, Some 0) \<and>
   (index windows_status_request 7, index windows_status_request 8) = (Some 0x4f, Some 0xc2)"
  by (simp add: index_def linux_status_request_def windows_status_request_def sendCmdInSize_def
      make_bytes_def ataSmartCmd_def ataSmartCmdW_def ataSmartStatus_def ataSmartStatusW_def
      smartCylLow_def smartCylHigh_def)

end
