(* ===== verification/Spec2Isabelle.thy ===== *)
theory Spec2Isabelle
  imports Drive_Builds Nvme_Drive Cmd_Output Builds
begin

text \<open>
  A verification library for go-smartmontools (\<open>gosmart\<close>), the Go program that reads SMART
  information of ATA and NVMe drives on Linux and Windows and prints it.

  \<^bold>\<open>Parts of the program.\<close> \<open>cmd/gosmart/main.go\<close> parses the command line, picks a mode (full
  report, list of field names, value of one field), runs it in a goroutine and races it
  against a timer. A mode asks \<open>internal/device\<close> for the kind of the drive, opens it, sends
  it commands (\<open>ioctl\<close> on Linux, \<open>DeviceIoControl\<close> on Windows), parses the replies with
  \<open>internal/ata\<close> or \<open>internal/nvme\<close> and prints them, in full mode with \<open>internal/printer\<close>.

  \<^bold>\<open>Theories.\<close>
  \<^item> \<open>Go_Prelude\<close>, \<open>Go_Fmt\<close>, \<open>Go_Flag\<close>: what the program uses of Go and its standard library:
    indexing and slicing that may panic, little-endian words, errors as values, \<open>fmt\<close> verbs,
    \<open>float64\<close> quotients, \<open>strconv.ParseInt\<close>, \<open>strconv.ParseBool\<close>, the loop of \<open>flag.Parse\<close>.
  \<^item> \<open>Layout\<close>, \<open>Name_Lookup\<close>: interfaces as locales. A layout is a parser of fixed-size records
    with an encoder that inverts it; a keyed table is a list of names with a lookup.
  \<^item> \<open>Ata_Smart\<close>, \<open>Ata_Logs\<close> (\<open>ata/smart.go\<close>), \<open>Ata_Attr\<close> (\<open>ata/attributes.go\<close>), \<open>Ata_Identify\<close>
    (\<open>ata/identify.go\<close>), \<open>Nvme\<close> (\<open>nvme/nvme.go\<close>): records of the code's structs and one function
    per parser or method. Every \<open>Parse\<close> function is shown to be total and, where the data has a
    fixed layout, to accept exactly the encodings of well-formed records (round trips).
  \<^item> \<open>Printer_Ata\<close>, \<open>Printer_Nvme\<close> (\<open>printer/ata.go\<close>, \<open>printer/nvme.go\<close>): each printer as the
    string it writes.
  \<^item> \<open>Device\<close> (\<open>device/device.go\<close>): the world (events seen by the operating system, standard
    output and error), the two device interfaces as records of actions on it, and the
    contract \<open>device_platform\<close> of a build. \<open>Device_Linux\<close> (\<open>linux.go\<close>, \<open>detect_linux.go\<close>) and
    \<open>Device_Windows\<close> (\<open>windows.go\<close>, \<open>detect_windows.go\<close>) are its two interpretations; \<open>Builds\<close>
    compares them command by command.
  \<^item> \<open>Cmd_Main\<close> (\<open>main.go\<close>): \<open>run\<close>, \<open>runList\<close>, \<open>runGet\<close> over an arbitrary platform, proved safe
    inside the contract. \<open>Cmd_Results\<close>: the text a mode prints as a function of the answers.
  \<^item> \<open>Ata_Drive\<close>: a drive apart from the system it is attached to; \<open>Linux_Drive\<close> and
    \<open>Windows_Drive\<close>: when a system carries commands to it, with concrete sample systems for
    the witnesses; \<open>Drive_Builds\<close>: the two programs on one drive. \<open>Nvme_Drive\<close>: the Linux
    program on an NVMe drive, and the reply of the Windows protocol query.
  \<^item> \<open>Cmd_Timeout\<close>: \<open>runWithTimeout\<close> as a step relation of worker, timer, clock and main
    goroutine. \<open>Timeout_Spec\<close>: the abstract machine it refines, and the length of its runs.
  \<^item> \<open>Cmd_Entry\<close>: \<open>main\<close> from the arguments to the exit code. \<open>Cmd_Output\<close>: what is on standard
    output then, when the exit may cut the worker's output off.
  \<^item> This theory: the properties of the modes across all components.

  \<^bold>\<open>Correspondence.\<close> Go's \<open>uintN\<close> is \<open>N word\<close>, a 64-bit \<open>int\<close> is a \<open>64 word\<close> where it can wrap
  and \<open>int\<close> otherwise, a slice is a list, a string is a list of bytes, a panic is \<open>None\<close>, a
  returned error is \<open>Inl\<close>. The operating system is a parameter (\<open>linux_os\<close>, \<open>windows_os\<close>) whose
  answers may depend on all earlier events; a statement about all of them covers every drive,
  driver and failure. Loops are structural recursions or have a measure; nothing needs fuel.

  \<^bold>\<open>What is shown.\<close> No mode panics, leaks a handle or prints before it has succeeded, on
  either build; what each mode prints for a drive; which exit code the program ends with; that
  the timeout ends it even when the worker hangs; that both builds print the same for one
  ATA drive, and where they do not (the SMART verdict of a failing drive). The hypotheses on
  a system are those a drive that keeps to the standard meets: SMART commands are answered
  when they carry the signature 4Fh/C2h (\<open>ata_signature\<close>), and Linux adds it to the reads
  of \<open>HDIO_DRIVE_CMD\<close>, not to \<open>HDIO_DRIVE_TASK\<close>.

  \<^bold>\<open>Not modelled.\<close> What a Windows system returns for the NVMe protocol query, whose request
  does not have the documented layout (\<open>nvme_query_layout\<close> in \<open>Nvme_Drive\<close>), beyond that no
  reply makes the program panic; write errors of standard output, which the code ignores;
  where exactly the worker's output is split into writes (\<open>Cmd_Output\<close> lets it be cut at
  every byte); the interleaving of the device commands of a mode with the timer (a mode runs on
  a world of its own, and the exit only cuts its output); the wording of the messages of
  package \<open>flag\<close> (a parameter); capacities of slices beyond their length; 32-bit targets, for
  which no release is built; the unit tests and the build files.
\<close>

section \<open>The modes of the program, on both builds\<close>

text \<open>Every mode of the Linux build and of the Windows build.\<close>

definition program_modes ::
    "linux_os \<Rightarrow> windows_os \<Rightarrow> string \<Rightarrow> string \<Rightarrow> string \<Rightarrow> unit call list" where
  "program_modes os wos version path field =
     all_modes (linux_platform os) version path field @
     all_modes (windows_platform wos) version path field"

lemma program_modes_ok: "list_all mode_ok (program_modes os wos version path field)"
  by (simp add: program_modes_def device_platform.all_modes_ok [OF linux.device_platform_axioms]
      device_platform.all_modes_ok [OF windows.device_platform_axioms])

text \<open>
  C1. No mode panics, on any device, driver or operating system of either build: whatever
  bytes come back, no index is out of range and no nil pointer is followed.
\<close>

theorem modes_never_panic:
  "list_all (\<lambda>m. fst (run_state m w) \<noteq> None) (program_modes os wos version path field)"
  using program_modes_ok mode_okD(1) by (rule list.pred_mono_strong)

text \<open>
  C2. Every mode closes what it opens: the open handles afterwards are those open before, on
  success and on every error path, detection included.
\<close>

theorem modes_close_handles:
  "list_all (\<lambda>m. live (events (snd (run_state m w))) = live (events w))
     (program_modes os wos version path field)"
  using program_modes_ok mode_okD(2) by (rule list.pred_mono_strong)

text \<open>
  C3. A mode that returns an error has printed nothing on standard output; one that succeeds
  has only appended to it.
\<close>

theorem modes_print_on_success_only:
  "list_all (\<lambda>m. if fst (run_state m w) = Some (Inr ())
       then grows (stdout w) (stdout (snd (run_state m w)))
       else stdout (snd (run_state m w)) = stdout w)
     (program_modes os wos version path field)"
  using program_modes_ok mode_okD(3) by (rule list.pred_mono_strong)

section \<open>What the modes print\<close>

text \<open>
  C6. On an ATA drive, list mode prints the names of the attributes in use, one per line in
  slot order, and get mode answers for exactly those names: with the 48-bit raw value, in
  decimal, of the first attribute of that name, and with an error and no output otherwise.
\<close>

theorem list_and_get_ata:
  assumes "attached_ata P path dev i sv"
  shows "yields (runList P path) (Some (Inr ()))
      (concat (map (\<lambda>n. n @ nl) (AttrNames sv (id_RPM i)))) [] \<and>
    yields (runGet P path field)
      (Some (if field \<in> set (AttrNames sv (id_RPM i)) then Inr () else Inl (FieldNotFound field)))
      (case find (has_name field (id_RPM i)) (sv_Attributes sv) of None \<Rightarrow> []
       | Some a \<Rightarrow> fmt_d (le_val (attr_Raw a)) @ nl) []"
proof -
  have "AttrByName sv field (id_RPM i) = None \<longleftrightarrow> field \<notin> set (AttrNames sv (id_RPM i))"
    using ata.lookup_iff [of "(sv, id_RPM i)" field] by (auto simp: ata_lookup_def ata_names_def)
  then show ?thesis
    using runList_ata [OF assms] runGet_ata [OF assms, of field]
    by (cases "field \<in> set (AttrNames sv (id_RPM i))") (auto simp: AttrByName_find)
qed

theorem list_and_get_ata_witness:
  "yields (runGet (linux_platform (sample_os (sample_drive (0x4f, 0xc2)))) ''/dev/sda'' ''Power_On_Hours'') (Some (Inr ()))
     (''12345'' @ nl) []"
proof -
  obtain i sv where dev: "attached_ata (linux_platform (sample_os (sample_drive (0x4f, 0xc2)))) ''/dev/sda''
      (linux_ata_device (sample_os (sample_drive (0x4f, 0xc2))) ''/dev/sda'' 3) i sv"
    and sv: "ParseSmartValues sample_response = Some (Inr sv)" using sample_attached by blast
  note hours = sample_power_on_hours [OF sv, of "id_RPM i"]
  from hours(1) obtain a where "find (has_name ''Power_On_Hours'' (id_RPM i)) (sv_Attributes sv) = Some a"
    "le_val (attr_Raw a) = 12345" by blast
  moreover note hours(2)
  moreover have "fmt_d 12345 = map digit_char [1, 2, 3, 4, 5]" by (simp add: fmt_d_snoc fmt_d_one)
  moreover have "map digit_char [1, 2, 3, 4, 5] = ''12345''" by code_simp
  ultimately show ?thesis using list_and_get_ata [OF dev, of "''Power_On_Hours''"] by simp
qed

text \<open>
  C7. On an NVMe drive, list mode prints the 17 names of the field table, whatever the drive
  answers, and get mode prints the value of a field in decimal for exactly those names.
\<close>

theorem list_and_get_nvme:
  assumes "attached_nvme P path dev s"
  shows "yields (runList P path) (Some (Inr ()))
      (concat (map (\<lambda>n. n @ nl) (map fst smartLogFields))) [] \<and>
    yields (runGet P path field)
      (Some (if field \<in> set (map fst smartLogFields) then Inr () else Inl (FieldNotFound field)))
      (case map_of smartLogFields field of None \<Rightarrow> []
       | Some get \<Rightarrow> fmt_d (unat (get s)) @ nl) []"
proof -
  have "map_of smartLogFields field = None \<longleftrightarrow> field \<notin> set (map fst smartLogFields)"
    by (simp add: map_of_eq_None_iff)
  then show ?thesis
    using runList_nvme [OF assms] runGet_nvme [OF assms, of field]
    by (cases "map_of smartLogFields field") simp_all
qed

theorem list_and_get_nvme_witness:
  "yields (runGet (linux_platform (sample_os (sample_drive (0x4f, 0xc2)))) ''/dev/nvme0'' ''Wear'')
     (Some (Inl (FieldNotFound ''Wear''))) [] []"
proof -
  obtain s where "attached_nvme (linux_platform (sample_os (sample_drive (0x4f, 0xc2)))) ''/dev/nvme0''
      (linux_nvme_device (sample_os (sample_drive (0x4f, 0xc2))) ''/dev/nvme0'' 3) s" using sample_nvme_attached by blast
  from list_and_get_nvme [OF this, of "''Wear''"] show ?thesis
    by (simp add: smartLogFields_def)
qed

text \<open>
  C4. The full report of an ATA drive is the printer's text of what the drive answered: a log
  that cannot be read or parsed is left out, an error of SMART RETURN STATUS goes to
  standard error only, and the report still states a verdict, PASSED unless the drive
  said that it is failing.
\<close>

theorem full_report_ata:
  assumes "attached_ata P path dev i sv" and "answers_smart dev st (failing, err) logs"
  shows "\<exists>out pre post. report_text version path i sv st failing logs = Some out \<and>
    yields (run P version path) (Some (Inr ())) out (status_warning err) \<and>
    out = pre @ verdict_line failing @ post"
proof -
  obtain out where out: "report_text version path i sv st failing logs = Some out"
    using report_text_total [OF assms] by blast
  then show ?thesis using run_ata [OF assms out] report_verdict [OF out] by blast
qed

theorem full_report_ata_witness:
  "\<exists>out pre post. out = pre @ ''SMART overall-health self-assessment test result: PASSED'' @ nl @ post \<and>
     yields (run (linux_platform (sample_os (sample_drive (0x4f, 0xc2)))) ''gosmart dev'' ''/dev/sda'') (Some (Inr ())) out
       (''Warning: SMART STATUS: input/output error'' @ nl)"
proof -
  obtain i sv where dev: "attached_ata (linux_platform (sample_os (sample_drive (0x4f, 0xc2)))) ''/dev/sda''
      (linux_ata_device (sample_os (sample_drive (0x4f, 0xc2))) ''/dev/sda'' 3) i sv" using sample_attached by blast
  obtain st where smart: "answers_smart (linux_ata_device (sample_os (sample_drive (0x4f, 0xc2))) ''/dev/sda'' 3) st
      (False, Some (SysErr ''input/output error'')) (drive_logs (sample_drive (0x4f, 0xc2)) (SysErr ''input/output error''))"
    using sample_answers by blast
  from full_report_ata [OF dev smart, of "''gosmart dev''"] obtain out pre post
    where "yields (run (linux_platform (sample_os (sample_drive (0x4f, 0xc2)))) ''gosmart dev'' ''/dev/sda'') (Some (Inr ())) out
        (status_warning (Some (SysErr ''input/output error'')))"
      and "out = pre @ verdict_line False @ post" by blast
  then show ?thesis by (auto simp: status_warning_def verdict_line_def)
qed

text \<open>
  C5. The full report of an NVMe drive never fails for want of a log: with the health log the
  verdict is FAILED! exactly when the critical warning is not zero, and without it the
  report says that the information is not available and states no verdict.
\<close>

theorem full_report_nvme:
  assumes "answers_nvme P path dev ic logs"
  shows "\<exists>smart. yields (run P version path) (Some (Inr ()))
      (printHeader version path @ printNVMeInfo ic @
        ''=== START OF READ SMART DATA SECTION ==='' @ nl @ smart) [] \<and>
    (case health_log logs of
       None \<Rightarrow> smart = ''SMART/Health Information not available'' @ nl
     | Some s \<Rightarrow> \<exists>post. smart = verdict_line (CriticalWarning s \<noteq> 0) @ post)"
  using run_nvme [OF assms, of version]
    nvme_section_verdict [of "health_log logs" "error_entries logs"]
  by (cases "health_log logs") (auto simp: PrintNVMeAll_def)

theorem full_report_nvme_witness:
  "\<exists>out pre post. yields (run (linux_platform (sample_os (sample_drive (0x4f, 0xc2)))) ''gosmart dev'' ''/dev/nvme0'')
     (Some (Inr ())) out [] \<and> out = pre @ verdict_line False @ post"
proof -
  obtain ic where dev: "answers_nvme (linux_platform (sample_os (sample_drive (0x4f, 0xc2)))) ''/dev/nvme0''
      (linux_nvme_device (sample_os (sample_drive (0x4f, 0xc2))) ''/dev/nvme0'' 3) ic
      (nvme_logs sample_nvme (SysErr []))"
    using sample_nvme_answers by blast
  obtain s where "health_log (nvme_logs sample_nvme (SysErr [])) = Some s" "CriticalWarning s = 0"
    using sample_health by blast
  then obtain rest post where
    "yields (run (linux_platform (sample_os (sample_drive (0x4f, 0xc2)))) ''gosmart dev'' ''/dev/nvme0'')
       (Some (Inr ())) (printHeader ''gosmart dev'' ''/dev/nvme0'' @ printNVMeInfo ic @
         ''=== START OF READ SMART DATA SECTION ==='' @ nl @ rest) []"
    and "rest = verdict_line False @ post"
    using full_report_nvme [OF dev, of "''gosmart dev''"] by auto
  then show ?thesis
    by (intro exI [of _ "printHeader ''gosmart dev'' ''/dev/nvme0'' @ printNVMeInfo ic @
        ''=== START OF READ SMART DATA SECTION ==='' @ nl @ rest"]
        exI [of _ "printHeader ''gosmart dev'' ''/dev/nvme0'' @ printNVMeInfo ic @
        ''=== START OF READ SMART DATA SECTION ==='' @ nl"] exI [of _ post]) simp
qed

end
